(* ===== verification/Prelude.thy ===== *)
theory Prelude
  imports Main "HOL-Library.Word"
begin

text \<open>
  Shared vocabulary of the development: the machine-integer types of the Go and C sources, the
  combinators that stand for Go's \<open>if err != nil { return err }\<close>, the big-endian codecs of
  \<open>encoding/binary\<close> (the same byte order as \<open>bpf_ntohs\<close>/\<open>bpf_ntohl\<close> on wire data), and the
  generic facts on words and lists that the component theories use.
  The collection \<open>go_eval\<close> gathers the defining equations that evaluate closed terms by
  \<open>simp\<close>; \<open>wire\<close> gathers the codec round trips.
\<close>

unbundle bit_operations_syntax

named_theorems go_eval "equations that evaluate the model on closed inputs"
named_theorems wire "round trips and ranges of the big-endian codecs"

section \<open>Types\<close>

type_synonym u8 = "8 word"
type_synonym u16 = "16 word"
type_synonym u32 = "32 word"
type_synonym u64 = "64 word"

section \<open>Errors as values\<close>

text \<open>\<open>check r f\<close> is \<open>x, err := r; if err != nil { return err }; f(x)\<close>.\<close>

definition check :: "'e + 'a \<Rightarrow> ('a \<Rightarrow> 'e + 'b) \<Rightarrow> 'e + 'b" where
  "check r f = (case r of Inl e \<Rightarrow> Inl e | Inr x \<Rightarrow> f x)"

lemma check_simps [simp]:
  "check (Inl e) f = Inl e"
  "check (Inr x) f = f x"
  by (simp_all add: check_def)

lemma check_eq_Inr: "check r f = Inr y \<longleftrightarrow> (\<exists>x. r = Inr x \<and> f x = Inr y)"
  by (cases r) auto

lemma check_InrE:
  assumes "check r f = Inr y"
  obtains x where "r = Inr x" and "f x = Inr y"
  using assms by (auto simp: check_eq_Inr)

lemma check_assoc: "check (check r f) g = check r (\<lambda>x. check (f x) g)"
  by (cases r) auto

lemma check_cong [cong]: "r = r' \<Longrightarrow> check r f = check r' f"
  by simp

text \<open>\<open>guard_err b e\<close> is \<open>if b { return e }\<close> in a sequence of checks.\<close>

definition guard_err :: "bool \<Rightarrow> 'e \<Rightarrow> 'e + unit" where
  "guard_err b e = (if b then Inl e else Inr ())"

lemma guard_err_simps [simp]:
  "guard_err True e = Inl e"
  "guard_err False e = Inr ()"
  "guard_err b e = Inr u \<longleftrightarrow> \<not> b"
  "guard_err b e = Inl d \<longleftrightarrow> b \<and> d = e"
  by (auto simp: guard_err_def)

section \<open>Big-endian codecs\<close>

definition be16 :: "u8 \<Rightarrow> u8 \<Rightarrow> u16" where
  "be16 a b = (ucast b OR push_bit 8 (ucast a))"

definition be32 :: "u8 \<Rightarrow> u8 \<Rightarrow> u8 \<Rightarrow> u8 \<Rightarrow> u32" where
  "be32 a b c d =
     (ucast d OR push_bit 8 (ucast c) OR push_bit 16 (ucast b) OR push_bit 24 (ucast a))"

definition put_be16 :: "u16 \<Rightarrow> u8 list" where
  "put_be16 v = [ucast (drop_bit 8 v), ucast v]"

definition put_be32 :: "u32 \<Rightarrow> u8 list" where
  "put_be32 v = [ucast (drop_bit 24 v), ucast (drop_bit 16 v), ucast (drop_bit 8 v), ucast v]"

lemma length_put_be [simp]: "length (put_be16 v) = 2" "length (put_be32 w) = 4"
  by (simp_all add: put_be16_def put_be32_def)

lemma bit_beyond_u8: "8 \<le> n \<Longrightarrow> \<not> bit (a :: u8) n"
  by (auto dest: bit_imp_le_length)

lemma be32_put_be32 [wire]:
  "be32 (ucast (drop_bit 24 v)) (ucast (drop_bit 16 v)) (ucast (drop_bit 8 v)) (ucast v) = v"
proof (rule bit_word_eqI)
  fix n assume "n < LENGTH(32)"
  then consider "n < 8" | "8 \<le> n" "n < 16" | "16 \<le> n" "n < 24" | "24 \<le> n" "n < 32"
    by fastforce
  then show "bit (be32 (ucast (drop_bit 24 v)) (ucast (drop_bit 16 v)) (ucast (drop_bit 8 v))
      (ucast v)) n = bit v n"
    by cases (auto simp: be32_def bit_simps)
qed

lemma be16_put_be16 [wire]: "be16 (ucast (drop_bit 8 v)) (ucast v) = v"
proof (rule bit_word_eqI)
  fix n assume "n < LENGTH(16)"
  then consider "n < 8" | "8 \<le> n" "n < 16" by fastforce
  then show "bit (be16 (ucast (drop_bit 8 v)) (ucast v)) n = bit v n"
    by cases (auto simp: be16_def bit_simps)
qed

lemma be32_bytes [wire]:
  "ucast (drop_bit 24 (be32 a b c d)) = a"
  "ucast (drop_bit 16 (be32 a b c d)) = b"
  "ucast (drop_bit 8 (be32 a b c d)) = c"
  "ucast (be32 a b c d) = d"
  by (rule bit_word_eqI; auto simp: be32_def bit_simps bit_beyond_u8)+

lemma be16_bytes [wire]:
  "ucast (drop_bit 8 (be16 a b)) = a"
  "ucast (be16 a b) = b"
  by (rule bit_word_eqI; auto simp: be16_def bit_simps bit_beyond_u8)+

lemma be32_inject: "be32 a b c d = be32 a' b' c' d' \<longleftrightarrow> a = a' \<and> b = b' \<and> c = c' \<and> d = d'"
  by (metis be32_bytes)

lemma put_be32_be32 [wire]: "put_be32 (be32 a b c d) = [a, b, c, d]"
  by (simp add: put_be32_def be32_bytes)

lemma put_be16_be16 [wire]: "put_be16 (be16 a b) = [a, b]"
  by (simp add: put_be16_def be16_bytes)

text \<open>Any byte is below 256, any four-byte value below \<open>2 ^ 32\<close>.\<close>

lemma unat_u8_less [simp]: "unat (b :: u8) < 256"
  using unsigned_less [where 'a = nat and w = b] by simp

lemma unat_u16_less [simp]: "unat (h :: u16) < 65536"
  using unsigned_less [where 'a = nat and w = h] by simp

lemma unat_u32_less [simp]: "unat (w :: u32) < 4294967296"
  using unsigned_less [where 'a = nat and w = w] by simp

lemma unat_u64_less [simp]: "unat (w :: u64) < 18446744073709551616"
  using unsigned_less [where 'a = nat and w = w] by simp

lemma drop_nat: "unat (drop_bit k (w :: 'a::len word)) = unat w div 2 ^ k"
  by (rule trans [OF unat_drop_bit_eq drop_bit_eq_div])

lemma length_eq_4: "length xs = 4 \<longleftrightarrow> (\<exists>a b c d. xs = [a, b, c, d])"
  by (auto simp: numeral_eq_Suc length_Suc_conv)

end
