(* ===== verification/GoStd.thy ===== *)
theory GoStd
  imports Prelude
begin

text \<open>
  What the Go sources use of the packages \<open>strings\<close>, \<open>strconv\<close> and \<open>fmt\<close>, on strings as byte
  lists (\<open>string\<close> is \<open>char list\<close>, one \<open>char\<close> per byte): \<open>strings.TrimSpace\<close>,
  \<open>strings.HasPrefix\<close>, \<open>strconv.ParseUint\<close>, the verbs \<open>%d\<close>, \<open>%08X\<close>, \<open>%02x\<close> and \<open>%.2f\<close>,
  with the round trips between printing and parsing that the rule editor relies on.
\<close>

section \<open>Decimal and hexadecimal printing\<close>

definition code :: "char \<Rightarrow> nat" where
  "code c = of_char c"

definition digit :: "nat \<Rightarrow> char" where
  "digit d = char_of (48 + d)"

definition hex_upper :: "nat \<Rightarrow> char" where
  "hex_upper d = (if d < 10 then digit d else char_of (55 + d))"

definition hex_lower :: "nat \<Rightarrow> char" where
  "hex_lower d = (if d < 10 then digit d else char_of (87 + d))"

text \<open>\<open>%d\<close> of an unsigned value.\<close>

fun fmt_d :: "nat \<Rightarrow> string" where
  "fmt_d n = (if n < 10 then [digit n] else fmt_d (n div 10) @ [digit (n mod 10)])"

declare fmt_d.simps [simp del]

text \<open>\<open>%08X\<close> of a \<open>uint32\<close> (eight hexadecimal digits are always enough) and \<open>%02x\<close> of a byte.\<close>

definition fmt_08X :: "u32 \<Rightarrow> string" where
  "fmt_08X v = map (\<lambda>i. hex_upper (unat (drop_bit (4 * i) v AND 15))) [7, 6, 5, 4, 3, 2, 1, 0]"

definition fmt_02x :: "u8 \<Rightarrow> string" where
  "fmt_02x b = [hex_lower (unat (drop_bit 4 b)), hex_lower (unat (b AND 15))]"

section \<open>strings.TrimSpace\<close>

text \<open>
  The white space of \<open>unicode.IsSpace\<close> in UTF-8: one byte for the ASCII ones, two for U+0085 and
  U+00A0, three for U+1680, U+2000 to U+200A, U+2028, U+2029, U+202F, U+205F and U+3000.
\<close>

definition ascii_space :: "nat \<Rightarrow> bool" where
  "ascii_space c \<longleftrightarrow> (9 \<le> c \<and> c \<le> 13) \<or> c = 32"

definition space2 :: "nat list \<Rightarrow> bool" where
  "space2 w \<longleftrightarrow> w = [0xC2, 0x85] \<or> w = [0xC2, 0xA0]"

definition space3 :: "nat list \<Rightarrow> bool" where
  "space3 w \<longleftrightarrow> w = [0xE1, 0x9A, 0x80] \<or> w = [0xE2, 0x81, 0x9F] \<or> w = [0xE3, 0x80, 0x80]
     \<or> (length w = 3 \<and> w ! 0 = 0xE2 \<and> w ! 1 = 0x80
        \<and> (0x80 \<le> w ! 2 \<and> w ! 2 \<le> 0x8A \<or> w ! 2 = 0xA8 \<or> w ! 2 = 0xA9 \<or> w ! 2 = 0xAF))"

definition space_at_front :: "string \<Rightarrow> nat" where
  "space_at_front s =
     (let w = map code (take 3 s)
      in if s = [] then 0
         else if ascii_space (hd w) then 1
         else if space2 (take 2 w) then 2
         else if space3 w then 3 else 0)"

definition space_at_back :: "string \<Rightarrow> nat" where
  "space_at_back s =
     (let w = map code (drop (length s - 3) s)
      in if s = [] then 0
         else if ascii_space (last w) then 1
         else if space2 (drop (length w - 2) w) then 2
         else if space3 w then 3 else 0)"

function trim_left :: "string \<Rightarrow> string" where
  "trim_left s = (if space_at_front s = 0 then s else trim_left (drop (space_at_front s) s))"
  by pat_completeness auto
termination
  by (relation "measure length") (auto simp: space_at_front_def Let_def split: if_splits)

function trim_right :: "string \<Rightarrow> string" where
  "trim_right s =
     (if space_at_back s = 0 then s else trim_right (take (length s - space_at_back s) s))"
  by pat_completeness auto
termination
  by (relation "measure length") (auto simp: space_at_back_def Let_def split: if_splits)

declare trim_left.simps [simp del] trim_right.simps [simp del]

definition TrimSpace :: "string \<Rightarrow> string" where
  "TrimSpace s = trim_right (trim_left s)"

section \<open>strings.HasPrefix and strconv.ParseUint\<close>

definition HasPrefix :: "string \<Rightarrow> string \<Rightarrow> bool" where
  "HasPrefix s p \<longleftrightarrow> take (length p) s = p"

datatype num_error = ErrSyntax | ErrRange

text \<open>The value of a digit: \<open>0..9\<close>, or a letter of either case (\<open>lower(c) - 'a' + 10\<close>).\<close>

definition digit_val :: "char \<Rightarrow> nat option" where
  "digit_val c =
     (let n = code c
      in if 48 \<le> n \<and> n \<le> 57 then Some (n - 48)
         else if 97 \<le> n \<and> n \<le> 122 then Some (n - 87)
         else if 65 \<le> n \<and> n \<le> 90 then Some (n - 55)
         else None)"

text \<open>
  The loop of \<open>ParseUint\<close>. Its accumulator is a \<open>uint64\<close>, but with a bit size of at most 32 it
  stays below \<open>2 ^ 32\<close> while the loop runs, so the guard against wrap-around (\<open>n >= cutoff\<close>,
  \<open>n1 < n\<close>) never fires before the range test and the accumulator is a natural number.
\<close>

fun parse_digits :: "nat \<Rightarrow> nat \<Rightarrow> nat \<Rightarrow> string \<Rightarrow> num_error + nat" where
  "parse_digits base maxVal n [] = Inr n"
| "parse_digits base maxVal n (c # cs) =
     (case digit_val c of
        None \<Rightarrow> Inl ErrSyntax
      | Some d \<Rightarrow>
          if base \<le> d then Inl ErrSyntax
          else if maxVal < n * base + d then Inl ErrRange
          else parse_digits base maxVal (n * base + d) cs)"

definition ParseUint :: "string \<Rightarrow> nat \<Rightarrow> nat \<Rightarrow> num_error + nat" where
  "ParseUint s base bitSize =
     (if s = [] then Inl ErrSyntax else parse_digits base (2 ^ bitSize - 1) 0 s)"

section \<open>float64 conversion and \<open>%.2f\<close>\<close>

text \<open>
  \<open>float64(b)\<close> of a \<open>uint64\<close> rounds to 53 significant bits, ties to even; dividing by a power of
  two is then exact, and \<open>%.2f\<close> rounds the exact quotient to hundredths, ties to even.
\<close>

definition round_half_even :: "nat \<Rightarrow> nat \<Rightarrow> nat" where
  "round_half_even n d =
     (let q = n div d; r = n mod d
      in if 2 * r < d then q else if d < 2 * r then q + 1 else if even q then q else q + 1)"

fun excess_bits :: "nat \<Rightarrow> nat" where
  "excess_bits n = (if n < 2 ^ 53 then 0 else Suc (excess_bits (n div 2)))"

declare excess_bits.simps [simp del]

definition float64_of :: "u64 \<Rightarrow> nat" where
  "float64_of b =
     (let n = unat b; e = excess_bits n in round_half_even n (2 ^ e) * 2 ^ e)"

definition fmt_hundredths :: "nat \<Rightarrow> string" where
  "fmt_hundredths h = fmt_d (h div 100) @ ''.'' @ [digit (h mod 100 div 10), digit (h mod 10)]"

text \<open>\<open>fmt.Sprintf("%.2f", float64(b) / float64(1 << k))\<close>.\<close>

definition fmt_scaled :: "u64 \<Rightarrow> nat \<Rightarrow> string" where
  "fmt_scaled b k = fmt_hundredths (round_half_even (float64_of b * 100) (2 ^ k))"

section \<open>Facts on printed text\<close>

lemma code_char_of [simp]: "n < 256 \<Longrightarrow> code (char_of n) = n"
  by (simp add: code_def)

lemma code_digit [simp]: "d < 10 \<Longrightarrow> code (digit d) = 48 + d"
  by (simp add: digit_def)

lemma code_hex_upper: "d < 16 \<Longrightarrow> code (hex_upper d) = (if d < 10 then 48 + d else 55 + d)"
  by (simp add: hex_upper_def)

lemma code_hex_lower: "d < 16 \<Longrightarrow> code (hex_lower d) = (if d < 10 then 48 + d else 87 + d)"
  by (simp add: hex_lower_def)

lemma digit_val_digit [simp]: "d < 10 \<Longrightarrow> digit_val (digit d) = Some d"
  by (simp add: digit_val_def)

lemma digit_val_hex [simp]:
  "d < 16 \<Longrightarrow> digit_val (hex_upper d) = Some d"
  "d < 16 \<Longrightarrow> digit_val (hex_lower d) = Some d"
  by (auto simp: digit_val_def code_hex_upper code_hex_lower Let_def)

text \<open>A visible ASCII character: neither white space nor a byte of a multi-byte sequence.\<close>

definition visible :: "char \<Rightarrow> bool" where
  "visible c \<longleftrightarrow> 33 \<le> code c \<and> code c \<le> 126"

text \<open>A single token of the listing: not empty, and only visible characters.\<close>

definition token :: "string \<Rightarrow> bool" where
  "token s \<longleftrightarrow> s \<noteq> [] \<and> list_all visible s"

lemma token_simps [simp]:
  "\<not> token []"
  "token [c] \<longleftrightarrow> visible c"
  "token (c # d # s) \<longleftrightarrow> visible c \<and> token (d # s)"
  by (auto simp: token_def)

lemma token_append: "token s \<Longrightarrow> list_all visible t \<Longrightarrow> token (s @ t)"
  by (auto simp: token_def)

lemma token_append2: "list_all visible s \<Longrightarrow> token t \<Longrightarrow> token (s @ t)"
  by (auto simp: token_def)

lemma visible_digit [simp]: "d < 10 \<Longrightarrow> visible (digit d)"
  by (simp add: visible_def)

lemma visible_hex [simp]:
  "d < 16 \<Longrightarrow> visible (hex_upper d)" "d < 16 \<Longrightarrow> visible (hex_lower d)"
  by (auto simp: visible_def code_hex_upper code_hex_lower)

lemma visible_chars [simp]:
  "visible (CHR ''.'')" "visible (CHR '':'')" "visible (CHR ''/'')" "visible (CHR ''-'')"
  "visible (CHR ''('')" "visible (CHR '')'')" "visible (CHR ''_'')" "visible (CHR ''x'')"
  "visible (CHR ''0'')" "visible (CHR ''s'')"
  by (simp_all add: visible_def code_def)

lemma nibble_less [simp]: "unat (w AND 15 :: 'a::len word) < 16" if "4 < LENGTH('a)"
proof -
  have "unat (w AND 15) \<le> unat (15 :: 'a word)"
    by (rule word_and_le1 [THEN word_le_nat_alt [THEN iffD1]])
  also have "\<dots> \<le> 15"
    by (metis le_refl of_nat_numeral unat_of_nat mod_less_eq_dividend)
  finally show ?thesis by simp
qed

lemma token_fmt_d: "token (fmt_d n)"
proof (induction n rule: fmt_d.induct)
  case (1 n)
  then show ?case
    by (subst fmt_d.simps) (auto intro: token_append)
qed

lemma token_fmt_08X: "token (fmt_08X v)"
  by (simp add: fmt_08X_def)

lemma token_fmt_hundredths: "token (fmt_hundredths h)"
proof -
  have "h mod 100 div 10 < 10" "h mod 10 < 10" by auto
  then show ?thesis
    by (auto simp: fmt_hundredths_def intro!: token_append token_fmt_d)
qed

text \<open>\<open>TrimSpace\<close> leaves a token alone: its first and last bytes are visible.\<close>

lemma visible_not_space: "visible c \<Longrightarrow> \<not> ascii_space (code c)"
  by (auto simp: visible_def ascii_space_def)

lemma space_at_front_visible: "visible c \<Longrightarrow> space_at_front (c # s) = 0"
  by (auto simp: space_at_front_def visible_not_space space2_def space3_def visible_def)

lemma space_at_back_visible:
  assumes v: "visible c"
  shows "space_at_back (s @ [c]) = 0"
proof -
  define t where "t = drop (length s - 2) s"
  have d: "drop (length (s @ [c]) - 3) (s @ [c]) = t @ [c]"
    by (simp add: t_def)
  have l: "length t \<le> 2" by (simp add: t_def)
  show ?thesis
    using v l
    by (cases t rule: rev_cases)
      (auto simp: space_at_back_def d visible_not_space space2_def space3_def visible_def
        Let_def append_eq_Cons_conv nth_append)
qed

lemma TrimSpace_token: "token s \<Longrightarrow> TrimSpace s = s"
proof -
  assume t: "token s"
  then obtain c s' where c: "s = c # s'" "visible c"
    by (cases s) (auto simp: token_def)
  have "trim_left s = s"
    using c by (subst trim_left.simps) (simp add: space_at_front_visible)
  moreover obtain d s'' where d: "s = s'' @ [d]" "visible d"
    using t by (cases s rule: rev_cases) (auto simp: token_def)
  have "trim_right s = s"
    using d by (subst trim_right.simps) (simp add: space_at_back_visible)
  ultimately show ?thesis by (simp add: TrimSpace_def)
qed

lemma TrimSpace_Nil [simp]: "TrimSpace [] = []"
  by (simp add: TrimSpace_def trim_left.simps trim_right.simps space_at_front_def
      space_at_back_def)

section \<open>Parsing what was printed\<close>

lemma parse_digits_append:
  "parse_digits b mx n (xs @ ys) = check (parse_digits b mx n xs) (\<lambda>m. parse_digits b mx m ys)"
  by (induction xs arbitrary: n) (auto split: option.split)

lemma parse_digits_fmt_d: "n \<le> mx \<Longrightarrow> parse_digits 10 mx 0 (fmt_d n) = Inr n"
proof (induction n rule: fmt_d.induct)
  case (1 n)
  show ?case
  proof (cases "n < 10")
    case True
    with 1 show ?thesis by (subst fmt_d.simps) simp
  next
    case False
    with 1 have "parse_digits 10 mx 0 (fmt_d (n div 10)) = Inr (n div 10)" by simp
    with False 1 show ?thesis
      by (subst fmt_d.simps) (simp add: parse_digits_append)
  qed
qed

lemma fmt_d_not_Nil [simp]: "fmt_d n \<noteq> []"
  using token_fmt_d [of n] by auto

lemma ParseUint_fmt_d: "n < 2 ^ k \<Longrightarrow> ParseUint (fmt_d n) 10 k = Inr n"
  by (simp add: ParseUint_def parse_digits_fmt_d)

text \<open>A successful parse stays in range, whatever the base.\<close>

lemma parse_digits_bound: "n \<le> mx \<Longrightarrow> parse_digits b mx n s = Inr m \<Longrightarrow> m \<le> mx"
proof (induction s arbitrary: n)
  case Nil
  then show ?case by simp
next
  case (Cons c cs)
  then show ?case by (simp split: option.splits if_splits) (metis not_le)
qed

lemma ParseUint_bound: "ParseUint s b k = Inr m \<Longrightarrow> m < 2 ^ k"
proof -
  assume "ParseUint s b k = Inr m"
  then have "m \<le> 2 ^ k - 1"
    by (auto simp: ParseUint_def split: if_splits dest!: parse_digits_bound [rotated])
  moreover have "(0::nat) < 2 ^ k" by simp
  ultimately show ?thesis by linarith
qed

lemma and_15_nat: "unat (w AND 15 :: 'a::len word) = unat w mod 16" if "4 < LENGTH('a)"
proof -
  have "w AND 15 = take_bit 4 w"
    by (simp only: take_bit_eq_mask mask_numeral) (simp add: mask_numeral)
  moreover have "unat (take_bit 4 w) = take_bit 4 (unat w)"
    by (rule unsigned_take_bit_eq)
  ultimately show ?thesis by (simp only: take_bit_eq_mod) simp
qed

lemma nibble_nat: "unat (drop_bit (4 * i) v AND 15 :: u32) = unat v div 16 ^ i mod 16"
proof -
  have "unat (drop_bit (4 * i) v AND 15) = unat (drop_bit (4 * i) v) mod 16"
    by (rule and_15_nat) simp
  then show ?thesis unfolding drop_nat by (simp add: power_mult)
qed

text \<open>Reading hexadecimal digits most significant first is Horner's rule.\<close>

lemma parse_digits_hex_upper:
  assumes "\<forall>d \<in> set ds. d < 16" and "foldl (\<lambda>a d. a * 16 + d) n ds \<le> mx"
  shows "parse_digits 16 mx n (map hex_upper ds) = Inr (foldl (\<lambda>a d. a * 16 + d) n ds)"
  using assms
proof (induction ds arbitrary: n)
  case Nil
  then show ?case by simp
next
  case (Cons d ds)
  have mono: "m \<le> foldl (\<lambda>a d. a * 16 + d) m es" for m :: nat and es
  proof (induction es arbitrary: m)
    case (Cons e es)
    have "m \<le> m * 16 + e" by simp
    also have "\<dots> \<le> foldl (\<lambda>a d. a * 16 + d) (m * 16 + e) es" by (rule Cons)
    finally show ?case by simp
  qed simp
  have "n * 16 + d \<le> mx"
    using mono [of "n * 16 + d" ds] Cons.prems(2) by simp
  with Cons show ?case by simp
qed

lemma horner8:
  fixes n :: nat
  assumes "n < 4294967296"
  shows "foldl (\<lambda>a i. a * 16 + n div 16 ^ i mod 16) 0 [7, 6, 5, 4, 3, 2, 1, 0] = n"
proof -
  have step: "n div 16 ^ Suc i * 16 + n div 16 ^ i mod 16 = n div 16 ^ i" for i
    by (metis div_mult_mod_eq div_mult2_eq mult.commute power_Suc)
  have top: "n div 268435456 mod 16 = n div 268435456"
    using assms by simp
  show ?thesis
    using step [of 0] step [of 1] step [of 2] step [of 3] step [of 4] step [of 5] step [of 6]
    by (simp add: top)
qed

lemma ParseUint_fmt_08X: "ParseUint (fmt_08X v) 16 32 = Inr (unat v)"
proof -
  let ?ds = "map (\<lambda>i. unat v div 16 ^ i mod 16) [7, 6, 5, 4, 3, 2, 1, 0 :: nat]"
  have f: "fmt_08X v = map hex_upper ?ds"
    by (simp only: fmt_08X_def nibble_nat list.map)
  have h: "foldl (\<lambda>a d. a * 16 + d) 0 ?ds = unat v"
    using horner8 [of "unat v"] by (simp only: foldl_map) simp
  have d: "\<forall>d \<in> set ?ds. d < 16" by simp
  have m: "foldl (\<lambda>a d. a * 16 + d) 0 ?ds \<le> 2 ^ 32 - 1"
    unfolding h using unat_u32_less [of v] by (simp del: unat_u32_less)
  have "parse_digits 16 (2 ^ 32 - 1) 0 (fmt_08X v) = Inr (unat v)"
    unfolding f using parse_digits_hex_upper [OF d m] unfolding h .
  moreover have "fmt_08X v \<noteq> []"
    using token_fmt_08X [of v] by (auto simp only: token_simps)
  ultimately show ?thesis
    by (simp only: ParseUint_def if_False)
qed

end
