(* ===== verification/GoNet.thy ===== *)
theory GoNet
  imports GoStd
begin

text \<open>
  What the Go sources use of the package \<open>net\<close>: \<open>net.ParseIP\<close> (through \<open>netip.ParseAddr\<close>, both
  the IPv4 and the IPv6 text forms, since the commands accept any text form of an IPv4 address,
  the IPv4-mapped IPv6 ones included), \<open>IP.To4\<close>, \<open>IP.String\<close> of an IPv4 address and
  \<open>net.ParseMAC\<close>. A nil \<open>net.IP\<close> is the empty list; \<open>ParseIP\<close> returns it for every malformed
  text, so the parsers below return an option and drop the error texts.
\<close>

section \<open>net.IP\<close>

type_synonym go_IP = "u8 list"

definition v4_in_v6_prefix :: "u8 list" where
  "v4_in_v6_prefix = replicate 10 0 @ [0xFF, 0xFF]"

definition To4 :: "go_IP \<Rightarrow> go_IP" where
  "To4 ip =
     (if length ip = 4 then ip
      else if length ip = 16 \<and> take 12 ip = v4_in_v6_prefix then drop 12 ip
      else [])"

definition dotted :: "u8 \<Rightarrow> u8 \<Rightarrow> u8 \<Rightarrow> u8 \<Rightarrow> string" where
  "dotted a b c d =
     fmt_d (unat a) @ ''.'' @ fmt_d (unat b) @ ''.'' @ fmt_d (unat c) @ ''.'' @ fmt_d (unat d)"

text \<open>\<open>IP.String\<close> of an IPv4 address, in its 4-byte or 16-byte form (the only ones printed).\<close>

definition IP4_String :: "go_IP \<Rightarrow> string" where
  "IP4_String ip = (case To4 ip of [a, b, c, d] \<Rightarrow> dotted a b c d | _ \<Rightarrow> ''<nil>'')"

section \<open>net.ParseIP\<close>

text \<open>
  \<open>parseIPv4Fields\<close>: \<open>prev\<close> is the byte before the current one, \<open>fields\<close> the octets so far
  (\<open>pos\<close> is their number).
\<close>

fun parse_v4 :: "char option \<Rightarrow> nat \<Rightarrow> nat \<Rightarrow> nat list \<Rightarrow> string \<Rightarrow> nat list option" where
  "parse_v4 prev val digLen fields [] =
     (if length fields < 3 then None else Some (fields @ [val]))"
| "parse_v4 prev val digLen fields (c # cs) =
     (if 48 \<le> code c \<and> code c \<le> 57 then
        if digLen = 1 \<and> val = 0 then None
        else if 255 < val * 10 + (code c - 48) then None
        else parse_v4 (Some c) (val * 10 + (code c - 48)) (digLen + 1) fields cs
      else if c = CHR ''.'' then
        if prev = None \<or> cs = [] \<or> prev = Some (CHR ''.'') then None
        else if length fields = 3 then None
        else parse_v4 (Some c) 0 0 (fields @ [val]) cs
      else None)"

definition parseIPv4 :: "string \<Rightarrow> u8 list option" where
  "parseIPv4 s = map_option (map of_nat) (parse_v4 None 0 0 [] s)"

definition hex_val :: "char \<Rightarrow> nat option" where
  "hex_val c = (case digit_val c of Some d \<Rightarrow> if d < 16 then Some d else None | None \<Rightarrow> None)"

text \<open>One hexadecimal group: the digits read, their value and the rest; \<open>None\<close> if too long.\<close>

fun scan_hex :: "nat \<Rightarrow> nat \<Rightarrow> string \<Rightarrow> (nat \<times> nat \<times> string) option" where
  "scan_hex off acc [] = Some (off, acc, [])"
| "scan_hex off acc (c # cs) =
     (case hex_val c of
        None \<Rightarrow> Some (off, acc, c # cs)
      | Some d \<Rightarrow>
          if 3 < off then None
          else if 65535 < acc * 16 + d then None
          else scan_hex (off + 1) (acc * 16 + d) cs)"

text \<open>
  The loop of \<open>parseIPv6\<close>: \<open>ip\<close> holds the bytes written so far (\<open>i\<close> is their number) and \<open>ell\<close>
  the position of the ellipsis. The result is the state after the loop.
\<close>

function v6_loop :: "nat list \<Rightarrow> nat option \<Rightarrow> string \<Rightarrow> (nat list \<times> nat option \<times> string) option" where
  "v6_loop ip ell s =
     (if 16 \<le> length ip then Some (ip, ell, s)
      else case scan_hex 0 0 s of
        None \<Rightarrow> None
      | Some (off, acc, rest) \<Rightarrow>
          if off = 0 then None
          else if rest \<noteq> [] \<and> hd rest = CHR ''.'' then
            if ell = None \<and> length ip \<noteq> 12 then None
            else if 16 < length ip + 4 then None
            else (case parse_v4 None 0 0 [] s of
                    None \<Rightarrow> None
                  | Some fs \<Rightarrow> Some (ip @ fs, ell, []))
          else if rest = [] then Some (ip @ [acc div 256, acc mod 256], ell, [])
          else if hd rest \<noteq> CHR '':'' then None
          else if tl rest = [] then None
          else if hd (tl rest) = CHR '':'' then
            if ell \<noteq> None then None
            else if tl (tl rest) = [] then
              Some (ip @ [acc div 256, acc mod 256], Some (length ip + 2), [])
            else v6_loop (ip @ [acc div 256, acc mod 256]) (Some (length ip + 2)) (tl (tl rest))
          else v6_loop (ip @ [acc div 256, acc mod 256]) ell (tl rest))"
  by pat_completeness auto
termination
  by (relation "measure (\<lambda>(ip, ell, s). 16 - length ip)") auto

declare v6_loop.simps [simp del]

definition expand_v6 :: "nat list \<times> nat option \<times> string \<Rightarrow> nat list option" where
  "expand_v6 = (\<lambda>(ip, ell, s).
     if s \<noteq> [] then None
     else if length ip < 16 then
       (case ell of
          None \<Rightarrow> None
        | Some e \<Rightarrow> Some (take e ip @ replicate (16 - length ip) 0 @ drop e ip))
     else if ell \<noteq> None then None
     else Some ip)"

definition parseIPv6 :: "string \<Rightarrow> u8 list option" where
  "parseIPv6 s =
     map_option (map of_nat)
       (if take 2 s = ''::'' then
          if length s = 2 then Some (replicate 16 0)
          else Option.bind (v6_loop [] (Some 0) (drop 2 s)) expand_v6
        else Option.bind (v6_loop [] None s) expand_v6)"

text \<open>
  \<open>ParseIP\<close>: the first of \<open>.\<close>, \<open>:\<close> and \<open>%\<close> selects the form. A zone (a \<open>%\<close>) is an error
  when empty and makes \<open>ParseIP\<close> refuse the address otherwise. An IPv4 address is returned in
  its 16-byte form (\<open>As16\<close>).
\<close>

definition ParseIP :: "string \<Rightarrow> go_IP" where
  "ParseIP s =
     (case List.find (\<lambda>c. c = CHR ''.'' \<or> c = CHR '':'' \<or> c = CHR ''%'') s of
        None \<Rightarrow> []
      | Some c \<Rightarrow>
          if c = CHR ''.'' then
            (case parseIPv4 s of None \<Rightarrow> [] | Some b \<Rightarrow> v4_in_v6_prefix @ b)
          else if c = CHR ''%'' \<or> CHR ''%'' \<in> set s then []
          else (case parseIPv6 s of None \<Rightarrow> [] | Some b \<Rightarrow> b))"

section \<open>net.ParseMAC\<close>

text \<open>
  \<open>xtoi2(s, e)\<close>: two hexadecimal digits, then (when the text goes on) the separator \<open>e\<close>;
  \<open>None\<close> is the separator of the calls on a text cut to two bytes.
\<close>

definition xtoi2 :: "string \<Rightarrow> char option \<Rightarrow> nat option" where
  "xtoi2 s e =
     (case s of
        c # d # rest \<Rightarrow>
          if rest \<noteq> [] \<and> Some (hd rest) \<noteq> e then None
          else (case (hex_val c, hex_val d) of
                  (Some h, Some l) \<Rightarrow> Some (16 * h + l)
                | _ \<Rightarrow> None)
      | _ \<Rightarrow> None)"

fun all_some :: "'a option list \<Rightarrow> 'a list option" where
  "all_some [] = Some []"
| "all_some (None # _) = None"
| "all_some (Some x # xs) = map_option ((#) x) (all_some xs)"

definition net_ParseMAC :: "string \<Rightarrow> u8 list option" where
  "net_ParseMAC s =
     (if length s < 14 then None
      else if s ! 2 = CHR '':'' \<or> s ! 2 = CHR ''-'' then
        (let n = (length s + 1) div 3
         in if (length s + 1) mod 3 \<noteq> 0 \<or> (n \<noteq> 6 \<and> n \<noteq> 8 \<and> n \<noteq> 20) then None
            else map_option (map of_nat)
              (all_some (map (\<lambda>i. xtoi2 (drop (3 * i) s) (Some (s ! 2))) [0..<n])))
      else if s ! 4 = CHR ''.'' then
        (let n = 2 * (length s + 1) div 5
         in if (length s + 1) mod 5 \<noteq> 0 \<or> (n \<noteq> 6 \<and> n \<noteq> 8 \<and> n \<noteq> 20) then None
            else map_option (map of_nat)
              (all_some (concat (map
                (\<lambda>i. [xtoi2 (take 2 (drop (5 * i) s)) None,
                      xtoi2 (drop (5 * i + 2) s) (Some (s ! 4))]) [0..<n div 2]))))
      else None)"

section \<open>Round trips\<close>

lemma To4_4 [simp]: "To4 [a, b, c, d] = [a, b, c, d]"
  by (simp add: To4_def)

lemma length_v4_prefix [simp]: "length v4_in_v6_prefix = 12"
  by (simp add: v4_in_v6_prefix_def)

lemma To4_mapped [simp]: "length b = 4 \<Longrightarrow> To4 (v4_in_v6_prefix @ b) = b"
  by (simp add: To4_def)

lemma To4_length: "To4 ip = [] \<or> length (To4 ip) = 4"
  by (auto simp: To4_def)

lemma To4_cases: "To4 ip \<noteq> [] \<Longrightarrow> \<exists>a b c d. To4 ip = [a, b, c, d]"
  using To4_length [of ip] by (auto simp: length_eq_4)

text \<open>An octet printed by \<open>%d\<close> is read back by the loop, and followed by what comes next.\<close>

lemma fmt_d_digits:
  "n < 256 \<Longrightarrow> fmt_d n =
     (if n < 10 then [digit n]
      else if n < 100 then [digit (n div 10), digit (n mod 10)]
      else [digit (n div 100), digit (n div 10 mod 10), digit (n mod 10)])"
  by (auto simp: fmt_d.simps [of n] fmt_d.simps [of "n div 10"] fmt_d.simps [of "n div 100"]
      div_mult2_eq [symmetric])

lemma digit_not_dot [simp]: "d < 10 \<Longrightarrow> digit d \<noteq> CHR ''.''"
proof
  assume "d < 10" and "digit d = CHR ''.''"
  then have "code (digit d) = code (CHR ''.'')" by simp
  with \<open>d < 10\<close> show False by (simp add: code_def [of "CHR ''.''"])
qed

lemma digit_not_sep [simp]:
  assumes "d < 10"
  shows "digit d \<noteq> CHR '':''" and "digit d \<noteq> CHR ''%''"
proof -
  have "code (digit d) \<noteq> code (CHR '':'')" "code (digit d) \<noteq> code (CHR ''%'')"
    using assms by (simp_all add: code_def [of "CHR '':''"] code_def [of "CHR ''%''"])
  then show "digit d \<noteq> CHR '':''" and "digit d \<noteq> CHR ''%''" by auto
qed

lemma parse_v4_digit [simp]:
  "d < 10 \<Longrightarrow> parse_v4 prev val k fs (digit d # cs) =
     (if k = 1 \<and> val = 0 \<or> 255 < val * 10 + d then None
      else parse_v4 (Some (digit d)) (val * 10 + d) (k + 1) fs cs)"
  by simp

declare parse_v4.simps(2) [simp del]

lemma parse_v4_octet:
  assumes "n < 256"
  obtains p k where "p \<noteq> CHR ''.''"
    and "\<And>prev fs rest. parse_v4 prev 0 0 fs (fmt_d n @ rest) = parse_v4 (Some p) n k fs rest"
proof (rule that [of "digit (n mod 10)" "length (fmt_d n)"])
  show "digit (n mod 10) \<noteq> CHR ''.''" by simp
next
  fix prev fs rest
  have two: "n div 10 * 10 + n mod 10 = n" by simp
  have three: "(n div 100 * 10 + n div 10 mod 10) * 10 + n mod 10 = n"
    "n div 100 * 10 + n div 10 mod 10 = n div 10"
    by (simp_all add: div_mult2_eq [of n 10 10, simplified])
  have small: "n div 100 < 10" "n < 100 \<Longrightarrow> n div 10 < 10" "\<not> n < 10 \<Longrightarrow> 0 < n div 10"
    "\<not> n < 100 \<Longrightarrow> 0 < n div 100" "n div 10 \<le> 255"
    using assms by auto
  show "parse_v4 prev 0 0 fs (fmt_d n @ rest) =
      parse_v4 (Some (digit (n mod 10))) n (length (fmt_d n)) fs rest"
    using assms small
    by (auto simp: fmt_d_digits two three)
qed

lemma parse_v4_dot [simp]:
  "p \<noteq> CHR ''.'' \<Longrightarrow> cs \<noteq> [] \<Longrightarrow> parse_v4 (Some p) val k fs (CHR ''.'' # cs) =
     (if length fs = 3 then None else parse_v4 (Some (CHR ''.'')) 0 0 (fs @ [val]) cs)"
  by (simp add: parse_v4.simps(2) code_def)

lemma parse_v4_dotted:
  assumes "a < 256" "b < 256" "c < 256" "d < 256"
  shows "parse_v4 None 0 0 []
      (fmt_d a @ ''.'' @ fmt_d b @ ''.'' @ fmt_d c @ ''.'' @ fmt_d d) = Some [a, b, c, d]"
proof -
  obtain pa ka where a: "pa \<noteq> CHR ''.''" "\<And>prev fs rest.
      parse_v4 prev 0 0 fs (fmt_d a @ rest) = parse_v4 (Some pa) a ka fs rest"
    using parse_v4_octet [OF assms(1)] by metis
  obtain pb kb where b: "pb \<noteq> CHR ''.''" "\<And>prev fs rest.
      parse_v4 prev 0 0 fs (fmt_d b @ rest) = parse_v4 (Some pb) b kb fs rest"
    using parse_v4_octet [OF assms(2)] by metis
  obtain pc kc where c: "pc \<noteq> CHR ''.''" "\<And>prev fs rest.
      parse_v4 prev 0 0 fs (fmt_d c @ rest) = parse_v4 (Some pc) c kc fs rest"
    using parse_v4_octet [OF assms(3)] by metis
  obtain pd kd where d: "\<And>prev fs rest.
      parse_v4 prev 0 0 fs (fmt_d d @ rest) = parse_v4 (Some pd) d kd fs rest"
    using parse_v4_octet [OF assms(4)] by metis
  show ?thesis
    using a(1) b(1) c(1) d [of _ _ "[]"] by (simp add: a(2) b(2) c(2))
qed

lemma find_skip: "\<forall>x \<in> set xs. \<not> P x \<Longrightarrow> List.find P (xs @ ys) = List.find P ys"
  by (induction xs) auto

lemma set_fmt_d: "set (fmt_d n) \<subseteq> digit ` {..<10}"
proof (induction n rule: fmt_d.induct)
  case (1 n)
  then show ?case by (subst fmt_d.simps) auto
qed

lemma fmt_d_no_sep: "x \<in> set (fmt_d n) \<Longrightarrow> x \<noteq> CHR ''.'' \<and> x \<noteq> CHR '':'' \<and> x \<noteq> CHR ''%''"
proof -
  assume "x \<in> set (fmt_d n)"
  then obtain d where "x = digit d" "d < 10" using set_fmt_d [of n] by blast
  then show ?thesis by simp
qed

lemma ParseIP_dotted: "ParseIP (dotted a b c d) = v4_in_v6_prefix @ [a, b, c, d]"
proof -
  have "\<forall>x \<in> set (fmt_d (unat a)). \<not> (x = CHR ''.'' \<or> x = CHR '':'' \<or> x = CHR ''%'')"
    using fmt_d_no_sep by blast
  then have f: "List.find (\<lambda>c. c = CHR ''.'' \<or> c = CHR '':'' \<or> c = CHR ''%'') (dotted a b c d)
      = Some (CHR ''.'')"
    unfolding dotted_def by (subst find_skip) auto
  have "parseIPv4 (dotted a b c d) = Some [a, b, c, d]"
    by (simp add: parseIPv4_def dotted_def
        parse_v4_dotted [of "unat a" "unat b" "unat c" "unat d", simplified])
  then show ?thesis by (simp add: ParseIP_def f)
qed

lemma token_dotted: "token (dotted a b c d)"
  unfolding dotted_def
  by (intro token_append2)
    (use token_fmt_d in \<open>auto simp: token_def\<close>)

text \<open>A parsed address is nil or has sixteen bytes.\<close>

lemma parse_v4_length: "parse_v4 p v k fs s = Some r \<Longrightarrow> length fs \<le> 3 \<Longrightarrow> length r = 4"
proof (induction p v k fs s rule: parse_v4.induct)
  case (1 p v k fs)
  then show ?case by (auto split: if_splits)
next
  case (2 p v k fs c cs)
  then show ?case by (auto simp: parse_v4.simps(2) split: if_splits)
qed

end
