(* ===== verification/RuleTypes.thy ===== *)
theory RuleTypes
  imports GoNet
begin

text \<open>
  \<open>control/maps/types.go\<close> and \<open>control/maps/validate.go\<close>: the forwarding rule shared by the two
  planes, its action codes, the conversions between text, addresses and map keys, and the check
  every writer of a rule applies. The rule is one record for both planes; \<open>struct_offsets\<close> computes the
  layout of the Go struct and of \<open>struct fwd_rule\<close> (\<open>include/gtp_router.h\<close>).
\<close>

section \<open>Errors of the control plane\<close>

text \<open>
  One constructor per \<open>fmt.Errorf\<close> of the package, with the values it formats; \<open>Wrapped\<close> is
  \<open>fmt.Errorf("prefix: %w", err)\<close>. \<open>External\<close> carries an error returned by a system call or a
  library that is not part of the repository.
\<close>

datatype go_error =
    UnknownAction string
  | OnlyIPv4 go_IP
  | NotIPv4 go_IP
  | InvalidMAC string
  | BadMACLength nat
  | QuarantineSecondsRequired
  | OutIfaceRequired u32
  | DMacRequired u32
  | SMacRequired u32
  | TeidOutRequired
  | DstIPRequired
  | SrcIPRequired
  | EmptyValue
  | InvalidValue string
  | NumError num_error
  | InvalidFlag string string
  | Required string
  | Message string
  | External string
  | KeyNotExist
  | Wrapped string go_error

section \<open>Action codes\<close>

definition ActionDrop :: u32 where "ActionDrop = 0"
definition ActionDecapFwd :: u32 where "ActionDecapFwd = 1"
definition ActionEncapFwd :: u32 where "ActionEncapFwd = 2"
definition ActionRedirect :: u32 where "ActionRedirect = 3"

lemmas action_codes [go_eval] =
  ActionDrop_def ActionDecapFwd_def ActionEncapFwd_def ActionRedirect_def

definition ActionString :: "u32 \<Rightarrow> string" where
  "ActionString a =
     (if a = ActionDrop then ''DROP''
      else if a = ActionDecapFwd then ''DECAP_FWD''
      else if a = ActionEncapFwd then ''ENCAP_FWD''
      else if a = ActionRedirect then ''REDIRECT''
      else ''UNKNOWN('' @ fmt_d (unat a) @ '')'')"

definition ParseAction :: "string \<Rightarrow> go_error + u32" where
  "ParseAction s =
     (if s = ''drop'' then Inr ActionDrop
      else if s = ''decap'' \<or> s = ''decap_fwd'' then Inr ActionDecapFwd
      else if s = ''encap'' \<or> s = ''encap_fwd'' then Inr ActionEncapFwd
      else if s = ''redirect'' then Inr ActionRedirect
      else Inl (UnknownAction s))"

section \<open>The forwarding rule\<close>

type_synonym mac = "u8 \<times> u8 \<times> u8 \<times> u8 \<times> u8 \<times> u8"

definition zero_mac :: mac where
  "zero_mac = (0, 0, 0, 0, 0, 0)"

record fwd_rule =
  Action :: u32
  OutIfindex :: u32
  DMac :: mac
  SMac :: mac
  TeidOut :: u32
  DstIP :: u32
  SrcIP :: u32
  DstPort :: u16
  Pad :: "u8 \<times> u8"
  NatIP :: u32
  PktCount :: u64
  ByteCount :: u64
  RatePPS :: u32
  WindowCount :: u32
  WindowStartNs :: u64
  RateDropCount :: u64
  ViolationStreak :: u32
  QuarantineThreshold :: u32
  QuarantineSeconds :: u32
  WindowViolated :: u32
  QuarantineUntilNs :: u64

text \<open>The zero value of the struct, from which every composite literal starts.\<close>

definition zero_rule :: fwd_rule where
  "zero_rule =
     \<lparr>Action = 0, OutIfindex = 0, DMac = zero_mac, SMac = zero_mac, TeidOut = 0, DstIP = 0,
      SrcIP = 0, DstPort = 0, Pad = (0, 0), NatIP = 0, PktCount = 0, ByteCount = 0,
      RatePPS = 0, WindowCount = 0, WindowStartNs = 0, RateDropCount = 0, ViolationStreak = 0,
      QuarantineThreshold = 0, QuarantineSeconds = 0, WindowViolated = 0,
      QuarantineUntilNs = 0\<rparr>"

section \<open>Conversions\<close>

definition IPToUint32 :: "go_IP \<Rightarrow> go_error + u32" where
  "IPToUint32 ip = (case To4 ip of [a, b, c, d] \<Rightarrow> Inr (be32 a b c d) | _ \<Rightarrow> Inl (OnlyIPv4 ip))"

definition Uint32ToIP :: "u32 \<Rightarrow> go_IP" where
  "Uint32ToIP n = put_be32 n"

text \<open>\<open>netip.Addr\<close>: the zero value, an IPv4 address, or an IPv6 address with its zone.\<close>

datatype netip_addr = NoAddr | Addr4 u8 u8 u8 u8 | Addr6 "u8 list" string

fun AddrToUint32 :: "netip_addr \<Rightarrow> go_error + u32" where
  "AddrToUint32 (Addr4 a b c d) = Inr (be32 a b c d)"
| "AddrToUint32 (Addr6 ip zone) = Inl (OnlyIPv4 ip)"
| "AddrToUint32 NoAddr = Inl (OnlyIPv4 [])"

definition ParseMAC :: "string \<Rightarrow> go_error + mac" where
  "ParseMAC s =
     (case net_ParseMAC s of
        None \<Rightarrow> Inl (InvalidMAC s)
      | Some hw \<Rightarrow>
          (case hw of
             [a, b, c, d, e, f] \<Rightarrow> Inr (a, b, c, d, e, f)
           | _ \<Rightarrow> Inl (BadMACLength (length hw))))"

fun MACString :: "mac \<Rightarrow> string" where
  "MACString (a, b, c, d, e, f) =
     fmt_02x a @ '':'' @ fmt_02x b @ '':'' @ fmt_02x c @ '':'' @ fmt_02x d @ '':'' @
     fmt_02x e @ '':'' @ fmt_02x f"

definition FormatBytes :: "u64 \<Rightarrow> string" where
  "FormatBytes b =
     (if 2 ^ 30 \<le> b then fmt_scaled b 30 @ ''GB''
      else if 2 ^ 20 \<le> b then fmt_scaled b 20 @ ''MB''
      else if 2 ^ 10 \<le> b then fmt_scaled b 10 @ ''KB''
      else fmt_d (unat b) @ ''B'')"

section \<open>ValidateRule\<close>

definition ValidateRule :: "fwd_rule \<Rightarrow> go_error + unit" where
  "ValidateRule rule =
     (if QuarantineThreshold rule \<noteq> 0 \<and> QuarantineSeconds rule = 0
        then Inl QuarantineSecondsRequired
      else if Action rule = ActionDrop then Inr ()
      else if OutIfindex rule = 0 then Inl (OutIfaceRequired (Action rule))
      else if DMac rule = zero_mac then Inl (DMacRequired (Action rule))
      else if SMac rule = zero_mac then Inl (SMacRequired (Action rule))
      else if Action rule = ActionEncapFwd then
        if TeidOut rule = 0 then Inl TeidOutRequired
        else if DstIP rule = 0 then Inl DstIPRequired
        else if SrcIP rule = 0 then Inl SrcIPRequired
        else Inr ()
      else Inr ())"

text \<open>What a written rule promises the data plane, as one predicate.\<close>

definition deliverable :: "fwd_rule \<Rightarrow> bool" where
  "deliverable rule \<longleftrightarrow> OutIfindex rule \<noteq> 0 \<and> DMac rule \<noteq> zero_mac \<and> SMac rule \<noteq> zero_mac"

definition rule_ok :: "fwd_rule \<Rightarrow> bool" where
  "rule_ok rule \<longleftrightarrow>
     (QuarantineThreshold rule = 0 \<or> QuarantineSeconds rule \<noteq> 0)
     \<and> (Action rule \<noteq> ActionDrop \<longrightarrow> deliverable rule)
     \<and> (Action rule = ActionEncapFwd \<longrightarrow>
          TeidOut rule \<noteq> 0 \<and> DstIP rule \<noteq> 0 \<and> SrcIP rule \<noteq> 0)"

section \<open>Struct layout\<close>

text \<open>
  A field is a name, a size and an alignment. \<open>struct_offsets\<close> places each field at the next
  multiple of its alignment, the rule of the C ABI and of the Go compiler alike; \<open>struct_size\<close>
  rounds the end up to the alignment of the struct.
\<close>

type_synonym field = "string \<times> nat \<times> nat"

definition align_up :: "nat \<Rightarrow> nat \<Rightarrow> nat" where
  "align_up a off = (off + a - 1) div a * a"

fun struct_offsets :: "nat \<Rightarrow> field list \<Rightarrow> (nat \<times> nat) list" where
  "struct_offsets off [] = []"
| "struct_offsets off ((n, sz, al) # fs) =
     (align_up al off, sz) # struct_offsets (align_up al off + sz) fs"

fun struct_end :: "nat \<Rightarrow> field list \<Rightarrow> nat" where
  "struct_end off [] = off"
| "struct_end off ((n, sz, al) # fs) = struct_end (align_up al off + sz) fs"

definition struct_size :: "field list \<Rightarrow> nat" where
  "struct_size fs = align_up (fold max (map (snd \<circ> snd) fs) 1) (struct_end 0 fs)"

text \<open>\<open>a64\<close> is the alignment of a 64-bit integer: 8, or 4 on 32-bit targets.\<close>

definition go_FwdRule_fields :: "nat \<Rightarrow> field list" where
  "go_FwdRule_fields a64 =
     [(''Action'', 4, 4), (''OutIfindex'', 4, 4), (''DMac'', 6, 1), (''SMac'', 6, 1),
      (''TeidOut'', 4, 4), (''DstIP'', 4, 4), (''SrcIP'', 4, 4), (''DstPort'', 2, 2),
      (''Pad'', 2, 1), (''NatIP'', 4, 4), (''PktCount'', 8, a64), (''ByteCount'', 8, a64),
      (''RatePPS'', 4, 4), (''WindowCount'', 4, 4), (''WindowStartNs'', 8, a64),
      (''RateDropCount'', 8, a64), (''ViolationStreak'', 4, 4),
      (''QuarantineThreshold'', 4, 4), (''QuarantineSeconds'', 4, 4),
      (''WindowViolated'', 4, 4), (''QuarantineUntilNs'', 8, a64)]"

definition c_fwd_rule_fields :: "field list" where
  "c_fwd_rule_fields =
     [(''action'', 4, 4), (''out_ifindex'', 4, 4), (''dmac'', 6, 1), (''smac'', 6, 1),
      (''teid_out'', 4, 4), (''dst_ip'', 4, 4), (''src_ip'', 4, 4), (''dst_port'', 2, 2),
      (''_pad'', 2, 1), (''nat_ip'', 4, 4), (''pkt_count'', 8, 8), (''byte_count'', 8, 8),
      (''rate_pps'', 4, 4), (''window_count'', 4, 4), (''window_start_ns'', 8, 8),
      (''rate_drop_count'', 8, 8), (''violation_streak'', 4, 4),
      (''quarantine_threshold'', 4, 4), (''quarantine_seconds'', 4, 4),
      (''window_violated'', 4, 4), (''quarantine_until_ns'', 8, 8)]"

text \<open>The struct that the binding generator derives from the C type.\<close>

definition GtpXdpFwdRule_fields :: "nat \<Rightarrow> field list" where
  "GtpXdpFwdRule_fields a64 =
     [(''Action'', 4, 4), (''OutIfindex'', 4, 4), (''Dmac'', 6, 1), (''Smac'', 6, 1),
      (''TeidOut'', 4, 4), (''DstIp'', 4, 4), (''SrcIp'', 4, 4), (''DstPort'', 2, 2),
      (''Pad'', 2, 1), (''NatIp'', 4, 4), (''PktCount'', 8, a64), (''ByteCount'', 8, a64),
      (''RatePps'', 4, 4), (''WindowCount'', 4, 4), (''WindowStartNs'', 8, a64),
      (''RateDropCount'', 8, a64), (''ViolationStreak'', 4, 4),
      (''QuarantineThreshold'', 4, 4), (''QuarantineSeconds'', 4, 4),
      (''WindowViolated'', 4, 4), (''QuarantineUntilNs'', 8, a64)]"

text \<open>An element of \<open>stats_map\<close> for the XDP program, for the reader of the counters and for the bindings.\<close>

definition c_global_stats_fields :: "field list" where
  "c_global_stats_fields = [(''packets'', 8, 8), (''bytes'', 8, 8)]"

definition perCPUStat_fields :: "nat \<Rightarrow> field list" where
  "perCPUStat_fields a64 = [(''Packets'', 8, a64), (''Bytes'', 8, a64)]"

definition GtpXdpGlobalStats_fields :: "nat \<Rightarrow> field list" where
  "GtpXdpGlobalStats_fields a64 = [(''Packets'', 8, a64), (''Bytes'', 8, a64)]"

section \<open>Lemmas\<close>

lemma action_code_cases:
  "ActionDrop \<noteq> ActionDecapFwd" "ActionDrop \<noteq> ActionEncapFwd" "ActionDrop \<noteq> ActionRedirect"
  "ActionDecapFwd \<noteq> ActionEncapFwd" "ActionDecapFwd \<noteq> ActionRedirect"
  "ActionEncapFwd \<noteq> ActionRedirect"
  by (simp_all add: action_codes)

declare action_code_cases [simp] action_code_cases [symmetric, simp]

lemma ParseAction_range:
  "ParseAction s = Inr a \<Longrightarrow> a \<in> {ActionDrop, ActionDecapFwd, ActionEncapFwd, ActionRedirect}"
  by (auto simp: ParseAction_def split: if_splits)

lemma IPToUint32_4 [simp]: "IPToUint32 [a, b, c, d] = Inr (be32 a b c d)"
  by (simp add: IPToUint32_def)

lemma IPToUint32_mapped [simp]: "IPToUint32 (v4_in_v6_prefix @ [a, b, c, d]) = Inr (be32 a b c d)"
  by (simp add: IPToUint32_def)

lemma IPToUint32_Inr_iff: "(\<exists>n. IPToUint32 ip = Inr n) \<longleftrightarrow> To4 ip \<noteq> []"
proof (cases "To4 ip = []")
  case True
  then show ?thesis by (simp add: IPToUint32_def)
next
  case False
  then obtain a b c d where "To4 ip = [a, b, c, d]" using To4_cases by blast
  then show ?thesis by (simp add: IPToUint32_def)
qed

lemma IPToUint32_Uint32ToIP [simp]: "IPToUint32 (Uint32ToIP n) = Inr n"
  by (simp add: Uint32ToIP_def put_be32_def wire)

lemma Uint32ToIP_IPToUint32: "IPToUint32 ip = Inr n \<Longrightarrow> Uint32ToIP n = To4 ip"
  using To4_length [of ip]
  by (auto simp: IPToUint32_def Uint32ToIP_def wire length_eq_4 split: list.splits)

lemma IP4_String_Uint32ToIP:
  "IP4_String (Uint32ToIP n) =
     dotted (ucast (drop_bit 24 n)) (ucast (drop_bit 16 n)) (ucast (drop_bit 8 n)) (ucast n)"
  by (simp add: IP4_String_def Uint32ToIP_def put_be32_def)

lemma ParseIP_IP4_String:
  "IPToUint32 (ParseIP (IP4_String (Uint32ToIP n))) = Inr n"
  by (simp add: IP4_String_Uint32ToIP ParseIP_dotted wire)

lemma token_IP4_String: "token (IP4_String (Uint32ToIP n))"
  by (simp add: IP4_String_Uint32ToIP token_dotted)

text \<open>A MAC address printed by \<open>MACString\<close> is read back.\<close>

lemma hex_val_lower [simp]: "d < 16 \<Longrightarrow> hex_val (hex_lower d) = Some d"
  by (simp add: hex_val_def)

lemma high_nibble_less [simp]: "unat (drop_bit 4 (b :: u8)) < 16"
  using unat_u8_less [of b] unfolding drop_nat by (simp del: unat_u8_less)

lemma nibbles_byte: "16 * unat (drop_bit 4 (b :: u8)) + unat (b AND 15) = unat b"
proof -
  have "unat (b AND 15) = unat b mod 16" by (rule and_15_nat) simp
  then show ?thesis unfolding drop_nat by simp
qed

lemma xtoi2_fmt_02x:
  "xtoi2 (fmt_02x b) e = Some (unat b)"
  "xtoi2 (fmt_02x b @ c # s) (Some c) = Some (unat b)"
  by (simp_all add: xtoi2_def fmt_02x_def nibbles_byte)

lemma token_fmt_02x: "token (fmt_02x b)"
  by (simp add: fmt_02x_def)

lemma length_fmt_02x [simp]: "length (fmt_02x b) = 2"
  by (simp add: fmt_02x_def)

lemma token_MACString: "token (MACString m)"
  by (cases m) (simp add: fmt_02x_def)

lemma ParseMAC_MACString: "ParseMAC (MACString m) = Inr m"
proof -
  obtain a b c d e f where m: "m = (a, b, c, d, e, f)" by (cases m)
  have u: "[0..<6] = [0, 1, 2, 3, 4, 5 :: nat]" by (simp add: upt_rec)
  have "net_ParseMAC (MACString m) = Some [a, b, c, d, e, f]"
    by (simp add: m net_ParseMAC_def Let_def u nth_append xtoi2_fmt_02x)
  then show ?thesis by (simp add: ParseMAC_def m)
qed

section \<open>ValidateRule and FormatBytes\<close>

lemma ValidateRule_iff: "ValidateRule rule = Inr () \<longleftrightarrow> rule_ok rule"
  by (auto simp: ValidateRule_def rule_ok_def deliverable_def)

lemma token_FormatBytes: "token (FormatBytes b)"
proof -
  have "list_all visible ''GB''" "list_all visible ''MB''" "list_all visible ''KB''"
    "list_all visible ''B''"
    by (simp_all add: visible_def code_def)
  then show ?thesis
    by (auto simp: FormatBytes_def fmt_scaled_def intro!: token_append token_fmt_hundredths
        token_fmt_d)
qed

lemma token_ActionString: "token (ActionString a)"
proof -
  have "list_all visible '')''" "list_all visible ''UNKNOWN(''"
    by (simp_all add: visible_def code_def)
  moreover have "token (''UNKNOWN('' @ fmt_d n @ '')'')" for n
    by (intro token_append2 token_append token_fmt_d calculation)
  ultimately show ?thesis
    by (auto simp: ActionString_def visible_def code_def)
qed

lemma c_fwd_rule_layout:
  "map fst (struct_offsets 0 c_fwd_rule_fields) =
     [0, 4, 8, 14, 20, 24, 28, 32, 34, 36, 40, 48, 56, 60, 64, 72, 80, 84, 88, 92, 96]"
  "struct_size c_fwd_rule_fields = 104"
  by code_simp+

lemma go_FwdRule_layout_8:
  "struct_offsets 0 (go_FwdRule_fields 8) = struct_offsets 0 c_fwd_rule_fields"
  "struct_size (go_FwdRule_fields 8) = 104"
  by code_simp+

lemma go_FwdRule_layout_4:
  "struct_offsets 0 (go_FwdRule_fields 4) = struct_offsets 0 c_fwd_rule_fields"
  "struct_size (go_FwdRule_fields 4) = 104"
  by code_simp+

lemma GtpXdpFwdRule_layout:
  "struct_offsets 0 (GtpXdpFwdRule_fields 8) = struct_offsets 0 c_fwd_rule_fields"
  "struct_offsets 0 (GtpXdpFwdRule_fields 4) = struct_offsets 0 c_fwd_rule_fields"
  "map struct_size [GtpXdpFwdRule_fields 8, GtpXdpFwdRule_fields 4] = [104, 104]"
  by code_simp+

lemma stats_layouts:
  "map (struct_offsets 0) [perCPUStat_fields 8, perCPUStat_fields 4, GtpXdpGlobalStats_fields 8,
     GtpXdpGlobalStats_fields 4] = replicate 4 (struct_offsets 0 c_global_stats_fields)"
  "map struct_size [perCPUStat_fields 8, perCPUStat_fields 4, GtpXdpGlobalStats_fields 8,
     GtpXdpGlobalStats_fields 4] = replicate 4 (struct_size c_global_stats_fields)"
  by code_simp+

text \<open>The control plane, the generated bindings and the XDP program agree on the bytes of a rule and of a
  counter: on 64-bit and on 32-bit targets the Go structs have every field at the offset and of the
  size of the C struct, a rule takes 104 bytes, and no byte of it is implicit padding.\<close>

theorem rule_layouts_agree:
  "struct_offsets 0 (go_FwdRule_fields 8) = struct_offsets 0 c_fwd_rule_fields
    \<and> struct_offsets 0 (go_FwdRule_fields 4) = struct_offsets 0 c_fwd_rule_fields
    \<and> struct_size (go_FwdRule_fields 8) = struct_size c_fwd_rule_fields
    \<and> struct_size (go_FwdRule_fields 4) = struct_size c_fwd_rule_fields
    \<and> map (struct_offsets 0) [GtpXdpFwdRule_fields 8, GtpXdpFwdRule_fields 4] =
        replicate 2 (struct_offsets 0 c_fwd_rule_fields)
    \<and> map struct_size [GtpXdpFwdRule_fields 8, GtpXdpFwdRule_fields 4] = replicate 2 (struct_size c_fwd_rule_fields)
    \<and> struct_size c_fwd_rule_fields = sum_list (map (fst \<circ> snd) c_fwd_rule_fields)"
proof -
  have "sum_list (map (fst \<circ> snd) c_fwd_rule_fields) = 104" by code_simp
  then show ?thesis
    by (simp add: c_fwd_rule_layout(2) go_FwdRule_layout_8 go_FwdRule_layout_4 GtpXdpFwdRule_layout
        GtpXdpFwdRule_layout(3) [simplified] numeral_2_eq_2)
qed

end
