(* ===== verification/Policy.thy ===== *)
theory Policy
  imports RuleTypes
begin

text \<open>
  \<open>enforce_policy\<close> of \<open>ebpf/gtp_xdp.c\<close>: the per-rule rate cap and the quarantine, decided on every
  packet from the rule's own fields and the monotonic clock. The clock and the window start are
  unsigned 64-bit, the counters unsigned 32-bit, with C's wrap-around. \<open>police\<close> runs the function
  over the arrival times of the packets that hit one rule. The fields keep the names of the Go
  mirror of the struct (\<open>rate_pps\<close> is \<open>RatePPS\<close>, and so on).
\<close>

section \<open>enforce_policy\<close>

definition second :: u64 where "second = 1000000000"

text \<open>Cooldown elapsed: the deadline and the streak are cleared.\<close>

definition self_release :: "fwd_rule \<Rightarrow> fwd_rule" where
  "self_release rule =
     (if QuarantineUntilNs rule \<noteq> 0
      then rule\<lparr>QuarantineUntilNs := 0, ViolationStreak := 0\<rparr>
      else rule)"

text \<open>The window that just ended is scored.\<close>

definition score_window :: "u64 \<Rightarrow> fwd_rule \<Rightarrow> fwd_rule" where
  "score_window now rule =
     (if WindowViolated rule \<noteq> 0 then
        let rule = rule\<lparr>ViolationStreak := ViolationStreak rule + 1\<rparr>
        in if QuarantineThreshold rule \<noteq> 0 \<and> QuarantineThreshold rule \<le> ViolationStreak rule
           then rule\<lparr>QuarantineUntilNs := now + ucast (QuarantineSeconds rule) * second,
                     ViolationStreak := 0\<rparr>
           else rule
      else rule\<lparr>ViolationStreak := 0\<rparr>)"

definition roll_window :: "u64 \<Rightarrow> fwd_rule \<Rightarrow> fwd_rule" where
  "roll_window now rule =
     (if second \<le> now - WindowStartNs rule
      then (score_window now rule)\<lparr>WindowStartNs := now, WindowCount := 0, WindowViolated := 0\<rparr>
      else rule)"

text \<open>One slot of the current window: the packet takes it, or is dropped and marks the window.\<close>

definition take_slot :: "fwd_rule \<Rightarrow> bool \<times> fwd_rule" where
  "take_slot rule =
     (if RatePPS rule \<le> WindowCount rule
      then (True, rule\<lparr>WindowViolated := 1, RateDropCount := RateDropCount rule + 1\<rparr>)
      else (False, rule\<lparr>WindowCount := WindowCount rule + 1\<rparr>))"

definition held :: "u64 \<Rightarrow> fwd_rule \<Rightarrow> bool" where
  "held now rule \<longleftrightarrow> QuarantineUntilNs rule \<noteq> 0 \<and> now < QuarantineUntilNs rule"

text \<open>The result is \<open>True\<close> for "drop this packet" (the C function's 1).\<close>

definition enforce_policy :: "u64 \<Rightarrow> fwd_rule \<Rightarrow> bool \<times> fwd_rule" where
  "enforce_policy now rule =
     (if held now rule then (True, rule)
      else let rule = self_release rule
           in if RatePPS rule = 0 then (False, rule)
              else take_slot (roll_window now rule))"

text \<open>The packets of one rule, by arrival time: their verdicts and the rule after them.\<close>

fun police :: "u64 list \<Rightarrow> fwd_rule \<Rightarrow> bool list \<times> fwd_rule" where
  "police [] rule = ([], rule)"
| "police (now # ts) rule =
     (case enforce_policy now rule of (d, rule1) \<Rightarrow>
        case police ts rule1 of (ds, rule2) \<Rightarrow> (d # ds, rule2))"

definition admitted :: "u64 list \<Rightarrow> fwd_rule \<Rightarrow> nat" where
  "admitted ts rule = length (filter Not (fst (police ts rule)))"

definition dropped :: "u64 list \<Rightarrow> fwd_rule \<Rightarrow> nat" where
  "dropped ts rule = length (filter id (fst (police ts rule)))"

lemma admitted_simps [simp]:
  "admitted [] rule = 0"
  "enforce_policy now rule = (d, rule1) \<Longrightarrow>
     admitted (now # ts) rule = (if d then 0 else 1) + admitted ts rule1"
  by (auto simp: admitted_def split: prod.splits)

lemma dropped_simps [simp]:
  "dropped [] rule = 0"
  "enforce_policy now rule = (d, rule1) \<Longrightarrow>
     dropped (now # ts) rule = (if d then 1 else 0) + dropped ts rule1"
  by (auto simp: dropped_def split: prod.splits)

lemma police_append:
  "police (ts @ us) rule =
     (case police ts rule of (ds, rule1) \<Rightarrow>
        case police us rule1 of (es, rule2) \<Rightarrow> (ds @ es, rule2))"
  by (induction ts arbitrary: rule) (auto split: prod.splits)

lemma police_length: "length (fst (police ts rule)) = length ts"
  by (induction ts arbitrary: rule) (auto split: prod.splits, metis fst_conv)

section \<open>The branches\<close>

lemma second_unat [simp]: "unat second = 1000000000"
  by (simp add: second_def)

lemma elapsed_iff:
  "w \<le> now \<Longrightarrow> second \<le> now - w \<longleftrightarrow> unat w + 1000000000 \<le> unat now" for w now :: u64
  by (auto simp: word_le_nat_alt unat_sub)

lemma policy_held: "held now rule \<Longrightarrow> enforce_policy now rule = (True, rule)"
  by (simp add: enforce_policy_def)

lemma policy_unlimited:
  "\<not> held now rule \<Longrightarrow> RatePPS rule = 0 \<Longrightarrow> enforce_policy now rule = (False, self_release rule)"
  by (simp add: enforce_policy_def self_release_def)

lemma policy_limited:
  "\<not> held now rule \<Longrightarrow> RatePPS rule \<noteq> 0 \<Longrightarrow>
     enforce_policy now rule = take_slot (roll_window now (self_release rule))"
  by (simp add: enforce_policy_def self_release_def)

lemmas policy_steps = self_release_def score_window_def roll_window_def take_slot_def Let_def

text \<open>The configuration of a rule, its counters and its forwarding fields are not touched.\<close>

definition config_of :: "fwd_rule \<Rightarrow> fwd_rule" where
  "config_of rule = rule\<lparr>WindowCount := 0, WindowStartNs := 0, RateDropCount := 0,
     ViolationStreak := 0, WindowViolated := 0, QuarantineUntilNs := 0\<rparr>"

lemma enforce_policy_config: "config_of (snd (enforce_policy now rule)) = config_of rule"
  by (simp add: enforce_policy_def policy_steps config_of_def)

lemma config_ofD:
  assumes "config_of rule1 = config_of rule"
  shows "RatePPS rule1 = RatePPS rule" and "QuarantineThreshold rule1 = QuarantineThreshold rule"
    and "QuarantineSeconds rule1 = QuarantineSeconds rule"
    and "Action rule1 = Action rule" and "OutIfindex rule1 = OutIfindex rule"
    and "PktCount rule1 = PktCount rule" and "ByteCount rule1 = ByteCount rule"
  using arg_cong [OF assms, of RatePPS] arg_cong [OF assms, of QuarantineThreshold]
    arg_cong [OF assms, of QuarantineSeconds] arg_cong [OF assms, of Action]
    arg_cong [OF assms, of OutIfindex] arg_cong [OF assms, of PktCount]
    arg_cong [OF assms, of ByteCount]
  by (simp_all add: config_of_def)

lemma enforce_policy_fields:
  assumes "enforce_policy now rule = (d, rule1)"
  shows "RatePPS rule1 = RatePPS rule" and "QuarantineThreshold rule1 = QuarantineThreshold rule"
    and "QuarantineSeconds rule1 = QuarantineSeconds rule"
  using config_ofD [OF enforce_policy_config [of now rule]] assms by simp_all

section \<open>The rate cap\<close>

text \<open>What holds of every rule the data plane writes: the counter of a window is at most the cap.\<close>

definition within_cap :: "fwd_rule \<Rightarrow> bool" where
  "within_cap rule \<longleftrightarrow> RatePPS rule \<noteq> 0 \<longrightarrow> WindowCount rule \<le> RatePPS rule"

lemma suc_le_rate:
  assumes "WindowCount rule < RatePPS rule"
  shows "WindowCount rule + 1 \<le> RatePPS rule"
    and "unat (WindowCount rule + 1) = unat (WindowCount rule) + 1"
proof -
  have "unat (WindowCount rule) < unat (RatePPS rule)" using assms by (simp add: word_less_nat_alt)
  moreover have "unat (RatePPS rule) < 4294967296" by simp
  ultimately have "unat (WindowCount rule) + 1 < 4294967296" by linarith
  then show u: "unat (WindowCount rule + 1) = unat (WindowCount rule) + 1"
    by (simp add: unat_word_ariths)
  show "WindowCount rule + 1 \<le> RatePPS rule"
    using assms by (simp add: word_le_nat_alt u word_less_nat_alt)
qed

text \<open>One packet either leaves the window alone, takes a slot of it or opens a new one.\<close>

lemma policy_cases:
  assumes "enforce_policy now rule = (d, rule1)" and "RatePPS rule \<noteq> 0"
    and "WindowStartNs rule \<le> now"
  obtains
      (Held) "held now rule" "d" "rule1 = rule"
    | (Slot) "\<not> held now rule" "\<not> d" "WindowCount rule < RatePPS rule"
        "unat now < unat (WindowStartNs rule) + 1000000000"
        "rule1 = (self_release rule)\<lparr>WindowCount := WindowCount rule + 1\<rparr>"
    | (Full) "\<not> held now rule" "d" "RatePPS rule \<le> WindowCount rule"
        "unat now < unat (WindowStartNs rule) + 1000000000"
        "rule1 = (self_release rule)\<lparr>WindowViolated := 1, RateDropCount := RateDropCount rule + 1\<rparr>"
    | (Roll) "\<not> held now rule" "\<not> d" "unat (WindowStartNs rule) + 1000000000 \<le> unat now"
        "rule1 = (score_window now (self_release rule))
           \<lparr>WindowStartNs := now, WindowCount := 1, WindowViolated := 0\<rparr>"
proof (cases "held now rule")
  case True
  with assms(1) show ?thesis by (intro Held) (auto simp: policy_held)
next
  case False
  have start: "WindowStartNs (self_release rule) = WindowStartNs rule"
    "WindowCount (self_release rule) = WindowCount rule"
    "RatePPS (self_release rule) = RatePPS rule"
    "RateDropCount (self_release rule) = RateDropCount rule"
    by (simp_all add: self_release_def)
  have rate: "RatePPS (score_window now (self_release rule)) = RatePPS rule"
    by (simp add: policy_steps)
  note e = assms(1) [unfolded policy_limited [OF False assms(2)] roll_window_def start
    elapsed_iff [OF assms(3)]]
  show ?thesis
  proof (cases "unat (WindowStartNs rule) + 1000000000 \<le> unat now")
    case True
    with e assms(2) False rate show ?thesis
      by (intro Roll) (auto simp: take_slot_def)
  next
    case nr: False
    show ?thesis
    proof (cases "RatePPS rule \<le> WindowCount rule")
      case True
      with e nr False show ?thesis by (intro Full) (auto simp: take_slot_def start)
    next
      case c: False
      with e nr False show ?thesis
        by (intro Slot) (auto simp: take_slot_def start not_le)
    qed
  qed
qed

lemma self_release_simps [simp]:
  "RatePPS (self_release rule) = RatePPS rule"
  "QuarantineThreshold (self_release rule) = QuarantineThreshold rule"
  "QuarantineSeconds (self_release rule) = QuarantineSeconds rule"
  "WindowStartNs (self_release rule) = WindowStartNs rule"
  "WindowCount (self_release rule) = WindowCount rule"
  "WindowViolated (self_release rule) = WindowViolated rule"
  "RateDropCount (self_release rule) = RateDropCount rule"
  "QuarantineUntilNs (self_release rule) = 0"
  by (simp_all add: self_release_def)

lemma score_window_simps [simp]:
  "RatePPS (score_window now rule) = RatePPS rule"
  "QuarantineThreshold (score_window now rule) = QuarantineThreshold rule"
  "QuarantineSeconds (score_window now rule) = QuarantineSeconds rule"
  by (simp_all add: score_window_def Let_def)

lemma admit_bound_step:
  fixes w now T r wc a :: nat
  assumes "w + 1000000000 \<le> now" and "now \<le> T" and "wc \<le> r"
    and "a + 1 \<le> r * (1 + (T - now) div 1000000000)"
  shows "1 + a + wc \<le> r * (1 + (T - w) div 1000000000)"
proof -
  have "(T - now) div 1000000000 + 1 = (T - now + 1000000000) div 1000000000" by simp
  also have "\<dots> \<le> (T - w) div 1000000000" using assms(1,2) by (intro div_le_mono) simp
  finally have "r * (1 + (T - now) div 1000000000) + r \<le> r * (1 + (T - w) div 1000000000)"
    by (metis (no_types) add.commute mult_le_mono2 mult.right_neutral distrib_left nat_add_left_cancel_le)
  with assms(3,4) show ?thesis by linarith
qed

lemma admitted_bound:
  assumes "RatePPS rule \<noteq> 0" and "WindowCount rule \<le> RatePPS rule"
    and "sorted ts" and "\<forall>t \<in> set ts. WindowStartNs rule \<le> t \<and> t \<le> T"
    and "WindowStartNs rule \<le> T"
  shows "admitted ts rule + unat (WindowCount rule) \<le>
    unat (RatePPS rule) * (1 + (unat T - unat (WindowStartNs rule)) div 1000000000)"
  using assms
proof (induction ts arbitrary: rule)
  case Nil
  then show ?case by (auto simp: word_le_nat_alt intro: order_trans)
next
  case (Cons now ts)
  obtain d rule1 where e: "enforce_policy now rule = (d, rule1)" by fastforce
  note f = enforce_policy_fields [OF e]
  have now: "WindowStartNs rule \<le> now" "now \<le> T" and later: "\<forall>t \<in> set ts. now \<le> t \<and> t \<le> T"
    and s: "sorted ts" using Cons.prems(3,4) by auto
  have wc: "unat (WindowCount rule) \<le> unat (RatePPS rule)"
    using Cons.prems(2) by (simp add: word_le_nat_alt)
  have adm: "admitted (now # ts) rule = (if d then 0 else 1) + admitted ts rule1"
    by (simp add: e)
  have IH: "RatePPS r \<noteq> 0 \<Longrightarrow> WindowCount r \<le> RatePPS r \<Longrightarrow> WindowStartNs r \<le> now \<Longrightarrow>
      admitted ts r + unat (WindowCount r) \<le>
        unat (RatePPS r) * (1 + (unat T - unat (WindowStartNs r)) div 1000000000)" for r
    by (rule Cons.IH) (use s later now(2) in \<open>auto intro: order_trans\<close>)
  from e Cons.prems(1) now(1) show ?case
  proof (cases rule: policy_cases)
    case Held
    then show ?thesis using IH [of rule] Cons.prems(1,2) now(1) adm by simp
  next
    case Slot
    then show ?thesis
      using IH [of rule1] Cons.prems(1) now(1) adm f suc_le_rate [of rule] by simp
  next
    case Full
    then show ?thesis using IH [of rule1] Cons.prems(1,2) now(1) adm f by simp
  next
    case Roll
    have "1 \<le> RatePPS rule"
      using Cons.prems(1) by (simp add: word_le_nat_alt Suc_le_eq unat_gt_0)
    then have "admitted ts rule1 + 1 \<le>
        unat (RatePPS rule) * (1 + (unat T - unat now) div 1000000000)"
      using IH [of rule1] Roll Cons.prems(1) by simp
    from admit_bound_step [OF Roll(3) _ wc this] now(2) adm Roll(2) show ?thesis
      by (simp add: word_le_nat_alt)
  qed
qed

text \<open>Inside one window the free slots go to the first packets and the rest is dropped.\<close>

lemma police_window:
  assumes "RatePPS rule \<noteq> 0" and "QuarantineUntilNs rule = 0"
    and "WindowCount rule \<le> RatePPS rule"
    and "\<forall>t \<in> set ts. WindowStartNs rule \<le> t \<and> unat t < unat (WindowStartNs rule) + 1000000000"
    and "police ts rule = (ds, rule1)"
    and "unat (RatePPS rule) = unat (WindowCount rule) + free"
  shows "ds = replicate (min (length ts) free) False @ replicate (length ts - free) True
    \<and> QuarantineUntilNs rule1 = 0 \<and> ViolationStreak rule1 = ViolationStreak rule
    \<and> WindowStartNs rule1 = WindowStartNs rule
    \<and> unat (WindowCount rule1) = unat (WindowCount rule) + min (length ts) free
    \<and> WindowViolated rule1 = (if free < length ts then 1 else WindowViolated rule)
    \<and> RateDropCount rule1 = RateDropCount rule + of_nat (length ts - free)
    \<and> config_of rule1 = config_of rule"
  using assms
proof (induction ts arbitrary: rule ds free)
  case Nil
  then show ?case by simp
next
  case (Cons now ts)
  obtain d r1 where e: "enforce_policy now rule = (d, r1)" by fastforce
  obtain ds' where p: "police ts r1 = (ds', rule1)" and ds: "ds = d # ds'"
    using Cons.prems(5) e by (auto split: prod.splits)
  note f = enforce_policy_fields [OF e]
  have c: "config_of r1 = config_of rule" using enforce_policy_config [of now rule] e by simp
  have now: "WindowStartNs rule \<le> now" "unat now < unat (WindowStartNs rule) + 1000000000"
    and later: "\<forall>t \<in> set ts. WindowStartNs rule \<le> t
      \<and> unat t < unat (WindowStartNs rule) + 1000000000"
    using Cons.prems(4) by auto
  have rel: "self_release rule = rule" by (simp add: self_release_def Cons.prems(2))
  from e Cons.prems(1) now(1) show ?case
  proof (cases rule: policy_cases)
    case Held
    then show ?thesis using Cons.prems(2) by (simp add: held_def)
  next
    case Slot
    then obtain n where n: "free = Suc n"
      using Cons.prems(6) by (cases free) (auto simp: word_less_nat_alt)
    have "unat (RatePPS r1) = unat (WindowCount r1) + n"
      using Slot(5) suc_le_rate [OF Slot(3)] Cons.prems(6) by (simp add: n rel)
    from Cons.IH [OF _ _ _ _ p this] show ?thesis
      using Slot(2,5) rel ds c n suc_le_rate [OF Slot(3)] Cons.prems(1,2) later by simp
  next
    case Full
    then have n: "free = 0" using Cons.prems(6) by (simp add: word_le_nat_alt)
    have "unat (RatePPS r1) = unat (WindowCount r1) + 0"
      using Full(4) Full(5) Cons.prems(6) n rel by simp
    from Cons.IH [OF _ _ _ _ p this] show ?thesis
      using Full(2,5) rel ds c n Cons.prems(1,2,3) later by simp
  next
    case Roll
    then show ?thesis using now(2) by simp
  qed
qed

section \<open>The quarantine\<close>

lemma police_held:
  assumes "\<forall>t \<in> set ts. held t rule"
  shows "police ts rule = (replicate (length ts) True, rule)"
  using assms by (induction ts) (simp_all add: policy_held)

text \<open>The first packet of a later window scores the window before it.\<close>

lemma policy_roll:
  assumes "\<not> held now rule" and "RatePPS rule \<noteq> 0" and "WindowStartNs rule \<le> now"
    and "unat (WindowStartNs rule) + 1000000000 \<le> unat now"
  shows "enforce_policy now rule = (False, (score_window now (self_release rule))
    \<lparr>WindowStartNs := now, WindowCount := 1, WindowViolated := 0\<rparr>)"
proof -
  obtain d rule1 where e: "enforce_policy now rule = (d, rule1)" by fastforce
  from e assms(2,3) show ?thesis
    by (cases rule: policy_cases) (use assms e in auto)
qed

text \<open>
  An over-long window: more packets than the cap, all of them less than a second after the first,
  which comes a second or more after the window before it.
\<close>

definition abusive_window :: "u32 \<Rightarrow> u64 \<Rightarrow> u64 list \<Rightarrow> bool" where
  "abusive_window rate start ts \<longleftrightarrow>
     ts \<noteq> [] \<and> unat rate < length ts \<and> unat start + 1000000000 \<le> unat (hd ts)
     \<and> (\<forall>t \<in> set ts. hd ts \<le> t \<and> unat t < unat (hd ts) + 1000000000)"

lemma police_abusive_window:
  assumes "abusive_window (RatePPS rule) (WindowStartNs rule) ts"
    and "RatePPS rule \<noteq> 0" and "QuarantineUntilNs rule = 0"
    and "QuarantineUntilNs (score_window (hd ts) rule) = 0"
    and "police ts rule = (ds, rule1)"
  shows "QuarantineUntilNs rule1 = 0 \<and> WindowStartNs rule1 = hd ts \<and> WindowViolated rule1 = 1
    \<and> ViolationStreak rule1 = ViolationStreak (score_window (hd ts) rule)
    \<and> config_of rule1 = config_of rule \<and> length (filter Not ds) = unat (RatePPS rule)"
proof -
  obtain t us where ts: "ts = t # us" using assms(1) by (cases ts) (auto simp: abusive_window_def)
  let ?r = "(score_window t rule)\<lparr>WindowStartNs := t, WindowCount := 1, WindowViolated := 0\<rparr>"
  have a: "unat (RatePPS rule) \<le> length us" "unat (WindowStartNs rule) + 1000000000 \<le> unat t"
    "\<forall>u \<in> set us. t \<le> u \<and> unat u < unat t + 1000000000"
    using assms(1) by (auto simp: abusive_window_def ts)
  have e: "enforce_policy t rule = (False, ?r)"
    using policy_roll [of t rule] assms(2,3) a(2)
    by (simp add: held_def self_release_def word_le_nat_alt)
  obtain ds' where p: "police us ?r = (ds', rule1)" and ds: "ds = False # ds'"
    using assms(5) e by (auto simp: ts split: prod.splits)
  have pos: "0 < unat (RatePPS rule)" using assms(2) by (simp add: unat_gt_0)
  have free: "unat (RatePPS ?r) = unat (WindowCount ?r) + (unat (RatePPS rule) - 1)"
    using pos by simp
  have le: "WindowCount ?r \<le> RatePPS ?r" using pos by (simp add: word_le_nat_alt)
  have cfg: "config_of ?r = config_of rule" by (simp add: config_of_def score_window_def Let_def)
  from police_window [OF _ _ le _ p free] show ?thesis
    using assms(2,4) a pos ds cfg by (auto simp: ts min_def)
qed

text \<open>A list of over-long windows, each starting after the one before it.\<close>

fun abusive_windows :: "u32 \<Rightarrow> u64 \<Rightarrow> u64 list list \<Rightarrow> bool" where
  "abusive_windows rate start [] \<longleftrightarrow> True"
| "abusive_windows rate start (w # ws) \<longleftrightarrow>
     abusive_window rate start w \<and> abusive_windows rate (hd w) ws"

lemma streak_suc:
  assumes "unat (ViolationStreak rule) + 1 < unat (QuarantineThreshold rule)"
    and "WindowViolated rule \<noteq> 0"
  shows "score_window now rule = rule\<lparr>ViolationStreak := ViolationStreak rule + 1\<rparr>"
    and "unat (ViolationStreak rule + 1) = unat (ViolationStreak rule) + 1"
proof -
  have "unat (QuarantineThreshold rule) < 4294967296" by simp
  with assms(1) have "unat (ViolationStreak rule) + 1 < 4294967296" by linarith
  then show u: "unat (ViolationStreak rule + 1) = unat (ViolationStreak rule) + 1"
    by (simp add: unat_word_ariths)
  show "score_window now rule = rule\<lparr>ViolationStreak := ViolationStreak rule + 1\<rparr>"
    using assms by (simp add: score_window_def Let_def word_le_nat_alt u)
qed

lemma police_abusive_windows:
  assumes "abusive_windows (RatePPS rule) (WindowStartNs rule) ws"
    and "RatePPS rule \<noteq> 0" and "QuarantineUntilNs rule = 0" and "WindowViolated rule = 1"
    and "unat (ViolationStreak rule) + length ws < unat (QuarantineThreshold rule)"
    and "police (concat ws) rule = (ds, rule1)"
  shows "QuarantineUntilNs rule1 = 0 \<and> WindowViolated rule1 = 1
    \<and> WindowStartNs rule1 = last (WindowStartNs rule # map hd ws)
    \<and> unat (ViolationStreak rule1) = unat (ViolationStreak rule) + length ws
    \<and> config_of rule1 = config_of rule"
  using assms
proof (induction ws arbitrary: rule ds)
  case Nil
  then show ?case by simp
next
  case (Cons w ws)
  obtain ds1 r1 where p1: "police w rule = (ds1, r1)" by fastforce
  obtain ds2 where p2: "police (concat ws) r1 = (ds2, rule1)"
    using Cons.prems(6) p1 by (auto simp: police_append split: prod.splits)
  have lt: "unat (ViolationStreak rule) + 1 < unat (QuarantineThreshold rule)"
    "WindowViolated rule \<noteq> 0" using Cons.prems(4,5) by auto
  note sc = streak_suc [OF lt]
  have w: "abusive_window (RatePPS rule) (WindowStartNs rule) w"
    and ws: "abusive_windows (RatePPS rule) (hd w) ws" using Cons.prems(1) by auto
  have r1: "QuarantineUntilNs r1 = 0" "WindowStartNs r1 = hd w" "WindowViolated r1 = 1"
    "ViolationStreak r1 = ViolationStreak rule + 1" and c: "config_of r1 = config_of rule"
    using police_abusive_window [OF w Cons.prems(2,3) _ p1] sc(1) Cons.prems(3) by auto
  note f = config_ofD [OF c]
  from Cons.IH [OF _ _ r1(1) r1(3) _ p2] show ?case
    using ws r1 c f sc(2) Cons.prems(2,5) by simp
qed

text \<open>The deadline does not wrap around while the clock stays far below its end.\<close>

lemma deadline_unat:
  assumes "unat now + unat (q :: u32) * 1000000000 < 18446744073709551616"
  shows "unat (now + ucast q * second :: u64) = unat now + unat q * 1000000000"
proof -
  have "unat q < 18446744073709551616" using unat_u32_less [of q] by linarith
  then have "unat (ucast q :: u64) = unat q"
    by (simp add: unsigned_ucast_eq take_bit_eq_mod mod_less)
  then have m: "unat (ucast q * second :: u64) = unat q * 1000000000"
    using assms by (simp add: unat_word_ariths)
  show ?thesis unfolding unat_word_ariths(1) m using assms by simp
qed

text \<open>The packet after the last of the windows that complete the streak starts the quarantine.\<close>

lemma policy_trigger:
  assumes "RatePPS rule \<noteq> 0" and "QuarantineUntilNs rule = 0" and "WindowViolated rule = 1"
    and "unat (ViolationStreak rule) + 1 = unat (QuarantineThreshold rule)"
    and "unat (WindowStartNs rule) + 1000000000 \<le> unat now"
  shows "\<exists>rule1. enforce_policy now rule = (False, rule1)
    \<and> QuarantineUntilNs rule1 = now + ucast (QuarantineSeconds rule) * second
    \<and> WindowStartNs rule1 = now \<and> WindowViolated rule1 = 0
    \<and> ViolationStreak rule1 = 0 \<and> config_of rule1 = config_of rule"
proof -
  have "unat (QuarantineThreshold rule) < 4294967296" by simp
  with assms(4) have "unat (ViolationStreak rule) + 1 < 4294967296" by linarith
  then have u: "unat (ViolationStreak rule + 1) = unat (ViolationStreak rule) + 1"
    by (simp add: unat_word_ariths)
  then have "QuarantineThreshold rule \<le> ViolationStreak rule + 1" "QuarantineThreshold rule \<noteq> 0"
    using assms(4) by (auto simp: word_le_nat_alt)
  then have s: "score_window now rule = rule\<lparr>ViolationStreak := 0,
      QuarantineUntilNs := now + ucast (QuarantineSeconds rule) * second\<rparr>"
    using assms(3) by (simp add: score_window_def Let_def)
  show ?thesis
    using policy_roll [of now rule] assms(1,2,5) s
    by (simp add: held_def self_release_def word_le_nat_alt config_of_def)
qed

text \<open>
  Fewer violations than the threshold never quarantine: the streak, with the violation of the
  current window, is at most the number of packets the cap has dropped.
\<close>

lemma score_window_until:
  assumes "QuarantineUntilNs rule = 0" and "QuarantineUntilNs (score_window now rule) \<noteq> 0"
  shows "WindowViolated rule \<noteq> 0" and "QuarantineThreshold rule \<noteq> 0"
    and "unat (QuarantineThreshold rule) \<le> unat (ViolationStreak rule) + 1"
proof -
  show "WindowViolated rule \<noteq> 0" and "QuarantineThreshold rule \<noteq> 0"
    using assms by (auto simp: score_window_def Let_def split: if_splits)
  have "QuarantineThreshold rule \<le> ViolationStreak rule + 1"
    using assms by (auto simp: score_window_def Let_def split: if_splits)
  then have "unat (QuarantineThreshold rule) \<le> unat (ViolationStreak rule + 1)"
    by (simp add: word_le_nat_alt)
  also have "\<dots> \<le> unat (ViolationStreak rule) + 1"
    by (simp add: unat_word_ariths)
  finally show "unat (QuarantineThreshold rule) \<le> unat (ViolationStreak rule) + 1" .
qed

lemma score_window_streak:
  "unat (ViolationStreak (score_window now rule)) \<le>
     (if WindowViolated rule \<noteq> 0 then unat (ViolationStreak rule) + 1 else 0)"
  by (simp add: score_window_def Let_def unat_word_ariths)

definition violations :: "fwd_rule \<Rightarrow> nat" where
  "violations rule = unat (ViolationStreak rule) + (if WindowViolated rule \<noteq> 0 then 1 else 0)"

lemma quarantine_needs_drops:
  assumes "RatePPS rule \<noteq> 0" and "QuarantineUntilNs rule = 0"
    and "sorted ts" and "\<forall>t \<in> set ts. WindowStartNs rule \<le> t"
    and "QuarantineUntilNs (snd (police ts rule)) \<noteq> 0"
  shows "QuarantineThreshold rule \<noteq> 0
    \<and> unat (QuarantineThreshold rule) \<le> violations rule + dropped ts rule"
  using assms
proof (induction ts arbitrary: rule)
  case Nil
  then show ?case by simp
next
  case (Cons now ts)
  obtain d r1 where e: "enforce_policy now rule = (d, r1)" by fastforce
  have drp: "dropped (now # ts) rule = (if d then 1 else 0) + dropped ts r1" by (simp add: e)
  have f: "RatePPS r1 = RatePPS rule" "QuarantineThreshold r1 = QuarantineThreshold rule"
    using enforce_policy_fields [OF e] by auto
  have u: "QuarantineUntilNs (snd (police ts r1)) \<noteq> 0"
    using Cons.prems(5) e by (auto split: prod.splits)
  have s: "sorted ts" and later: "\<forall>t \<in> set ts. now \<le> t \<and> WindowStartNs rule \<le> t"
    and now: "WindowStartNs rule \<le> now"
    using Cons.prems(3,4) by auto
  have rel: "self_release rule = rule" by (simp add: self_release_def Cons.prems(2))
  from e Cons.prems(1) now show ?case
  proof (cases rule: policy_cases)
    case Held
    then show ?thesis using Cons.prems(2) by (simp add: held_def)
  next
    case Slot
    then show ?thesis
      using Cons.IH [of r1] Cons.prems(1,2) f s later u drp rel by (simp add: violations_def)
  next
    case Full
    have "QuarantineUntilNs r1 = 0" "WindowStartNs r1 = WindowStartNs rule"
      "violations r1 \<le> violations rule + 1"
      using Full(5) rel Cons.prems(2) by (auto simp: violations_def)
    then show ?thesis
      using Cons.IH [of r1] Cons.prems(1) f s later u drp Full(2) by fastforce
  next
    case Roll
    show ?thesis
    proof (cases "QuarantineUntilNs (score_window now rule) = 0")
      case True
      have "violations r1 \<le> violations rule"
        using Roll(4) rel score_window_streak [of now rule] by (auto simp: violations_def)
      moreover have "QuarantineUntilNs r1 = 0" "WindowStartNs r1 = now"
        using Roll(4) rel True by auto
      ultimately show ?thesis
        using Cons.IH [of r1] Cons.prems(1) f s later u drp by fastforce
    next
      case False
      from score_window_until [OF Cons.prems(2) False] show ?thesis
        by (auto simp: violations_def)
    qed
  qed
qed

section \<open>Invariant of the policy state\<close>

definition policy_inv :: "fwd_rule \<Rightarrow> bool" where
  "policy_inv rule \<longleftrightarrow> within_cap rule
     \<and> (QuarantineThreshold rule \<noteq> 0 \<longrightarrow> ViolationStreak rule < QuarantineThreshold rule)"

lemma policy_inv_steps:
  "policy_inv rule \<Longrightarrow> policy_inv (self_release rule)"
  "policy_inv rule \<Longrightarrow> policy_inv (roll_window now rule)"
  "policy_inv rule \<Longrightarrow> RatePPS rule \<noteq> 0 \<Longrightarrow> policy_inv (snd (take_slot rule))"
proof -
  show "policy_inv rule \<Longrightarrow> policy_inv (self_release rule)"
    by (auto simp: policy_inv_def within_cap_def self_release_def word_greater_zero_iff)
  show "policy_inv rule \<Longrightarrow> policy_inv (roll_window now rule)"
    by (auto simp: policy_inv_def within_cap_def roll_window_def score_window_def Let_def
        word_greater_zero_iff not_le)
  show "policy_inv rule \<Longrightarrow> RatePPS rule \<noteq> 0 \<Longrightarrow> policy_inv (snd (take_slot rule))"
    using suc_le_rate [of rule]
    by (auto simp: policy_inv_def within_cap_def take_slot_def not_le)
qed

lemma enforce_policy_inv: "policy_inv rule \<Longrightarrow> policy_inv (snd (enforce_policy now rule))"
proof -
  assume "policy_inv rule"
  moreover have "RatePPS (roll_window now (self_release rule)) = RatePPS rule"
    by (simp add: roll_window_def)
  ultimately show ?thesis
    using policy_inv_steps by (auto simp: enforce_policy_def Let_def)
qed

lemma police_inv: "policy_inv rule \<Longrightarrow> policy_inv (snd (police ts rule))"
proof (induction ts arbitrary: rule)
  case (Cons t ts)
  then show ?case
    using enforce_policy_inv [OF Cons.prems, of t] by (auto split: prod.splits)
       (metis Cons.IH snd_conv)
qed simp

lemma police_config: "config_of (snd (police ts rule)) = config_of rule"
proof (induction ts arbitrary: rule)
  case (Cons t ts)
  then show ?case
    using enforce_policy_config [of t rule] by (auto split: prod.splits) (metis snd_conv)
qed simp

section \<open>Properties\<close>

text \<open>A rule of one packet per second with a quarantine of 30 seconds after two violations.\<close>

definition demo_rule :: fwd_rule where
  "demo_rule = zero_rule\<lparr>Action := ActionRedirect, OutIfindex := 2, RatePPS := 1,
     QuarantineThreshold := 2, QuarantineSeconds := 30\<rparr>"

lemma demo_rule_simps:
  "RatePPS demo_rule = 1" "QuarantineThreshold demo_rule = 2" "QuarantineSeconds demo_rule = 30"
  "WindowCount demo_rule = 0" "WindowStartNs demo_rule = 0" "WindowViolated demo_rule = 0"
  "ViolationStreak demo_rule = 0" "QuarantineUntilNs demo_rule = 0" "RateDropCount demo_rule = 0"
  by (simp_all add: demo_rule_def zero_rule_def)

text \<open>Over any run of packets with a monotonic clock, at most \<open>rate_pps\<close> packets are admitted per started
  second since the beginning of the current window; slots already used count.\<close>
theorem rate_cap_bound:
  assumes "RatePPS rule \<noteq> 0" and "WindowCount rule \<le> RatePPS rule"
    and "sorted ts" and "\<forall>t \<in> set ts. WindowStartNs rule \<le> t \<and> t \<le> T"
    and "WindowStartNs rule \<le> T"
  shows "admitted ts rule + unat (WindowCount rule) \<le>
    unat (RatePPS rule) * (1 + (unat T - unat (WindowStartNs rule)) div 1000000000)"
  using assms by (rule admitted_bound)

lemma rate_cap_bound_witness:
  "admitted [1000000000, 1000000001, 2500000000] demo_rule \<le> 3"
  using rate_cap_bound [of demo_rule "[1000000000, 1000000001, 2500000000]" 2500000000]
  by (simp add: demo_rule_def zero_rule_def)

text \<open>While one window lasts and the rule is not quarantined, the free slots are given to the first
  packets and every later one is dropped and counted in \<open>rate_drop_count\<close>; the window is marked as
  violated exactly when one was dropped, and neither the streak nor the quarantine changes.\<close>
theorem window_slots:
  assumes "RatePPS rule \<noteq> 0" and "QuarantineUntilNs rule = 0"
    and "WindowCount rule \<le> RatePPS rule"
    and "\<forall>t \<in> set ts. WindowStartNs rule \<le> t \<and> unat t < unat (WindowStartNs rule) + 1000000000"
    and "unat (RatePPS rule) = unat (WindowCount rule) + free"
  shows "\<exists>rule1. police ts rule =
      (replicate (min (length ts) free) False @ replicate (length ts - free) True, rule1)
    \<and> WindowViolated rule1 = (if free < length ts then 1 else WindowViolated rule)
    \<and> RateDropCount rule1 = RateDropCount rule + of_nat (length ts - free)
    \<and> ViolationStreak rule1 = ViolationStreak rule \<and> QuarantineUntilNs rule1 = 0"
proof -
  obtain ds rule1 where p: "police ts rule = (ds, rule1)" by fastforce
  from police_window [OF assms(1-4) p assms(5)] p show ?thesis by auto
qed

lemma window_slots_witness:
  "\<exists>rule1. police [5, 6, 7] demo_rule = ([False, True, True], rule1)
     \<and> WindowViolated rule1 = 1 \<and> RateDropCount rule1 = 2"
  using window_slots [of demo_rule "[5, 6, 7]" 1]
  by (auto simp: demo_rule_simps simp del: police.simps)

text \<open>C11: a subscriber with a clean record (no quarantine, no streak) that exceeds its cap in as many scored
  windows as \<open>quarantine_threshold\<close>, however far apart they are, is quarantined by the next packet after
  the last of them is over. That packet is admitted; every packet before the deadline,
  \<open>quarantine_seconds\<close> later, is dropped without any change of state; the first packet at or after the
  deadline is admitted and clears the quarantine and the streak (as long as the deadline fits the
  64-bit clock).\<close>
theorem abuse_is_quarantined:
  assumes "RatePPS rule \<noteq> 0" and "QuarantineUntilNs rule = 0"
    and "ViolationStreak rule = 0" and "WindowViolated rule = 0"
    and "abusive_windows (RatePPS rule) (WindowStartNs rule) (w # ws)"
    and "length (w # ws) = unat (QuarantineThreshold rule)"
    and "unat (hd (last (w # ws))) + 1000000000 \<le> unat t"
    and "0 < QuarantineSeconds rule"
    and "unat t + unat (QuarantineSeconds rule) * 1000000000 < 18446744073709551616"
    and "\<forall>u \<in> set us. unat u < unat t + unat (QuarantineSeconds rule) * 1000000000"
    and "unat t + unat (QuarantineSeconds rule) * 1000000000 \<le> unat v"
  shows "\<exists>ds r1 r2. police (concat (w # ws) @ [t]) rule = (ds @ [False], r1)
    \<and> length ds = length (concat (w # ws)) \<and> police us r1 = (replicate (length us) True, r1)
    \<and> unat (QuarantineUntilNs r1) = unat t + unat (QuarantineSeconds rule) * 1000000000
    \<and> enforce_policy v r1 = (False, r2)
    \<and> QuarantineUntilNs r2 = 0 \<and> ViolationStreak r2 = 0"
proof -
  obtain ds1 a where p1: "police w rule = (ds1, a)" by fastforce
  obtain ds2 b where p2: "police (concat ws) a = (ds2, b)" by fastforce
  have w: "abusive_window (RatePPS rule) (WindowStartNs rule) w"
    and ws: "abusive_windows (RatePPS rule) (hd w) ws" using assms(5) by auto
  have a: "QuarantineUntilNs a = 0" "WindowStartNs a = hd w" "WindowViolated a = 1"
    "ViolationStreak a = 0" and ca: "config_of a = config_of rule"
    using police_abusive_window [OF w assms(1,2) _ p1] assms(2,4)
    by (auto simp: score_window_def)
  note fa = config_ofD [OF ca]
  have b: "QuarantineUntilNs b = 0" "WindowViolated b = 1" "WindowStartNs b = hd (last (w # ws))"
    "unat (ViolationStreak b) + 1 = unat (QuarantineThreshold rule)"
    and cb: "config_of b = config_of rule"
    using police_abusive_windows [OF _ _ a(1,3) _ p2] ws a fa assms(1,6) ca
    by (auto simp: last_map)
  note fb = config_ofD [OF cb]
  obtain c where pt: "enforce_policy t b = (False, c)"
    and c: "QuarantineUntilNs c = t + ucast (QuarantineSeconds rule) * second"
      "WindowStartNs c = t" "WindowViolated c = 0" "ViolationStreak c = 0"
      "config_of c = config_of rule"
    using policy_trigger [of b t] b fb cb assms(1,7) by auto
  have u: "unat (QuarantineUntilNs c) = unat t + unat (QuarantineSeconds rule) * 1000000000"
    using deadline_unat [OF assms(9)] c(1) by simp
  then have nz: "QuarantineUntilNs c \<noteq> 0"
    using assms(8) by (auto simp: word_less_nat_alt)
  have held: "\<forall>x \<in> set us. held x c"
    using assms(10) nz u by (auto simp: held_def word_less_nat_alt)
  have len: "length ds1 = length w" "length ds2 = length (concat ws)"
    using p1 p2 police_length by (metis fst_conv)+
  have run: "police (concat (w # ws) @ [t]) rule = ((ds1 @ ds2) @ [False], c)"
    by (simp add: police_append p1 p2 pt)
  have nh: "\<not> held v c" using u assms(11) by (auto simp: held_def word_less_nat_alt)
  have "1 \<le> unat (QuarantineSeconds rule)" using assms(8) by (simp add: word_less_nat_alt)
  then have "unat t + 1000000000 \<le> unat v" using assms(11) by linarith
  then have "enforce_policy v c = (False, (score_window v (self_release c))
      \<lparr>WindowStartNs := v, WindowCount := 1, WindowViolated := 0\<rparr>)"
    using policy_roll [OF nh] config_ofD(1) [OF c(5)] assms(1) c(2)
    by (simp add: word_le_nat_alt)
  moreover have "score_window v (self_release c) = (self_release c)\<lparr>ViolationStreak := 0\<rparr>"
    using c(3) by (simp add: score_window_def)
  ultimately show ?thesis
    using run u len police_held [OF held] by (intro exI conjI) (assumption | simp)+
qed

lemma abuse_is_quarantined_witness:
  "\<exists>ds r1 r2. police [1000000000, 1000000001, 86400000000000, 86400000000001, 90000000000000] demo_rule =
     (ds @ [False], r1) \<and> length ds = 4
     \<and> police [90000000000001, 90029999999999] r1 = ([True, True], r1)
     \<and> enforce_policy 90030000000000 r1 = (False, r2) \<and> QuarantineUntilNs r2 = 0"
  using abuse_is_quarantined [of demo_rule "[1000000000, 1000000001]"
      "[[86400000000000, 86400000000001]]" 90000000000000 "[90000000000001, 90029999999999]"
      90030000000000]
  by (auto simp: demo_rule_simps abusive_window_def simp del: police.simps)

text \<open>A rule that is not quarantined becomes quarantined only if the cap, together with the violations
  already on record, dropped at least \<open>quarantine_threshold\<close> packets; with a threshold of 0 never.\<close>
theorem no_quarantine_without_drops:
  assumes "RatePPS rule \<noteq> 0" and "QuarantineUntilNs rule = 0"
    and "sorted ts" and "\<forall>t \<in> set ts. WindowStartNs rule \<le> t"
    and "QuarantineUntilNs (snd (police ts rule)) \<noteq> 0"
  shows "QuarantineThreshold rule \<noteq> 0
    \<and> unat (QuarantineThreshold rule) \<le> violations rule + dropped ts rule"
  using assms by (rule quarantine_needs_drops)

lemma demo_run_until:
  "QuarantineUntilNs (snd (police [1000000000, 1000000001, 2000000000, 2000000001, 3000000000]
     demo_rule)) = 33000000000"
  by code_simp

lemma no_quarantine_without_drops_witness:
  "2 \<le> dropped [1000000000, 1000000001, 2000000000, 2000000001, 3000000000] demo_rule"
  using no_quarantine_without_drops [of demo_rule
      "[1000000000, 1000000001, 2000000000, 2000000001, 3000000000]"] demo_run_until
  by (simp add: violations_def demo_rule_simps del: police.simps)

text \<open>With \<open>rate_pps\<close> 0 a rule that is not quarantined admits every packet and is never quarantined,
  whatever threshold is configured: the quarantine feeds only on the rate cap.\<close>
theorem unlimited_never_quarantined:
  assumes "RatePPS rule = 0" and "QuarantineUntilNs rule = 0"
  shows "police ts rule = (replicate (length ts) False, rule)"
  using assms
  by (induction ts) (simp_all add: policy_unlimited held_def self_release_def)

lemma unlimited_never_quarantined_witness:
  "police [1, 2, 3] (demo_rule\<lparr>RatePPS := 0\<rparr>) =
     ([False, False, False], demo_rule\<lparr>RatePPS := 0\<rparr>)"
  using unlimited_never_quarantined [of "demo_rule\<lparr>RatePPS := 0\<rparr>" "[1, 2, 3]"]
  by (simp add: demo_rule_def zero_rule_def)

text \<open>For any clock values whatever, the run keeps the window counter at most the cap and the streak below
  the threshold, and never writes the configuration, the counters or the forwarding part of the rule.\<close>
theorem police_keeps_invariant:
  assumes "policy_inv rule"
  shows "policy_inv (snd (police ts rule)) \<and> config_of (snd (police ts rule)) = config_of rule"
  using police_inv [OF assms] police_config by blast

lemma police_keeps_invariant_witness:
  "policy_inv (snd (police [9, 3, 18446744073709551615] demo_rule))"
  using police_keeps_invariant [of demo_rule "[9, 3, 18446744073709551615]"]
  by (simp add: policy_inv_def within_cap_def demo_rule_def zero_rule_def)

end
