(* ===== verification/Checksum.thy ===== *)
theory Checksum
  imports Prelude
begin

text \<open>
  The Internet checksums of \<open>ebpf/gtp_xdp.c\<close>: the incremental update of \<open>csum_update_u32\<close> used by
  the NAT rewrites and the full computation used by the two encapsulations, on 32-bit accumulators
  with C's wrap-around. A sum of 16-bit words verifies when it is positive and a multiple of 65535
  (it then folds to 0xffff); the theorems show that the update preserves this and that the
  computation establishes it, and that two folds are enough.
\<close>

section \<open>The code\<close>

definition fold16 :: "u32 \<Rightarrow> u32" where
  "fold16 acc = drop_bit 16 acc + (acc AND 0xffff)"

definition csum_update_u32 :: "u16 \<Rightarrow> u32 \<Rightarrow> u32 \<Rightarrow> u16" where
  "csum_update_u32 chk old_val new_val =
     (let acc = NOT (ucast chk) AND 0xffff;
          acc = acc + (NOT (drop_bit 16 old_val) AND 0xffff);
          acc = acc + (NOT (old_val AND 0xffff) AND 0xffff);
          acc = acc + drop_bit 16 new_val;
          acc = acc + (new_val AND 0xffff);
          acc = fold16 acc;
          acc = fold16 acc
      in ucast (NOT acc AND 0xffff))"

text \<open>The header checksum of an outer IPv4 header (no options, TTL 64, UDP).\<close>

definition outer_csum :: "u16 \<Rightarrow> u32 \<Rightarrow> u32 \<Rightarrow> u16" where
  "outer_csum tot_len sip dip =
     (let csum = 0x4500 + ucast tot_len + 0x4011
            + drop_bit 16 sip + (sip AND 0xffff)
            + drop_bit 16 dip + (dip AND 0xffff);
          csum = (csum AND 0xffff) + drop_bit 16 csum;
          csum = (csum AND 0xffff) + drop_bit 16 csum
      in NOT (ucast csum))"

section \<open>Verification of a sum\<close>

definition verifies :: "nat \<Rightarrow> bool" where
  "verifies s \<longleftrightarrow> 0 < s \<and> s mod 65535 = 0"

text \<open>The 16-bit big-endian words of a header or segment; a trailing odd byte is padded with 0.\<close>

fun word_sum :: "u8 list \<Rightarrow> nat" where
  "word_sum [] = 0"
| "word_sum [a] = unat a * 256"
| "word_sum (a # b # bs) = unat a * 256 + unat b + word_sum bs"

lemma word_sum_append: "even (length xs) \<Longrightarrow> word_sum (xs @ ys) = word_sum xs + word_sum ys"
  by (induction xs rule: word_sum.induct) auto

section \<open>Words and halves\<close>

lemma take_bit_16_unat: "unat (take_bit 16 (w :: u32)) = unat w mod 65536"
  by (rule trans [OF unsigned_take_bit_eq]) (simp add: take_bit_eq_mod)

lemma and_ffff: "unat (w AND 0xffff :: u32) = unat w mod 65536"
proof -
  have "w AND 0xffff = take_bit 16 w"
    by (simp only: take_bit_eq_mask mask_numeral) (simp add: mask_numeral)
  then show ?thesis by (simp only: take_bit_16_unat)
qed

lemma not_and_ffff: "unat (NOT w AND 0xffff :: u32) = 65535 - unat w mod 65536"
proof -
  have "NOT w AND 0xffff = take_bit 16 (NOT w)"
    by (simp only: take_bit_eq_mask mask_numeral) (simp add: mask_numeral)
  also have "\<dots> = mask 16 - take_bit 16 w" by (rule take_bit_not_eq_mask_diff)
  finally have e: "NOT w AND 0xffff = 65535 - take_bit 16 w"
    by (simp only: mask_numeral) (simp add: mask_numeral)
  have "take_bit 16 w \<le> 65535"
    unfolding word_le_nat_alt take_bit_16_unat using mod_less_divisor [of 65536 "unat w"] by simp
  then show ?thesis unfolding e by (simp only: unat_sub take_bit_16_unat) simp
qed

lemma half_unat: "unat (drop_bit 16 w :: u32) = unat w div 65536"
  by (rule trans [OF unat_drop_bit_eq]) (simp add: drop_bit_eq_div)

lemma unat_ucast_u16: "unat (ucast (h :: u16) :: u32) = unat h"
  by (simp add: unsigned_ucast_eq take_bit_nat_eq_self_iff order_less_trans [OF unat_u16_less])

lemma unat_u32_to_u16: "unat (ucast (w :: u32) :: u16) = unat w mod 65536"
  by (simp add: unsigned_ucast_eq take_bit_eq_mod)

lemma fold16_unat: "unat (fold16 s) = unat s div 65536 + unat s mod 65536"
proof -
  have "unat s div 65536 < 65536" using unat_u32_less [of s] by (simp add: div_less_iff_less_mult del: unat_u32_less)
  then have "unat s div 65536 + unat s mod 65536 < 4294967296" using mod_less_divisor [of 65536 "unat s"] by linarith
  then show ?thesis by (simp add: fold16_def unat_word_ariths half_unat and_ffff)
qed

text \<open>A fold keeps the residue; two folds of a sum of at most six halves leave 16 bits.\<close>

lemma fold_residue: "(s div 65536 + s mod 65536) mod 65535 = (s :: nat) mod 65535"
proof -
  have "s = 65535 * (s div 65536) + (s div 65536 + s mod 65536)" by simp
  then show ?thesis by (metis mod_mult_self4)
qed

lemma two_folds:
  assumes "unat s \<le> 393210"
  shows "unat (fold16 (fold16 s)) \<le> 65535"
    and "unat (fold16 (fold16 s)) mod 65535 = unat s mod 65535"
    and "0 < unat s \<Longrightarrow> 0 < unat (fold16 (fold16 s))"
proof -
  let ?f = "unat s div 65536 + unat s mod 65536"
  have f: "unat (fold16 (fold16 s)) = ?f div 65536 + ?f mod 65536" by (simp add: fold16_unat)
  show "unat (fold16 (fold16 s)) mod 65535 = unat s mod 65535"
    unfolding f by (simp add: fold_residue)
  have "unat s div 65536 \<le> 5" using assms by linarith
  then have "?f \<le> 65540" using mod_less_divisor [of 65536 "unat s"] by linarith
  then show "unat (fold16 (fold16 s)) \<le> 65535"
    unfolding f by (cases "?f < 65536") (auto simp: div_if [of ?f] mod_if [of ?f])
  assume "0 < unat s"
  then have "0 < ?f" by (metis div_mult_mod_eq add_gr_0 gr0I add_is_0 mult_0)
  then show "0 < unat (fold16 (fold16 s))" unfolding f
    by (metis div_mult_mod_eq add_gr_0 gr0I add_is_0 mult_0)
qed

section \<open>Correctness\<close>

text \<open>The two 16-bit words of an address, as the checksums see them.\<close>

definition halves :: "u32 \<Rightarrow> nat" where
  "halves w = unat w div 65536 + unat w mod 65536"

lemma halves_bounds: "unat w div 65536 \<le> 65535" "unat w mod 65536 \<le> 65535" for w :: u32
  using unat_u32_less [of w] by (linarith, simp add: less_Suc_eq_le [symmetric])

lemma ucast_byte: "unat (ucast (drop_bit k w) :: u8) = unat w div 2 ^ k mod 256" for w :: u32
  by (simp add: unsigned_ucast_eq take_bit_eq_mod [where 'a = nat] drop_nat)

text \<open>A number below 65536 from its two bytes.\<close>

lemma two_bytes: "x div 256 mod 256 * 256 + x mod 256 = x mod 65536" for x :: nat
  using mod_mult2_eq [of x 256 256] by simp

lemma word_sum_put_be32 [simp]: "word_sum (put_be32 w) = halves w"
proof -
  have b: "unat (ucast w :: u8) = unat w mod 256"
    by (simp add: unsigned_ucast_eq take_bit_eq_mod [where 'a = nat])
  have "word_sum (put_be32 w) = (unat w div 16777216 mod 256 * 256 + unat w div 65536 mod 256)
      + (unat w div 256 mod 256 * 256 + unat w mod 256)"
    by (simp add: put_be32_def ucast_byte b)
  also have "unat w div 16777216 = unat w div 65536 div 256" by (simp add: div_mult2_eq [symmetric])
  also have "unat w div 65536 div 256 mod 256 * 256 + unat w div 65536 mod 256 =
      unat w div 65536"
    using halves_bounds(1) [of w] by (simp add: two_bytes)
  finally show ?thesis by (simp add: halves_def two_bytes)
qed

lemma word_sum_put_be16 [simp]: "word_sum (put_be16 h) = unat h"
proof -
  have "unat (ucast (drop_bit 8 h) :: u8) = unat h div 256 mod 256"
    by (simp add: unsigned_ucast_eq take_bit_eq_mod [where 'a = nat] drop_nat)
  moreover have "unat (ucast h :: u8) = unat h mod 256"
    by (simp add: unsigned_ucast_eq take_bit_eq_mod [where 'a = nat])
  moreover have "unat h div 256 mod 256 * 256 + unat h mod 256 = unat h"
    by (simp add: two_bytes)
  ultimately show ?thesis by (simp add: put_be16_def)
qed

lemma unat_add_small:
  "unat a \<le> 0x7fffffff \<Longrightarrow> unat b \<le> 0x7fffffff \<Longrightarrow> unat (a + b) = unat a + unat b" for a b :: u32
  by (simp add: unat_word_ariths(1))

text \<open>RFC 1624: replacing a field leaves the sum unchanged modulo 65535.\<close>

lemma csum_update_residue:
  "(unat (csum_update_u32 c old new) + halves new) mod 65535 = (unat c + halves old) mod 65535"
proof -
  define x y z where "x = NOT (ucast c) AND (0xffff :: u32)"
    and "y = NOT (drop_bit 16 old) AND 0xffff" and "z = NOT (old AND 0xffff) AND 0xffff"
  define acc where "acc = x + y + z + drop_bit 16 new + (new AND 0xffff)"
  have c: "unat c \<le> 65535" using unat_u16_less [of c] by linarith
  note hb = halves_bounds [of old] halves_bounds [of new]
  have xyz: "unat x = 65535 - unat c" "unat y = 65535 - unat old div 65536"
    "unat z = 65535 - unat old mod 65536"
    unfolding x_def y_def z_def not_and_ffff
    unfolding unat_ucast_u16 half_unat and_ffff using c hb by simp_all
  have a: "unat acc = (65535 - unat c) + (65535 - unat old div 65536)
      + (65535 - unat old mod 65536) + unat new div 65536 + unat new mod 65536"
    unfolding acc_def using hb by (simp add: unat_add_small xyz and_ffff half_unat)
  then have le: "unat acc \<le> 393210" using hb by linarith
  define s2 where "s2 = unat (fold16 (fold16 acc))"
  have s2: "s2 \<le> 65535" "s2 mod 65535 = unat acc mod 65535"
    using two_folds [OF le] by (simp_all add: s2_def)
  have r: "unat (csum_update_u32 c old new) = 65535 - s2"
  proof -
    have "csum_update_u32 c old new = ucast (NOT (fold16 (fold16 acc)) AND 0xffff)"
      unfolding csum_update_u32_def Let_def acc_def x_def y_def z_def ..
    then show ?thesis
      using s2(1) by (simp only: unat_u32_to_u16 not_and_ffff s2_def [symmetric]) simp
  qed
  obtain q1 q2 where "s2 + 65535 * q1 = unat acc + 65535 * q2"
    using s2(2) unfolding nat_mod_eq_iff by blast
  then have "65535 - s2 + halves new + 65535 * (2 + q2) = unat c + halves old + 65535 * q1"
    using a s2(1) c hb unfolding halves_def distrib_left by linarith
  then show ?thesis unfolding r nat_mod_eq_iff by blast
qed

lemma csum_update_verifies:
  assumes "verifies (rest + halves old + unat c)" and "0 < rest"
  shows "verifies (rest + halves new + unat (csum_update_u32 c old new))"
proof -
  have "(rest + (unat (csum_update_u32 c old new) + halves new)) mod 65535 =
      (rest + (unat c + halves old)) mod 65535"
    using csum_update_residue [of c old new] by (metis mod_add_right_eq)
  with assms show ?thesis by (simp add: verifies_def ac_simps)
qed

lemma unat_not_u16: "unat (NOT (h :: u16)) = 65535 - unat h"
proof -
  have "NOT h = 0xffff - h" by (simp add: not_eq_complement)
  moreover have "h \<le> 0xffff" using unat_u16_less [of h] by (simp add: word_le_nat_alt del: unat_u16_less)
  ultimately show ?thesis by (simp add: unat_sub)
qed

lemma outer_csum_verifies:
  "verifies (0x4500 + unat tot + 0x4011 + halves sip + halves dip + unat (outer_csum tot sip dip))"
proof -
  define acc where "acc = 0x4500 + ucast tot + 0x4011
    + drop_bit 16 sip + (sip AND 0xffff) + drop_bit 16 dip + (dip AND 0xffff)"
  note hb = halves_bounds [of sip] halves_bounds [of dip]
  have t: "unat tot \<le> 65535" using unat_u16_less [of tot] by linarith
  have a: "unat acc = 0x4500 + unat tot + 0x4011 + halves sip + halves dip"
    unfolding acc_def halves_def using t hb
    by (simp add: unat_add_small and_ffff half_unat unat_ucast_u16)
  then have le: "unat acc \<le> 393210" using hb t by (simp add: halves_def)
  define s2 where "s2 = unat (fold16 (fold16 acc))"
  have s2: "s2 \<le> 65535" "s2 mod 65535 = unat acc mod 65535"
    using two_folds [OF le] by (simp_all add: s2_def)
  have f: "(x AND 0xffff) + drop_bit 16 x = fold16 x" for x :: u32
    by (simp add: fold16_def add.commute)
  have "outer_csum tot sip dip = NOT (ucast (fold16 (fold16 acc)))"
    unfolding outer_csum_def Let_def f acc_def ..
  then have r: "unat (outer_csum tot sip dip) = 65535 - s2"
    using s2(1) by (simp add: unat_not_u16 unat_u32_to_u16 s2_def [symmetric])
  have "(unat acc + (65535 - s2)) mod 65535 = (s2 + (65535 - s2)) mod 65535"
    using s2(2) by (metis mod_add_left_eq)
  also have "\<dots> = 0" using s2(1) by simp
  finally show ?thesis unfolding verifies_def r using a by simp
qed

end
