(* ===== verification/DataPlane.thy ===== *)
theory DataPlane
  imports Policy Checksum "HOL-Library.Monad_Syntax"
begin

text \<open>
  \<open>ebpf/gtp_xdp.c\<close>: the XDP program. A frame is the byte list between \<open>ctx->data\<close> and
  \<open>ctx->data_end\<close>; a pointer is its offset. Every access of the C code is a \<open>load\<close> or \<open>store\<close>
  that yields \<open>None\<close> outside the frame, so a run that returns \<open>Some\<close> made no access out of bounds.
  The helper \<open>bpf_xdp_adjust_head\<close> is a parameter \<open>adj\<close> with the laws of the locale \<open>xdp_head\<close>
  (bytes dropped from the front, or fresh bytes of unknown contents added there); \<open>bpf_ktime_get_ns\<close>
  is the argument \<open>now\<close>. Map values are updated in place: a rule pointer is a \<open>rule_slot\<close>.
\<close>

section \<open>Frames\<close>

type_synonym frame = "u8 list"

definition load8 :: "frame \<Rightarrow> nat \<Rightarrow> u8 option" where
  "load8 p i = (if i < length p then Some (p ! i) else None)"

definition load16 :: "frame \<Rightarrow> nat \<Rightarrow> u16 option" where
  "load16 p i = do {a \<leftarrow> load8 p i; b \<leftarrow> load8 p (i + 1); Some (be16 a b)}"

definition load32 :: "frame \<Rightarrow> nat \<Rightarrow> u32 option" where
  "load32 p i = do {a \<leftarrow> load8 p i; b \<leftarrow> load8 p (i + 1); c \<leftarrow> load8 p (i + 2);
     d \<leftarrow> load8 p (i + 3); Some (be32 a b c d)}"

definition store :: "frame \<Rightarrow> nat \<Rightarrow> u8 list \<Rightarrow> frame option" where
  "store p i bs =
     (if i + length bs \<le> length p then Some (take i p @ bs @ drop (i + length bs) p) else None)"

text \<open>\<open>bpf_xdp_adjust_head(ctx, delta)\<close>: \<open>None\<close> when the helper returns an error.\<close>

type_synonym adjust_head = "int \<Rightarrow> frame \<Rightarrow> frame option"

section \<open>Maps\<close>

datatype rule_slot = TeidSlot u32 | UeipSlot u32 | NatSlot u32

record dp_state =
  teid_map :: "u32 \<Rightarrow> fwd_rule option"
  ueip_map :: "u32 \<Rightarrow> fwd_rule option"
  nat_map :: "u32 \<Rightarrow> fwd_rule option"
  tx_port :: "u32 \<Rightarrow> u32 option"
  stats_map :: "u32 \<Rightarrow> (u64 \<times> u64) option"

fun map_lookup :: "rule_slot \<Rightarrow> dp_state \<Rightarrow> fwd_rule option" where
  "map_lookup (TeidSlot x) st = teid_map st x"
| "map_lookup (UeipSlot x) st = ueip_map st x"
| "map_lookup (NatSlot x) st = nat_map st x"

fun map_write :: "rule_slot \<Rightarrow> fwd_rule \<Rightarrow> dp_state \<Rightarrow> dp_state" where
  "map_write (TeidSlot x) r st = st\<lparr>teid_map := (teid_map st)(x \<mapsto> r)\<rparr>"
| "map_write (UeipSlot x) r st = st\<lparr>ueip_map := (ueip_map st)(x \<mapsto> r)\<rparr>"
| "map_write (NatSlot x) r st = st\<lparr>nat_map := (nat_map st)(x \<mapsto> r)\<rparr>"

datatype verdict = XDP_ABORTED | XDP_DROP | XDP_PASS | XDP_REDIRECT u32

text \<open>A devmap miss makes \<open>bpf_redirect_map\<close> return its flags, 0, which is \<open>XDP_ABORTED\<close>.\<close>

definition redirect_out :: "dp_state \<Rightarrow> u32 \<Rightarrow> verdict" where
  "redirect_out st ifindex =
     (case tx_port st ifindex of Some out \<Rightarrow> XDP_REDIRECT out | None \<Rightarrow> XDP_ABORTED)"

definition STAT_PASS :: u32 where "STAT_PASS = 0"
definition STAT_DROP :: u32 where "STAT_DROP = 1"
definition STAT_REDIRECT :: u32 where "STAT_REDIRECT = 3"

lemmas stat_keys = STAT_PASS_def STAT_DROP_def STAT_REDIRECT_def

definition bump_stats :: "u32 \<Rightarrow> u64 \<Rightarrow> dp_state \<Rightarrow> dp_state" where
  "bump_stats key bytes st =
     (case stats_map st key of
        Some (packets, octets) \<Rightarrow>
          st\<lparr>stats_map := (stats_map st)(key \<mapsto> (packets + 1, octets + bytes))\<rparr>
      | None \<Rightarrow> st)"

definition bump_rule :: "u64 \<Rightarrow> fwd_rule \<Rightarrow> fwd_rule" where
  "bump_rule bytes rule =
     rule\<lparr>PktCount := PktCount rule + 1, ByteCount := ByteCount rule + bytes\<rparr>"

section \<open>Headers\<close>

definition ETH_P_IP :: u16 where "ETH_P_IP = 0x0800"
definition GTP_UDP_PORT :: u16 where "GTP_UDP_PORT = 2152"
definition GTP_VERSION_1 :: u8 where "GTP_VERSION_1 = 0x20"
definition GTP_PT_BIT :: u8 where "GTP_PT_BIT = 0x10"
definition GTPU_MSG_GPDU :: u8 where "GTPU_MSG_GPDU = 0xFF"
definition GTPU_OPT_FLAG_MASK :: u8 where "GTPU_OPT_FLAG_MASK = 0x07"

lemmas gtp_consts = ETH_P_IP_def GTP_UDP_PORT_def GTP_VERSION_1_def GTP_PT_BIT_def
  GTPU_MSG_GPDU_def GTPU_OPT_FLAG_MASK_def

fun mac_bytes :: "mac \<Rightarrow> u8 list" where
  "mac_bytes (a, b, c, d, e, f) = [a, b, c, d, e, f]"

text \<open>\<open>rewrite_eth\<close> writes the two addresses; \<open>new_eth\<close> is the whole Ethernet header.\<close>

definition rewrite_eth :: "fwd_rule \<Rightarrow> frame \<Rightarrow> frame option" where
  "rewrite_eth rule p = store p 0 (mac_bytes (DMac rule) @ mac_bytes (SMac rule))"

definition new_eth :: "fwd_rule \<Rightarrow> u8 list" where
  "new_eth rule = mac_bytes (DMac rule) @ mac_bytes (SMac rule) @ put_be16 ETH_P_IP"

definition outer_ip :: "u16 \<Rightarrow> u32 \<Rightarrow> u32 \<Rightarrow> u8 list" where
  "outer_ip tot_len sip dip =
     [0x45, 0] @ put_be16 tot_len @ [0, 0, 0, 0, 64, 17] @ put_be16 (outer_csum tot_len sip dip) @
     put_be32 sip @ put_be32 dip"

definition outer_udp :: "u16 \<Rightarrow> u8 list" where
  "outer_udp len =
     put_be16 GTP_UDP_PORT @ put_be16 GTP_UDP_PORT @ put_be16 len @ put_be16 0"

definition gtpu_header :: "u8 \<Rightarrow> u16 \<Rightarrow> u32 \<Rightarrow> u8 list" where
  "gtpu_header flags len teid = [flags, GTPU_MSG_GPDU] @ put_be16 len @ put_be32 teid"

lemma length_headers [simp]:
  "length (mac_bytes m) = 6" "length (new_eth rule) = 14" "length (outer_ip t s d) = 20"
  "length (outer_udp n) = 8" "length (gtpu_header fl gl teid) = 8"
proof -
  show m: "length (mac_bytes m) = 6" for m by (cases m) simp
  show "length (new_eth rule) = 14" by (simp add: new_eth_def m)
qed (simp_all add: outer_ip_def outer_udp_def gtpu_header_def)

section \<open>NAT rewrites\<close>

text \<open>
  A rewrite returns whether it succeeded (0 or -1 in the C code) and the frame, which it may have
  changed before it failed.
\<close>

definition update_check :: "frame \<Rightarrow> nat \<Rightarrow> u32 \<Rightarrow> u32 \<Rightarrow> frame option" where
  "update_check p off old_val new_val =
     do {c \<leftarrow> load16 p off; store p off (put_be16 (csum_update_u32 c old_val new_val))}"

definition update_check_if_set :: "frame \<Rightarrow> nat \<Rightarrow> u32 \<Rightarrow> u32 \<Rightarrow> frame option" where
  "update_check_if_set p off old_val new_val =
     do {c \<leftarrow> load16 p off; if c \<noteq> 0 then update_check p off old_val new_val else Some p}"

text \<open>The layer 4 checksum of the packet whose IP header, of \<open>ihl\<close> bytes, is at offset 14.\<close>

definition rewrite_l4 :: "frame \<Rightarrow> nat \<Rightarrow> u32 \<Rightarrow> u32 \<Rightarrow> (bool \<times> frame) option" where
  "rewrite_l4 p ihl old_val new_val =
     do {proto \<leftarrow> load8 p 23;
         if proto = 6 then
           if length p < 14 + ihl + 20 then Some (False, p)
           else do {p \<leftarrow> update_check_if_set p (14 + ihl + 16) old_val new_val; Some (True, p)}
         else if proto = 17 then
           if length p < 14 + ihl + 8 then Some (False, p)
           else do {p \<leftarrow> update_check_if_set p (14 + ihl + 6) old_val new_val; Some (True, p)}
         else Some (True, p)}"

definition nat_rewrite :: "nat \<Rightarrow> frame \<Rightarrow> u32 \<Rightarrow> u32 \<Rightarrow> (bool \<times> frame) option" where
  "nat_rewrite field p old_val new_val =
     (if length p < 14 then Some (False, p)
      else if length p < 34 then Some (False, p)
      else do {vi \<leftarrow> load8 p 14;
        if drop_bit 4 vi \<noteq> 4 then Some (False, p)
        else do {p \<leftarrow> store p (14 + field) (put_be32 new_val);
          p \<leftarrow> update_check p 24 old_val new_val;
          vi \<leftarrow> load8 p 14;
          let ihl = unat (vi AND 0xf) * 4;
          if ihl < 20 then Some (False, p) else rewrite_l4 p ihl old_val new_val}})"

text \<open>The source address is at byte 12 of the IP header, the destination at byte 16.\<close>

definition nat_src_rewrite :: "frame \<Rightarrow> u32 \<Rightarrow> u32 \<Rightarrow> (bool \<times> frame) option" where
  "nat_src_rewrite p ue_ip_host nat_ip_host = nat_rewrite 12 p ue_ip_host nat_ip_host"

definition nat_dst_rewrite :: "frame \<Rightarrow> u32 \<Rightarrow> u32 \<Rightarrow> (bool \<times> frame) option" where
  "nat_dst_rewrite p nat_ip_host ue_ip_host = nat_rewrite 16 p nat_ip_host ue_ip_host"

section \<open>Decapsulation and encapsulation\<close>

definition decap_gtpu ::
  "adjust_head \<Rightarrow> fwd_rule \<Rightarrow> nat \<Rightarrow> frame \<Rightarrow> (bool \<times> frame) option" where
  "decap_gtpu adj rule strip_bytes p =
     (case adj (int strip_bytes) p of
        None \<Rightarrow> Some (False, p)
      | Some q \<Rightarrow>
          if length q < 14 then Some (False, q)
          else do {q \<leftarrow> store q 0 (new_eth rule);
            if length q < 34 then Some (False, q)
            else do {vi \<leftarrow> load8 q 14; Some (drop_bit 4 vi = 4, q)}})"

definition ENCAP_OVERHEAD :: nat where "ENCAP_OVERHEAD = 36"
definition ENCAP_5G_OVERHEAD :: nat where "ENCAP_5G_OVERHEAD = 44"

definition encap_headers :: "fwd_rule \<Rightarrow> u16 \<Rightarrow> u8 list" where
  "encap_headers rule inner_tot =
     new_eth rule @ outer_ip (inner_tot + of_nat ENCAP_OVERHEAD) (SrcIP rule) (DstIP rule) @
     outer_udp (inner_tot + 16) @
     gtpu_header (GTP_VERSION_1 OR GTP_PT_BIT) inner_tot (TeidOut rule)"

definition encap_5g_headers :: "fwd_rule \<Rightarrow> u16 \<Rightarrow> u8 list" where
  "encap_5g_headers rule inner_tot =
     new_eth rule @ outer_ip (inner_tot + of_nat ENCAP_5G_OVERHEAD) (SrcIP rule) (DstIP rule) @
     outer_udp (inner_tot + 24) @
     gtpu_header (GTP_VERSION_1 OR GTP_PT_BIT OR 0x04) (inner_tot + 8) (TeidOut rule) @
     [0, 0, 0, 0x85] @ [0x01, 0x00, 0x00, 0x00]"

text \<open>Grow the frame and write the headers over its first \<open>14 + overhead\<close> bytes.\<close>

definition encap_with ::
  "nat \<Rightarrow> (u16 \<Rightarrow> u8 list) \<Rightarrow> adjust_head \<Rightarrow> frame \<Rightarrow> (bool \<times> frame) option" where
  "encap_with overhead headers adj p =
     (if length p < 14 then Some (False, p)
      else if length p < 34 then Some (False, p)
      else do {inner_tot \<leftarrow> load16 p 16;
        case adj (- int overhead) p of
          None \<Rightarrow> Some (False, p)
        | Some q \<Rightarrow>
            if length q < 14 + overhead then Some (False, q)
            else do {q \<leftarrow> store q 0 (headers inner_tot); Some (True, q)}})"

definition encap_gtpu :: "adjust_head \<Rightarrow> fwd_rule \<Rightarrow> frame \<Rightarrow> (bool \<times> frame) option" where
  "encap_gtpu adj rule p = encap_with ENCAP_OVERHEAD (encap_headers rule) adj p"

definition encap_gtpu_5g :: "adjust_head \<Rightarrow> fwd_rule \<Rightarrow> frame \<Rightarrow> (bool \<times> frame) option" where
  "encap_gtpu_5g adj rule p = encap_with ENCAP_5G_OVERHEAD (encap_5g_headers rule) adj p"

section \<open>Verdicts\<close>

type_synonym outcome = "(verdict \<times> frame \<times> dp_state) option"

text \<open>The labels \<open>pass:\<close> and \<open>drop:\<close>, and the redirect at the end of a fast path.\<close>

definition go_pass :: "u64 \<Rightarrow> frame \<Rightarrow> dp_state \<Rightarrow> outcome" where
  "go_pass pkt_len p st = Some (XDP_PASS, p, bump_stats STAT_PASS pkt_len st)"

definition go_drop :: "u64 \<Rightarrow> frame \<Rightarrow> dp_state \<Rightarrow> outcome" where
  "go_drop pkt_len p st = Some (XDP_DROP, p, bump_stats STAT_DROP pkt_len st)"

definition go_redirect :: "u64 \<Rightarrow> rule_slot \<Rightarrow> fwd_rule \<Rightarrow> frame \<Rightarrow> dp_state \<Rightarrow> outcome" where
  "go_redirect pkt_len slot rule p st =
     (let st = map_write slot (bump_rule pkt_len rule) st;
          st = bump_stats STAT_REDIRECT pkt_len st
      in Some (redirect_out st (OutIfindex rule), p, st))"

text \<open>\<open>bump_rule(rule, pkt_len)\<close> followed by the drop.\<close>

definition go_drop_counted :: "u64 \<Rightarrow> rule_slot \<Rightarrow> fwd_rule \<Rightarrow> frame \<Rightarrow> dp_state \<Rightarrow> outcome" where
  "go_drop_counted pkt_len slot rule p st =
     go_drop pkt_len p (map_write slot (bump_rule pkt_len rule) st)"

text \<open>\<open>CURSOR_ADVANCE\<close>: a header that does not fit drops the frame; no counter is touched.\<close>

definition cursor_advance ::
  "frame \<Rightarrow> dp_state \<Rightarrow> nat \<Rightarrow> nat \<Rightarrow> (nat \<Rightarrow> outcome) \<Rightarrow> outcome" where
  "cursor_advance p st cursor sz k =
     (if length p < cursor + sz then Some (XDP_DROP, p, st) else k (cursor + sz))"

section \<open>try_encap\<close>

definition try_encap_ueip ::
  "adjust_head \<Rightarrow> u64 \<Rightarrow> u32 \<Rightarrow> u64 \<Rightarrow> frame \<Rightarrow> dp_state \<Rightarrow> outcome" where
  "try_encap_ueip adj now key pkt_len p st =
     (case ueip_map st key of
        None \<Rightarrow> go_pass pkt_len p st
      | Some rule \<Rightarrow>
          if Action rule \<noteq> ActionEncapFwd then go_pass pkt_len p st
          else case enforce_policy now rule of (blocked, rule) \<Rightarrow>
            let st = map_write (UeipSlot key) rule st in
            if blocked then go_drop_counted pkt_len (UeipSlot key) rule p st
            else do {(ok, p) \<leftarrow> encap_gtpu adj rule p;
              if \<not> ok then go_drop pkt_len p st
              else go_redirect pkt_len (UeipSlot key) rule p st})"

definition try_encap ::
  "adjust_head \<Rightarrow> u64 \<Rightarrow> u32 \<Rightarrow> u64 \<Rightarrow> frame \<Rightarrow> dp_state \<Rightarrow> outcome" where
  "try_encap adj now key pkt_len p st =
     (case nat_map st key of
        None \<Rightarrow> try_encap_ueip adj now key pkt_len p st
      | Some nr \<Rightarrow>
          if Action nr \<noteq> ActionEncapFwd then try_encap_ueip adj now key pkt_len p st
          else case enforce_policy now nr of (blocked, nr) \<Rightarrow>
            let st = map_write (NatSlot key) nr st in
            if blocked then go_drop_counted pkt_len (NatSlot key) nr p st
            else do {(ok, p) \<leftarrow> nat_dst_rewrite p key (NatIP nr);
              if \<not> ok then go_drop pkt_len p st
              else do {(ok, p) \<leftarrow> encap_gtpu_5g adj nr p;
                if \<not> ok then go_drop pkt_len p st
                else go_redirect pkt_len (NatSlot key) nr p st}})"

section \<open>xdp_gtp_router\<close>

text \<open>
  The walk over the GTP-U extension headers, at most \<open>n\<close> of them: a fault, \<open>goto drop\<close>
  (\<open>Some None\<close>) or the cursor behind the chain and the size of the optional part.
\<close>

fun ext_walk :: "nat \<Rightarrow> frame \<Rightarrow> nat \<Rightarrow> u8 \<Rightarrow> nat \<Rightarrow> (nat \<times> nat) option option" where
  "ext_walk 0 p cursor next_ext opt_sz = Some (Some (cursor, opt_sz))"
| "ext_walk (Suc n) p cursor next_ext opt_sz =
     (if next_ext = 0 then Some (Some (cursor, opt_sz))
      else if length p < cursor + 1 then Some None
      else do {len \<leftarrow> load8 p cursor;
        let ext_sz = unat len * 4;
        if ext_sz < 4 then Some None
        else if length p < cursor + ext_sz - 1 + 1 then Some None
        else do {next_ext \<leftarrow> load8 p (cursor + ext_sz - 1);
          if length p < cursor + ext_sz then Some None
          else ext_walk n p (cursor + ext_sz) next_ext (opt_sz + ext_sz)}})"

text \<open>The optional fields behind the mandatory GTP-U header.\<close>

definition gtpu_options ::
  "u64 \<Rightarrow> frame \<Rightarrow> dp_state \<Rightarrow> u8 \<Rightarrow> nat \<Rightarrow> (nat \<Rightarrow> nat \<Rightarrow> outcome) \<Rightarrow> outcome" where
  "gtpu_options pkt_len p st flags cursor k =
     (if flags AND GTPU_OPT_FLAG_MASK = 0 then k cursor 0
      else cursor_advance p st cursor 4 (\<lambda>cursor.
        do {next_ext \<leftarrow> load8 p (cursor - 1);
          walked \<leftarrow> ext_walk 4 p cursor next_ext 4;
          case walked of
            None \<Rightarrow> go_drop pkt_len p st
          | Some (cursor, opt_sz) \<Rightarrow> k cursor opt_sz}))"

text \<open>The rule of a G-PDU: by TEID, else by the inner destination address.\<close>

definition find_rule :: "dp_state \<Rightarrow> u32 \<Rightarrow> u32 \<Rightarrow> (rule_slot \<times> fwd_rule) option" where
  "find_rule st teid ue_ip =
     (case teid_map st teid of
        Some rule \<Rightarrow> Some (TeidSlot teid, rule)
      | None \<Rightarrow>
          (case ueip_map st ue_ip of
             Some rule \<Rightarrow> Some (UeipSlot ue_ip, rule)
           | None \<Rightarrow> None))"

text \<open>The \<open>switch\<close> on the action of the matched rule.\<close>

definition apply_action ::
  "adjust_head \<Rightarrow> u64 \<Rightarrow> nat \<Rightarrow> u32 \<Rightarrow> rule_slot \<Rightarrow> fwd_rule \<Rightarrow> frame \<Rightarrow> dp_state \<Rightarrow> outcome" where
  "apply_action adj pkt_len strip inner_src slot rule p st =
     (if Action rule = ActionDrop then go_drop_counted pkt_len slot rule p st
      else if Action rule = ActionDecapFwd then
        do {(ok, p) \<leftarrow> decap_gtpu adj rule strip p;
          if \<not> ok then go_drop pkt_len p st
          else if NatIP rule \<noteq> 0 then
            do {(ok, p) \<leftarrow> nat_src_rewrite p inner_src (NatIP rule);
              if \<not> ok then go_drop pkt_len p st
              else go_redirect pkt_len slot rule p st}
          else go_redirect pkt_len slot rule p st}
      else if Action rule = ActionRedirect then
        do {p \<leftarrow> rewrite_eth rule p; go_redirect pkt_len slot rule p st}
      else if Action rule = ActionEncapFwd then go_pass pkt_len p st
      else go_drop pkt_len p st)"

definition handle_gpdu ::
  "adjust_head \<Rightarrow> u64 \<Rightarrow> u64 \<Rightarrow> nat \<Rightarrow> u32 \<Rightarrow> u32 \<Rightarrow> u32 \<Rightarrow> frame \<Rightarrow> dp_state \<Rightarrow> outcome" where
  "handle_gpdu adj now pkt_len strip teid inner_src ue_ip p st =
     (case find_rule st teid ue_ip of
        None \<Rightarrow> go_pass pkt_len p st
      | Some (slot, rule) \<Rightarrow>
          (case enforce_policy now rule of (blocked, rule) \<Rightarrow>
            let st = map_write slot rule st in
            if blocked then go_drop_counted pkt_len slot rule p st
            else apply_action adj pkt_len strip inner_src slot rule p st))"

text \<open>The inner packet at \<open>cursor\<close>: it must be IPv4.\<close>

definition handle_inner ::
  "adjust_head \<Rightarrow> u64 \<Rightarrow> u64 \<Rightarrow> nat \<Rightarrow> u32 \<Rightarrow> frame \<Rightarrow> dp_state \<Rightarrow> nat \<Rightarrow> nat \<Rightarrow> outcome" where
  "handle_inner adj now pkt_len ip_hdr_len teid p st cursor opt_sz =
     cursor_advance p st cursor 20 (\<lambda>after.
       do {vi \<leftarrow> load8 p cursor;
         if drop_bit 4 vi \<noteq> 4 then go_pass pkt_len p st
         else do {ue_ip \<leftarrow> load32 p (cursor + 16);
           saved_inner_src \<leftarrow> load32 p (cursor + 12);
           handle_gpdu adj now pkt_len (ip_hdr_len + 8 + 8 + opt_sz) teid saved_inner_src
             ue_ip p st}})"

text \<open>A GTP-U message: \<open>cursor\<close> is behind the mandatory header, which starts 8 bytes before it.\<close>

definition handle_gtpu ::
  "adjust_head \<Rightarrow> u64 \<Rightarrow> u64 \<Rightarrow> nat \<Rightarrow> frame \<Rightarrow> dp_state \<Rightarrow> nat \<Rightarrow> outcome" where
  "handle_gtpu adj now pkt_len ip_hdr_len p st cursor =
     do {flags \<leftarrow> load8 p (cursor - 8);
       msg_type \<leftarrow> load8 p (cursor - 7);
       if flags AND 0xE0 \<noteq> GTP_VERSION_1 then go_pass pkt_len p st
       else if flags AND GTP_PT_BIT = 0 then go_pass pkt_len p st
       else if msg_type \<noteq> GTPU_MSG_GPDU then go_pass pkt_len p st
       else do {teid \<leftarrow> load32 p (cursor - 4);
         gtpu_options pkt_len p st flags cursor
           (handle_inner adj now pkt_len ip_hdr_len teid p st)}}"

definition xdp_gtp_router :: "adjust_head \<Rightarrow> u64 \<Rightarrow> frame \<Rightarrow> dp_state \<Rightarrow> outcome" where
  "xdp_gtp_router adj now p st =
     (let pkt_len = of_nat (length p) in
      cursor_advance p st 0 14 (\<lambda>cursor.
        do {h_proto \<leftarrow> load16 p 12;
          if h_proto \<noteq> ETH_P_IP then go_pass pkt_len p st
          else cursor_advance p st cursor 20 (\<lambda>cursor.
            do {vi \<leftarrow> load8 p 14;
              proto \<leftarrow> load8 p 23;
              daddr \<leftarrow> load32 p 30;
              if drop_bit 4 vi \<noteq> 4 \<or> vi AND 0xf < 5 then go_pass pkt_len p st
              else if proto \<noteq> 17 then try_encap adj now daddr pkt_len p st
              else let ip_hdr_len = unat (vi AND 0xf) * 4;
                       cursor = 14 + ip_hdr_len
                in if length p < cursor then go_pass pkt_len p st
                   else cursor_advance p st cursor 8 (\<lambda>cursor.
                     do {dest \<leftarrow> load16 p (cursor - 6);
                       if dest \<noteq> GTP_UDP_PORT then try_encap adj now daddr pkt_len p st
                       else cursor_advance p st cursor 8
                         (handle_gtpu adj now pkt_len ip_hdr_len p st)})})}))"

section \<open>The laws of the helper\<close>

locale xdp_head =
  fixes adj :: adjust_head
  assumes shrink: "adj (int n) p = Some q \<Longrightarrow> n \<le> length p \<and> q = drop n p"
    and grow: "adj (- int n) p = Some q \<Longrightarrow> \<exists>fresh. length fresh = n \<and> q = fresh @ p"

text \<open>
  A driver with \<open>room\<close> bytes of headroom: it grows the frame into the headroom (zeroed here) and
  leaves at least an Ethernet header when it shrinks it.
\<close>

definition ref_adjust :: "nat \<Rightarrow> adjust_head" where
  "ref_adjust room delta p =
     (if 0 \<le> delta then if nat delta + 14 \<le> length p then Some (drop (nat delta) p) else None
      else if nat (- delta) \<le> room then Some (replicate (nat (- delta)) 0 @ p) else None)"

interpretation ref_head: xdp_head "ref_adjust room" for room
  by unfold_locales (auto simp: ref_adjust_def split: if_splits)

section \<open>Accesses stay inside the frame\<close>

lemma load_in [simp]:
  "i < length p \<Longrightarrow> load8 p i = Some (p ! i)"
  "i + 1 < length p \<Longrightarrow> load16 p i = Some (be16 (p ! i) (p ! (i + 1)))"
  "i + 3 < length p \<Longrightarrow>
     load32 p i = Some (be32 (p ! i) (p ! (i + 1)) (p ! (i + 2)) (p ! (i + 3)))"
  by (simp_all add: load8_def load16_def load32_def)

lemma store_in:
  "i + length bs \<le> length p \<Longrightarrow> store p i bs = Some (take i p @ bs @ drop (i + length bs) p)"
  by (simp add: store_def)

lemma store_length: "store p i bs = Some q \<Longrightarrow> length q = length p"
  by (auto simp: store_def split: if_splits)

text \<open>\<open>safe r\<close>: the run \<open>r\<close> made no access outside the frame. It composes along the code.\<close>

definition safe :: "'a option \<Rightarrow> bool" where
  "safe r \<longleftrightarrow> r \<noteq> None"

lemma safe_intros:
  "safe (Some x)"
  "safe m \<Longrightarrow> (\<And>x. m = Some x \<Longrightarrow> safe (f x)) \<Longrightarrow> safe (m \<bind> f)"
  "(b \<Longrightarrow> safe r) \<Longrightarrow> (\<not> b \<Longrightarrow> safe s) \<Longrightarrow> safe (if b then r else s)"
  by (auto simp: safe_def)

lemma safe_case:
  "(opt = None \<Longrightarrow> safe r) \<Longrightarrow> (\<And>x. opt = Some x \<Longrightarrow> safe (g x)) \<Longrightarrow>
     safe (case opt of None \<Rightarrow> r | Some x \<Rightarrow> g x)"
  "(\<And>x y. pr = (x, y) \<Longrightarrow> safe (h x y)) \<Longrightarrow> safe (case pr of (x, y) \<Rightarrow> h x y)"
  by (auto split: option.splits prod.splits)

lemma safe_access:
  "i < length p \<Longrightarrow> safe (load8 p i)"
  "i + 1 < length p \<Longrightarrow> safe (load16 p i)"
  "i + 3 < length p \<Longrightarrow> safe (load32 p i)"
  "i + length bs \<le> length p \<Longrightarrow> safe (store p i bs)"
  by (simp_all add: safe_def store_in)

lemma safe_go:
  "safe (go_pass n p st)" "safe (go_drop n p st)" "safe (go_redirect n slot rule p st)"
  "safe (go_drop_counted n slot rule p st)"
  by (simp_all add: safe_def go_pass_def go_drop_def go_redirect_def go_drop_counted_def Let_def)

lemma safe_cursor_advance:
  "(cursor + sz \<le> length p \<Longrightarrow> safe (k (cursor + sz))) \<Longrightarrow> safe (cursor_advance p st cursor sz k)"
  by (simp add: cursor_advance_def safe_def)

lemmas safe_rules = safe_intros safe_case safe_go

lemma safe_update_check: "off + 1 < length p \<Longrightarrow> safe (update_check p off a b)"
  by (simp add: update_check_def store_in safe_def)

lemma update_check_length: "update_check p off a b = Some q \<Longrightarrow> length q = length p"
  by (auto simp: update_check_def bind_eq_Some_conv dest: store_length)

lemma safe_update_check_if_set: "off + 1 < length p \<Longrightarrow> safe (update_check_if_set p off a b)"
  by (simp add: update_check_if_set_def store_in update_check_def safe_def)

lemma safe_rewrite_l4: "24 \<le> length p \<Longrightarrow> safe (rewrite_l4 p ihl a b)"
  unfolding rewrite_l4_def
  by (intro safe_rules safe_access safe_update_check_if_set) auto

lemma safe_nat_rewrite:
  assumes "field \<le> 16"
  shows "safe (nat_rewrite field p a b)"
  unfolding nat_rewrite_def Let_def
  by (intro safe_rules safe_access safe_update_check safe_rewrite_l4)
     (use assms in \<open>auto dest!: store_length update_check_length\<close>)

lemma safe_ext_walk: "safe (ext_walk n p cursor nx opt)"
  by (induction n arbitrary: cursor nx opt)
     (auto simp: Let_def intro!: safe_rules safe_access)

lemma safe_decap:
  "safe (decap_gtpu adj rule n p)"
  unfolding decap_gtpu_def by (intro safe_rules safe_access) (auto dest: store_length)

lemma length_encap_headers [simp]:
  "length (encap_headers rule t) = 14 + ENCAP_OVERHEAD"
  "length (encap_5g_headers rule t) = 14 + ENCAP_5G_OVERHEAD"
  by (simp_all add: encap_headers_def encap_5g_headers_def ENCAP_OVERHEAD_def
      ENCAP_5G_OVERHEAD_def)

lemma safe_encap:
  "safe (encap_gtpu adj rule p)" "safe (encap_gtpu_5g adj rule p)"
  unfolding encap_gtpu_def encap_gtpu_5g_def encap_with_def
  by (intro safe_rules safe_access; simp)+

lemma safe_try_encap_ueip: "safe (try_encap_ueip adj now key n p st)"
  unfolding try_encap_ueip_def Let_def by (intro safe_rules safe_encap)

lemma safe_try_encap: "safe (try_encap adj now key n p st)"
  unfolding try_encap_def Let_def nat_dst_rewrite_def
  by (intro safe_rules safe_encap safe_try_encap_ueip safe_nat_rewrite) simp

lemma safe_apply_action:
  "14 \<le> length p \<Longrightarrow> safe (apply_action adj n strip src slot rule p st)"
  unfolding apply_action_def nat_src_rewrite_def rewrite_eth_def
  by (intro safe_rules safe_decap safe_nat_rewrite safe_access) simp_all

lemma safe_handle_gtpu:
  assumes "8 \<le> cursor" and "cursor \<le> length p" and "14 \<le> length p"
  shows "safe (handle_gtpu adj now n hl p st cursor)"
  unfolding handle_gtpu_def handle_inner_def gtpu_options_def handle_gpdu_def Let_def
  by (intro safe_rules safe_access safe_cursor_advance safe_ext_walk safe_apply_action)
     (use assms in auto)

lemma safe_router: "safe (xdp_gtp_router adj now p st)"
  unfolding xdp_gtp_router_def Let_def
  by (intro safe_rules safe_access safe_cursor_advance safe_try_encap safe_handle_gtpu) auto

end
