(* ===== verification/Races.thy ===== *)
theory Races
  imports DataPlane
begin

text \<open>
  The packets of one rule on several CPUs. \<open>enforce_policy\<close> and \<open>bump_rule\<close> of \<open>ebpf/gtp_xdp.c\<close> work
  by plain loads and stores on the memory of the map value, which all CPUs share: \<open>pc_step\<close> is one
  such access of one CPU, \<open>smp_run\<close> a schedule of accesses of any number of CPUs. A value the
  function has just loaded or stored stays in a register and is not loaded again, as in the
  compiled program; so the test of \<open>window_count\<close> and its increment share one load. The
  configuration fields are not written by the data plane, so reading them is part of the next access.
\<close>

section \<open>One access of one CPU\<close>

text \<open>Where a CPU stands in \<open>enforce_policy\<close>, with the registers it still needs.\<close>

datatype pc =
    Idle
  | Until u64          \<comment> \<open>load \<open>quarantine_until_ns\<close>\<close>
  | Release u64        \<comment> \<open>\<open>quarantine_until_ns = 0\<close>\<close>
  | Unstreak u64       \<comment> \<open>\<open>violation_streak = 0\<close>\<close>
  | Window u64         \<comment> \<open>load \<open>window_start_ns\<close>\<close>
  | Violated u64       \<comment> \<open>load \<open>window_violated\<close>\<close>
  | Streak u64         \<comment> \<open>load \<open>violation_streak\<close>\<close>
  | Scored u64 u32     \<comment> \<open>\<open>violation_streak++\<close>\<close>
  | Quarantine u64     \<comment> \<open>\<open>quarantine_until_ns = now + ...\<close>\<close>
  | Reset u64          \<comment> \<open>\<open>violation_streak = 0\<close>\<close>
  | Open u64           \<comment> \<open>\<open>window_start_ns = now\<close>\<close>
  | Empty              \<comment> \<open>\<open>window_count = 0\<close>\<close>
  | Unmark             \<comment> \<open>\<open>window_violated = 0\<close>\<close>
  | Count              \<comment> \<open>load \<open>window_count\<close>\<close>
  | Take u32           \<comment> \<open>\<open>window_count++\<close>\<close>
  | Mark               \<comment> \<open>\<open>window_violated = 1\<close>\<close>
  | Drops              \<comment> \<open>load \<open>rate_drop_count\<close>\<close>
  | Dropped u64        \<comment> \<open>\<open>rate_drop_count++\<close>\<close>

text \<open>The verdict is \<open>None\<close> until the function returns; \<open>Some True\<close> is its 1 (drop).\<close>

definition past_quarantine :: "u64 \<Rightarrow> fwd_rule \<Rightarrow> pc \<times> fwd_rule \<times> bool option" where
  "past_quarantine now rule =
     (if RatePPS rule = 0 then (Idle, rule, Some False) else (Window now, rule, None))"

fun pc_step :: "u64 \<Rightarrow> pc \<Rightarrow> fwd_rule \<Rightarrow> pc \<times> fwd_rule \<times> bool option" where
  "pc_step clock Idle rule = (Until clock, rule, None)"
| "pc_step clock (Until now) rule =
     (if QuarantineUntilNs rule \<noteq> 0
      then if now < QuarantineUntilNs rule then (Idle, rule, Some True)
           else (Release now, rule, None)
      else past_quarantine now rule)"
| "pc_step clock (Release now) rule = (Unstreak now, rule\<lparr>QuarantineUntilNs := 0\<rparr>, None)"
| "pc_step clock (Unstreak now) rule = past_quarantine now (rule\<lparr>ViolationStreak := 0\<rparr>)"
| "pc_step clock (Window now) rule =
     (if second \<le> now - WindowStartNs rule then (Violated now, rule, None)
      else (Count, rule, None))"
| "pc_step clock (Violated now) rule =
     (if WindowViolated rule \<noteq> 0 then (Streak now, rule, None) else (Reset now, rule, None))"
| "pc_step clock (Streak now) rule = (Scored now (ViolationStreak rule + 1), rule, None)"
| "pc_step clock (Scored now streak) rule =
     (if QuarantineThreshold rule \<noteq> 0 \<and> QuarantineThreshold rule \<le> streak
      then (Quarantine now, rule\<lparr>ViolationStreak := streak\<rparr>, None)
      else (Open now, rule\<lparr>ViolationStreak := streak\<rparr>, None))"
| "pc_step clock (Quarantine now) rule =
     (Reset now,
      rule\<lparr>QuarantineUntilNs := now + ucast (QuarantineSeconds rule) * second\<rparr>, None)"
| "pc_step clock (Reset now) rule = (Open now, rule\<lparr>ViolationStreak := 0\<rparr>, None)"
| "pc_step clock (Open now) rule = (Empty, rule\<lparr>WindowStartNs := now\<rparr>, None)"
| "pc_step clock Empty rule = (Unmark, rule\<lparr>WindowCount := 0\<rparr>, None)"
| "pc_step clock Unmark rule = (Take 0, rule\<lparr>WindowViolated := 0\<rparr>, None)"
| "pc_step clock Count rule =
     (if RatePPS rule \<le> WindowCount rule then (Mark, rule, None)
      else (Take (WindowCount rule), rule, None))"
| "pc_step clock (Take count) rule = (Idle, rule\<lparr>WindowCount := count + 1\<rparr>, Some False)"
| "pc_step clock Mark rule = (Drops, rule\<lparr>WindowViolated := 1\<rparr>, None)"
| "pc_step clock Drops rule = (Dropped (RateDropCount rule), rule, None)"
| "pc_step clock (Dropped drops) rule =
     (Idle, rule\<lparr>RateDropCount := drops + 1\<rparr>, Some True)"

text \<open>Accesses left until the verdict, at most.\<close>

fun accesses_left :: "pc \<Rightarrow> nat" where
  "accesses_left Idle = 14"
| "accesses_left (Until now) = 13"
| "accesses_left (Release now) = 12"
| "accesses_left (Unstreak now) = 11"
| "accesses_left (Window now) = 10"
| "accesses_left (Violated now) = 9"
| "accesses_left (Streak now) = 8"
| "accesses_left (Scored now streak) = 7"
| "accesses_left (Quarantine now) = 6"
| "accesses_left (Reset now) = 5"
| "accesses_left (Open now) = 4"
| "accesses_left Empty = 3"
| "accesses_left Unmark = 2"
| "accesses_left Count = 4"
| "accesses_left (Take count) = 1"
| "accesses_left Mark = 3"
| "accesses_left Drops = 2"
| "accesses_left (Dropped drops) = 1"

lemma accesses_left_bounds: "1 \<le> accesses_left p" "accesses_left p \<le> 14"
  by (cases p; simp)+

lemma pc_step_progress:
  assumes "pc_step clock p rule = (q, rule1, v)"
  shows "v = None \<and> Suc (accesses_left q) \<le> accesses_left p \<or> v \<noteq> None \<and> q = Idle"
  using assms by (cases p) (auto simp: past_quarantine_def split: if_splits)

section \<open>A schedule of several CPUs\<close>

record smp =
  cpus :: "pc list"
  shared :: fwd_rule
  verdicts :: "(nat \<times> bool) list"

definition smp_step :: "nat \<times> u64 \<Rightarrow> smp \<Rightarrow> smp" where
  "smp_step e s =
     (case e of (i, clock) \<Rightarrow>
        if i < length (cpus s)
        then case pc_step clock (cpus s ! i) (shared s) of (p, rule, v) \<Rightarrow>
               s\<lparr>cpus := (cpus s)[i := p], shared := rule,
                 verdicts := verdicts s @ (case v of None \<Rightarrow> [] | Some d \<Rightarrow> [(i, d)])\<rparr>
        else s)"

fun smp_run :: "(nat \<times> u64) list \<Rightarrow> smp \<Rightarrow> smp" where
  "smp_run [] s = s"
| "smp_run (e # es) s = smp_run es (smp_step e s)"

definition smp_start :: "nat \<Rightarrow> fwd_rule \<Rightarrow> smp" where
  "smp_start n rule = \<lparr>cpus = replicate n Idle, shared = rule, verdicts = []\<rparr>"

definition admits :: "smp \<Rightarrow> nat" where
  "admits s = length (filter (\<lambda>v. \<not> snd v) (verdicts s))"

definition drops :: "smp \<Rightarrow> nat" where
  "drops s = length (filter snd (verdicts s))"

definition decided :: "nat \<Rightarrow> smp \<Rightarrow> nat" where
  "decided i s = length (filter (\<lambda>v. fst v = i) (verdicts s))"

lemma smp_run_append: "smp_run (es @ fs) s = smp_run fs (smp_run es s)"
  by (induction es arbitrary: s) auto

text \<open>What one event does, for proofs by cases.\<close>

lemma smp_step_cases:
  obtains (Skip) "length (cpus s) \<le> i" "smp_step (i, t) s = s"
    | (Silent) p rule where "i < length (cpus s)"
        "pc_step t (cpus s ! i) (shared s) = (p, rule, None)"
        "cpus (smp_step (i, t) s) = (cpus s)[i := p]" "shared (smp_step (i, t) s) = rule"
        "verdicts (smp_step (i, t) s) = verdicts s"
    | (Verdict) p rule d where "i < length (cpus s)"
        "pc_step t (cpus s ! i) (shared s) = (p, rule, Some d)"
        "cpus (smp_step (i, t) s) = (cpus s)[i := p]" "shared (smp_step (i, t) s) = rule"
        "verdicts (smp_step (i, t) s) = verdicts s @ [(i, d)]"
proof (cases "i < length (cpus s)")
  case False
  then show ?thesis by (intro Skip) (auto simp: smp_step_def)
next
  case True
  obtain p rule v where e: "pc_step t (cpus s ! i) (shared s) = (p, rule, v)"
    by (metis prod_cases3)
  show ?thesis
  proof (cases v)
    case None
    with True e show ?thesis by (intro Silent [of p rule]) (auto simp: smp_step_def)
  next
    case (Some d)
    with True e show ?thesis by (intro Verdict [of p rule d]) (auto simp: smp_step_def)
  qed
qed

lemma smp_step_length [simp]: "length (cpus (smp_step e s)) = length (cpus s)"
  by (auto simp: smp_step_def split: prod.splits)

lemma smp_run_length [simp]: "length (cpus (smp_run es s)) = length (cpus s)"
  by (induction es arbitrary: s) auto

section \<open>A CPU that runs alone\<close>

fun solo :: "nat \<Rightarrow> u64 \<Rightarrow> pc \<Rightarrow> fwd_rule \<Rightarrow> (bool \<times> fwd_rule) option" where
  "solo 0 clock p rule = None"
| "solo (Suc n) clock p rule =
     (case pc_step clock p rule of (q, rule1, v) \<Rightarrow>
        (case v of None \<Rightarrow> solo n clock q rule1 | Some d \<Rightarrow> Some (d, rule1)))"

lemma solo_enough: "accesses_left p \<le> n \<Longrightarrow> \<exists>x. solo n clock p rule = Some x"
proof (induction n arbitrary: p rule)
  case 0
  then show ?case using accesses_left_bounds(1) [of p] by simp
next
  case (Suc n)
  obtain q rule1 v where e: "pc_step clock p rule = (q, rule1, v)" by (metis prod_cases3)
  show ?case
    using pc_step_progress [OF e] Suc.IH [of q rule1] Suc.prems
    by (cases v) (auto simp: e)
qed

text \<open>From each point on, running alone does what the rest of \<open>enforce_policy\<close> does.\<close>

lemma solo_window:
  assumes "RatePPS rule \<noteq> 0"
  shows "solo 10 t (Window now) rule = Some (take_slot (roll_window now rule))"
  using assms by (simp add: eval_nat_numeral roll_window_def score_window_def take_slot_def Let_def)

lemma solo_more: "solo n t p rule = Some x \<Longrightarrow> n \<le> m \<Longrightarrow> solo m t p rule = Some x"
proof (induction n arbitrary: m p rule)
  case (Suc n)
  obtain k where m: "m = Suc k" "n \<le> k" using Suc.prems(2) by (cases m) auto
  obtain q rule1 v where e: "pc_step t p rule = (q, rule1, v)" by (metis prod_cases3)
  show ?case using Suc.prems(1) Suc.IH m by (cases v) (auto simp: e)
qed simp

lemma solo_idle: "solo 14 now Idle rule = Some (enforce_policy now rule)"
proof -
  have w: "solo 13 now (Until now) rule = Some (enforce_policy now rule)"
  proof (cases "QuarantineUntilNs rule = 0")
    case True
    then have "solo 12 now (Window now) rule = Some (take_slot (roll_window now rule))"
      if "RatePPS rule \<noteq> 0"
      using solo_more [OF solo_window [OF that]] by simp
    with True show ?thesis
      using solo.simps(2) [of 12 now "Until now" rule]
      by (simp add: past_quarantine_def enforce_policy_def held_def self_release_def del: solo.simps)
  next
    case False
    let ?r = "rule\<lparr>QuarantineUntilNs := 0, ViolationStreak := 0\<rparr>"
    have "solo 10 now (Window now) ?r = Some (take_slot (roll_window now ?r))"
      if "RatePPS rule \<noteq> 0"
      using solo_window [of ?r now now] that by simp
    with False show ?thesis
      using solo.simps(2) [of 12 now "Until now" rule] solo.simps(2) [of 11 now "Release now" rule]
        solo.simps(2) [of 10 now "Unstreak now" "rule\<lparr>QuarantineUntilNs := 0\<rparr>"]
      by (simp add: past_quarantine_def enforce_policy_def held_def self_release_def del: solo.simps)
  qed
  show ?thesis using solo.simps(2) [of 13 now Idle rule] w by (simp del: solo.simps)
qed

text \<open>A run of a CPU alone is a block of the schedule.\<close>

lemma smp_step_alone:
  assumes "i < length (cpus s)" and "pc_step t (cpus s ! i) (shared s) = (p, rule, v)"
  shows "smp_step (i, t) s = s\<lparr>cpus := (cpus s)[i := p], shared := rule,
    verdicts := verdicts s @ (case v of None \<Rightarrow> [] | Some d \<Rightarrow> [(i, d)])\<rparr>"
  using assms by (simp add: smp_step_def)

lemma solo_block:
  assumes "i < length (cpus s)" and "solo n t (cpus s ! i) (shared s) = Some (d, rule)"
  shows "\<exists>k \<le> n. smp_run (replicate k (i, t)) s =
    s\<lparr>cpus := (cpus s)[i := Idle], shared := rule, verdicts := verdicts s @ [(i, d)]\<rparr>"
  using assms
proof (induction n arbitrary: s)
  case (Suc n)
  obtain q rule1 v where e: "pc_step t (cpus s ! i) (shared s) = (q, rule1, v)"
    by (metis prod_cases3)
  note s = smp_step_alone [OF Suc.prems(1) e]
  show ?case
  proof (cases v)
    case None
    let ?s = "smp_step (i, t) s"
    have "solo n t (cpus ?s ! i) (shared ?s) = Some (d, rule)"
      using Suc.prems e None by (simp add: s)
    with Suc.IH [of ?s] Suc.prems(1) obtain k where "k \<le> n" and
      "smp_run (replicate k (i, t)) ?s =
        ?s\<lparr>cpus := (cpus ?s)[i := Idle], shared := rule, verdicts := verdicts ?s @ [(i, d)]\<rparr>"
      by auto
    then show ?thesis by (intro exI [of _ "Suc k"]) (simp add: s None)
  next
    case (Some d')
    then have "q = Idle" using pc_step_progress [OF e] by simp
    with Some Suc.prems(2) e s show ?thesis by (intro exI [of _ "Suc 0"]) simp
  qed
qed simp

lemma idle_block:
  assumes "i < length (cpus s)" and "cpus s ! i = Idle"
    and "enforce_policy t (shared s) = (d, rule)"
  shows "\<exists>k \<le> 14. smp_run (replicate k (i, t)) s =
    s\<lparr>shared := rule, verdicts := verdicts s @ [(i, d)]\<rparr>"
proof -
  have "solo 14 t (cpus s ! i) (shared s) = Some (d, rule)"
    using assms(2,3) by (simp add: solo_idle del: solo.simps)
  from solo_block [OF assms(1) this] show ?thesis
    using assms(2) by (metis list_update_id smp.surjective smp.update_convs(1))
qed

lemma serial_police:
  assumes "\<forall>(i, t) \<in> set ps. i < length (cpus s)" and "set (cpus s) \<subseteq> {Idle}"
    and "police (map snd ps) (shared s) = (ds, rule)"
  shows "\<exists>ks. length ks = length ps \<and> (\<forall>k \<in> set ks. k \<le> 14)
    \<and> smp_run (concat (map2 replicate ks ps)) s =
        s\<lparr>shared := rule, verdicts := verdicts s @ zip (map fst ps) ds\<rparr>"
  using assms
proof (induction ps arbitrary: s ds)
  case (Cons e ps)
  obtain i t where e: "e = (i, t)" by fastforce
  obtain d rule1 where p: "enforce_policy t (shared s) = (d, rule1)" by fastforce
  obtain ds1 where q: "police (map snd ps) rule1 = (ds1, rule)" "ds = d # ds1"
    using Cons.prems(3) e p by (auto split: prod.splits)
  have i: "i < length (cpus s)" using Cons.prems(1) e by auto
  moreover have "cpus s ! i = Idle" using Cons.prems(2) i nth_mem by blast
  ultimately obtain k where k: "k \<le> 14" "smp_run (replicate k (i, t)) s =
      s\<lparr>shared := rule1, verdicts := verdicts s @ [(i, d)]\<rparr>"
    using idle_block p by blast
  let ?s = "s\<lparr>shared := rule1, verdicts := verdicts s @ [(i, d)]\<rparr>"
  obtain ks where ks: "length ks = length ps" "\<forall>k \<in> set ks. k \<le> 14"
    "smp_run (concat (map2 replicate ks ps)) ?s =
      ?s\<lparr>shared := rule, verdicts := verdicts ?s @ zip (map fst ps) ds1\<rparr>"
    using Cons.IH [of ?s ds1] Cons.prems q by auto
  show ?case
    by (rule exI [of _ "k # ks"]) (use k ks e q in \<open>simp add: smp_run_append\<close>)
qed (auto intro!: exI [of _ "[]"])

section \<open>Every packet is decided\<close>

definition progress :: "nat \<Rightarrow> smp \<Rightarrow> nat" where
  "progress i s = 14 * decided i s + (14 - accesses_left (cpus s ! i))"

lemma smp_step_progress:
  assumes "i < length (cpus s)"
  shows "progress i s + (if j = i then 1 else 0) \<le> progress i (smp_step (j, t) s)"
proof (cases rule: smp_step_cases [where i = j and t = t and s = s])
  case Skip
  then show ?thesis using assms by simp
next
  case (Silent p rule)
  from pc_step_progress [OF Silent(2)] show ?thesis
    using Silent accesses_left_bounds [of "cpus s ! j"]
    by (auto simp: progress_def decided_def)
next
  case (Verdict p rule d)
  from pc_step_progress [OF Verdict(2)] show ?thesis
    using Verdict accesses_left_bounds [of "cpus s ! j"]
    by (auto simp: progress_def decided_def)
qed

lemma smp_run_progress:
  assumes "i < length (cpus s)"
  shows "progress i s + length (filter (\<lambda>e. fst e = i) es) \<le> progress i (smp_run es s)"
  using assms
proof (induction es arbitrary: s)
  case (Cons e es)
  obtain j t where e: "e = (j, t)" by fastforce
  show ?case
    using Cons.IH [of "smp_step e s"] Cons.prems smp_step_progress [OF Cons.prems, of j t] e
    by auto
qed simp

section \<open>What every interleaving keeps\<close>

text \<open>The registers of a CPU are never ahead of the cap or of the drops decided so far.\<close>

definition pc_ok :: "fwd_rule \<Rightarrow> nat \<Rightarrow> u32 \<Rightarrow> pc \<Rightarrow> bool" where
  "pc_ok rule0 k rate p =
     (case p of Take c \<Rightarrow> c < rate
      | Dropped d \<Rightarrow> \<exists>j \<le> k. d = RateDropCount rule0 + of_nat j
      | Window _ \<Rightarrow> rate \<noteq> 0 | Violated _ \<Rightarrow> rate \<noteq> 0 | Streak _ \<Rightarrow> rate \<noteq> 0
      | Scored _ _ \<Rightarrow> rate \<noteq> 0 | Quarantine _ \<Rightarrow> rate \<noteq> 0 | Reset _ \<Rightarrow> rate \<noteq> 0
      | Open _ \<Rightarrow> rate \<noteq> 0 | Empty \<Rightarrow> rate \<noteq> 0 | Unmark \<Rightarrow> rate \<noteq> 0 | Count \<Rightarrow> rate \<noteq> 0
      | _ \<Rightarrow> True)"

definition smp_inv :: "fwd_rule \<Rightarrow> smp \<Rightarrow> bool" where
  "smp_inv rule0 s \<longleftrightarrow>
     config_of (shared s) = config_of rule0 \<and> within_cap (shared s)
     \<and> (\<exists>k \<le> drops s. RateDropCount (shared s) = RateDropCount rule0 + of_nat k)
     \<and> (\<forall>p \<in> set (cpus s). pc_ok rule0 (drops s) (RatePPS rule0) p)"

lemma pc_ok_mono: "pc_ok rule0 k rate p \<Longrightarrow> k \<le> k' \<Longrightarrow> pc_ok rule0 k' rate p"
proof (cases p)
  case (Dropped d)
  moreover assume "pc_ok rule0 k rate p" "k \<le> k'"
  ultimately show ?thesis by (auto simp: pc_ok_def intro: order_trans)
qed (simp_all add: pc_ok_def)

lemma suc_within:
  assumes "c < (rate :: u32)" shows "c + 1 \<le> rate"
  using suc_le_rate(1) [of "zero_rule\<lparr>WindowCount := c, RatePPS := rate\<rparr>"] assms by simp

lemma pc_step_ok:
  assumes "pc_step t p rule = (q, rule1, v)"
    and "config_of rule = config_of rule0" and "within_cap rule"
    and "k \<le> n" and "RateDropCount rule = RateDropCount rule0 + of_nat k"
    and "pc_ok rule0 n (RatePPS rule0) p"
  shows "config_of rule1 = config_of rule0 \<and> within_cap rule1
    \<and> (\<exists>k \<le> n + (if v = Some True then 1 else 0). RateDropCount rule1 = RateDropCount rule0 + of_nat k)
    \<and> pc_ok rule0 n (RatePPS rule0) q"
proof -
  have rate: "RatePPS rule = RatePPS rule0" using config_ofD(1) [OF assms(2)] .
  have c: "config_of rule1 = config_of rule"
    using assms(1) by (cases p) (auto simp: past_quarantine_def config_of_def split: if_splits)
  have w: "within_cap rule1"
    using assms(1,3,6) rate
    by (cases p) (auto simp: past_quarantine_def within_cap_def pc_ok_def intro: suc_within
        split: if_splits)
  have d: "\<exists>k \<le> n + (if v = Some True then 1 else 0).
      RateDropCount rule1 = RateDropCount rule0 + of_nat k"
  proof (cases "\<exists>d. p = Dropped d")
    case True
    then obtain j where "p = Dropped (RateDropCount rule0 + of_nat j)" "j \<le> n"
      using assms(6) by (auto simp: pc_ok_def)
    then show ?thesis using assms(1) by (auto intro!: exI [of _ "Suc j"])
  next
    case False
    then have "RateDropCount rule1 = RateDropCount rule"
      using assms(1) by (cases p) (auto simp: past_quarantine_def split: if_splits)
    then show ?thesis using assms(4,5) by (auto intro!: exI [of _ k])
  qed
  have "pc_ok rule0 n (RatePPS rule0) q"
    using assms(1,4,5,6) rate
    by (cases p) (auto simp: past_quarantine_def pc_ok_def word_greater_zero_iff not_le
        split: if_splits)
  with c w d assms(2) show ?thesis by simp
qed

lemma smp_step_inv: "smp_inv rule0 s \<Longrightarrow> smp_inv rule0 (smp_step e s)"
proof -
  assume inv: "smp_inv rule0 s"
  obtain i t where e: "e = (i, t)" by fastforce
  obtain k where k: "k \<le> drops s" "RateDropCount (shared s) = RateDropCount rule0 + of_nat k"
    using inv by (auto simp: smp_inv_def)
  show ?thesis
  proof (cases rule: smp_step_cases [where i = i and t = t and s = s])
    case Skip
    then show ?thesis using inv e by simp
  next
    case (Silent p rule)
    have "pc_ok rule0 (drops s) (RatePPS rule0) (cpus s ! i)"
      using inv Silent(1) by (simp add: smp_inv_def)
    from pc_step_ok [OF Silent(2) _ _ k this] inv
    have "config_of rule = config_of rule0 \<and> within_cap rule
      \<and> (\<exists>k \<le> drops s. RateDropCount rule = RateDropCount rule0 + of_nat k)
      \<and> pc_ok rule0 (drops s) (RatePPS rule0) p" by (simp add: smp_inv_def)
    then show ?thesis
      using inv Silent(1,3-5) e
      by (auto simp: smp_inv_def drops_def dest!: set_update_subset_insert [THEN subsetD])
  next
    case (Verdict p rule d)
    have "pc_ok rule0 (drops s) (RatePPS rule0) (cpus s ! i)"
      using inv Verdict(1) by (simp add: smp_inv_def)
    moreover have d: "drops (smp_step (i, t) s) = drops s + (if d then 1 else 0)"
      using Verdict(5) by (simp add: drops_def)
    ultimately have r: "config_of rule = config_of rule0" "within_cap rule"
      "\<exists>k \<le> drops (smp_step (i, t) s). RateDropCount rule = RateDropCount rule0 + of_nat k"
      "pc_ok rule0 (drops s) (RatePPS rule0) p"
      using pc_step_ok [OF Verdict(2) _ _ k] inv by (simp_all add: smp_inv_def split: if_splits)
    have "\<forall>q \<in> set (cpus (smp_step (i, t) s)). pc_ok rule0 (drops s) (RatePPS rule0) q"
      using r(4) inv unfolding Verdict(3)
      by (auto simp: smp_inv_def dest!: set_update_subset_insert [THEN subsetD])
    then show ?thesis
      using r Verdict(4) d pc_ok_mono e by (auto simp: smp_inv_def)
  qed
qed

lemma smp_run_inv: "smp_inv rule0 s \<Longrightarrow> smp_inv rule0 (smp_run es s)"
  by (induction es arbitrary: s) (auto intro: smp_step_inv)

lemma smp_start_inv: "within_cap rule \<Longrightarrow> smp_inv rule (smp_start n rule)"
  by (auto simp: smp_inv_def smp_start_def drops_def pc_ok_def)

section \<open>Two CPUs in one window\<close>

primrec tri :: "nat \<Rightarrow> nat" where
  "tri 0 = 0"
| "tri (Suc d) = tri d + d + 2"

lemma tri_closed: "2 * tri d = d * (d + 3)"
  by (induction d) (auto simp: algebra_simps)

lemma tri_mono: "d \<le> e \<Longrightarrow> tri d \<le> tri e"
  by (induction e) (auto simp: le_Suc_eq)

lemma tri_pred: "0 < d \<Longrightarrow> tri d = tri (d - 1) + d + 1"
  by (cases d) auto

text \<open>
  An upper bound of the packets still admitted in the window: \<open>d\<close> slots are free by the shared
  counter, and a CPU at \<open>Take c\<close> sees \<open>x > 0\<close> free slots in its register.
\<close>

fun budget :: "nat \<Rightarrow> nat option \<Rightarrow> nat option \<Rightarrow> nat" where
  "budget d None None = tri d"
| "budget d (Some x) None = (if d \<le> x then d + 1 + tri (x - 1) else x + tri d)"
| "budget d None (Some x) = (if d \<le> x then d + 1 + tri (x - 1) else x + tri d)"
| "budget d (Some x) (Some y) = 1 + min x y + tri (max x y - 1)"

lemma budget_sym: "budget d a b = budget d b a"
  by (cases a; cases b) (auto simp: min.commute max.commute)

lemma budget_load:
  assumes "0 < d" and "\<And>y. b = Some y \<Longrightarrow> 0 < y"
  shows "budget d (Some d) b \<le> budget d None b"
  using assms tri_pred [of d] by (cases b) (auto simp: min_def max_def)

lemma budget_store:
  assumes "0 < x" and "\<And>y. b = Some y \<Longrightarrow> 0 < y"
  shows "budget (x - 1) None b + 1 \<le> budget d (Some x) b"
proof (cases b)
  case None
  then show ?thesis
  proof (cases "d \<le> x")
    case False
    then have "tri (x - 1) \<le> tri d" by (intro tri_mono) simp
    then show ?thesis using None False assms(1) by simp
  qed simp
next
  case (Some y)
  then have y: "0 < y" using assms by simp
  show ?thesis
  proof (cases "x \<le> y")
    case True
    then show ?thesis using Some y assms by (auto simp: min_def max_def)
  next
    case False
    then show ?thesis
      using Some y assms tri_pred [of y] by (cases "x = Suc y") (auto simp: min_def max_def)
  qed
qed

text \<open>While the window lasts no CPU leaves the short path through the function.\<close>

definition in_window :: "u64 \<Rightarrow> u32 \<Rightarrow> fwd_rule \<Rightarrow> bool" where
  "in_window w rate rule \<longleftrightarrow>
     QuarantineUntilNs rule = 0 \<and> WindowStartNs rule = w \<and> RatePPS rule = rate \<and> rate \<noteq> 0"

definition pc_here :: "u64 \<Rightarrow> u32 \<Rightarrow> pc \<Rightarrow> bool" where
  "pc_here w rate p =
     (case p of Idle \<Rightarrow> True | Until t \<Rightarrow> t - w < second | Window t \<Rightarrow> t - w < second
      | Count \<Rightarrow> True | Take c \<Rightarrow> c < rate | Mark \<Rightarrow> True | Drops \<Rightarrow> True | Dropped d \<Rightarrow> True
      | _ \<Rightarrow> False)"

definition seen_free :: "u32 \<Rightarrow> pc \<Rightarrow> nat option" where
  "seen_free rate p = (case p of Take c \<Rightarrow> Some (unat rate - unat c) | _ \<Rightarrow> None)"

definition free_slots :: "fwd_rule \<Rightarrow> nat" where
  "free_slots rule = unat (RatePPS rule) - unat (WindowCount rule)"

lemma seen_free_pos: "pc_here w rate p \<Longrightarrow> seen_free rate p = Some y \<Longrightarrow> 0 < y"
  by (auto simp: pc_here_def seen_free_def word_less_nat_alt split: pc.splits)

lemma pc_step_budget:
  assumes "pc_step t p rule = (q, rule1, v)" and "in_window w rate rule" and "pc_here w rate p"
    and "t - w < second" and "\<And>y. b = Some y \<Longrightarrow> 0 < y"
  shows "in_window w rate rule1 \<and> pc_here w rate q
    \<and> budget (free_slots rule1) (seen_free rate q) b + (if v = Some False then 1 else 0)
        \<le> budget (free_slots rule) (seen_free rate p) b"
proof (cases p)
  case (Take c)
  then have c: "unat c < unat rate" and q: "q = Idle" "v = Some False"
    "rule1 = rule\<lparr>WindowCount := c + 1\<rparr>"
    using assms(1,3) by (auto simp: pc_here_def word_less_nat_alt)
  have "unat (c + 1) = unat c + 1"
    using suc_le_rate(2) [of "zero_rule\<lparr>WindowCount := c, RatePPS := rate\<rparr>"] c
    by (simp add: word_less_nat_alt)
  then have f: "free_slots rule1 = unat rate - unat c - 1"
    using q(3) assms(2) by (simp add: free_slots_def in_window_def)
  have "budget (unat rate - unat c - 1) None b + 1
      \<le> budget (free_slots rule) (Some (unat rate - unat c)) b"
    by (rule budget_store) (use c assms(5) in auto)
  with q f Take assms(2) show ?thesis by (simp add: seen_free_def in_window_def pc_here_def)
next
  case Count
  show ?thesis
  proof (cases "RatePPS rule \<le> WindowCount rule")
    case True
    with Count assms show ?thesis by (auto simp: seen_free_def pc_here_def)
  next
    case False
    then have q: "q = Take (WindowCount rule)" "rule1 = rule" "v = None"
      and lt: "WindowCount rule < rate" using Count assms(1,2) by (auto simp: in_window_def)
    have "0 < free_slots rule" using lt assms(2)
      by (simp add: free_slots_def in_window_def word_less_nat_alt)
    from budget_load [OF this assms(5)] q lt Count assms(2) show ?thesis
      by (simp add: seen_free_def pc_here_def free_slots_def in_window_def)
  qed
qed (use assms in \<open>auto simp: seen_free_def pc_here_def in_window_def past_quarantine_def
        free_slots_def split: if_splits\<close>)

definition window_inv :: "u64 \<Rightarrow> u32 \<Rightarrow> nat \<Rightarrow> smp \<Rightarrow> bool" where
  "window_inv w rate n s \<longleftrightarrow>
     in_window w rate (shared s) \<and> (\<exists>p q. cpus s = [p, q] \<and> pc_here w rate p \<and> pc_here w rate q
       \<and> admits s + budget (free_slots (shared s)) (seen_free rate p) (seen_free rate q) \<le> n)"

lemma smp_step_window:
  assumes "window_inv w rate n s" and "t - w < second"
  shows "window_inv w rate n (smp_step (i, t) s)"
proof -
  obtain p q where c: "cpus s = [p, q]" and h: "in_window w rate (shared s)"
    "pc_here w rate p" "pc_here w rate q"
    "admits s + budget (free_slots (shared s)) (seen_free rate p) (seen_free rate q) \<le> n"
    using assms(1) by (auto simp: window_inv_def)
  have step: "window_inv w rate n (smp_step (i, t) s)"
    if c': "cpus s = [p, q] \<and> i = 0 \<or> cpus s = [q, p] \<and> i = 1" and h: "pc_here w rate p" "pc_here w rate q"
      "admits s + budget (free_slots (shared s)) (seen_free rate p) (seen_free rate q) \<le> n" for p q
  proof -
    obtain p1 rule v where e: "pc_step t p (shared s) = (p1, rule, v)" by (metis prod_cases3)
    have s1: "smp_step (i, t) s = s\<lparr>cpus := (cpus s)[i := p1], shared := rule,
        verdicts := verdicts s @ (case v of None \<Rightarrow> [] | Some d \<Rightarrow> [(i, d)])\<rparr>"
      using c' e by (intro smp_step_alone) auto
    have a: "admits (smp_step (i, t) s) = admits s + (if v = Some False then 1 else 0)"
      by (auto simp: s1 admits_def split: option.splits)
    have "in_window w rate rule \<and> pc_here w rate p1
      \<and> budget (free_slots rule) (seen_free rate p1) (seen_free rate q) + (if v = Some False then 1 else 0)
          \<le> budget (free_slots (shared s)) (seen_free rate p) (seen_free rate q)"
      by (rule pc_step_budget [OF e \<open>in_window w rate (shared s)\<close> h(1) assms(2)])
        (rule seen_free_pos [OF h(2)])
    then have "in_window w rate rule" "pc_here w rate p1"
      "admits (smp_step (i, t) s) + budget (free_slots rule) (seen_free rate p1) (seen_free rate q) \<le> n"
      using a h(3) by auto
    then show ?thesis
      using c' h(2) budget_sym [of "free_slots rule" "seen_free rate p1"]
      by (auto simp: window_inv_def s1)
  qed
  consider "i = 0" | "i = 1" | "2 \<le> i" by linarith
  then show ?thesis
  proof cases
    case 1
    then show ?thesis using step [of p q] c h by simp
  next
    case 2
    then show ?thesis
      using step [of q p] c h budget_sym [of "free_slots (shared s)" "seen_free rate p"] by simp
  next
    case 3
    then show ?thesis using assms(1) c by (simp add: smp_step_def)
  qed
qed

lemma smp_run_window:
  "window_inv w rate n s \<Longrightarrow> \<forall>e \<in> set es. snd e - w < second \<Longrightarrow> window_inv w rate n (smp_run es s)"
proof (induction es arbitrary: s)
  case (Cons e es)
  obtain i t where e: "e = (i, t)" by fastforce
  have "window_inv w rate n (smp_step (i, t) s)"
    by (rule smp_step_window [OF Cons.prems(1)]) (use Cons.prems(2) e in auto)
  then show ?case using Cons.IH Cons.prems(2) e by simp
qed simp

text \<open>
  The other direction, on any number of CPUs: the shared counter and the registers never run ahead of
  the \<open>m\<close> slots taken before the window was entered or by the packets admitted since.
\<close>

definition slots_seen :: "u32 \<Rightarrow> nat \<Rightarrow> pc \<Rightarrow> bool" where
  "slots_seen rate m p =
     (case p of Take c \<Rightarrow> unat c \<le> m | Mark \<Rightarrow> unat rate \<le> m | Drops \<Rightarrow> unat rate \<le> m
      | Dropped d \<Rightarrow> unat rate \<le> m | _ \<Rightarrow> True)"

lemma slots_seen_mono: "slots_seen rate m p \<Longrightarrow> m \<le> m' \<Longrightarrow> slots_seen rate m' p"
  by (cases p) (simp_all add: slots_seen_def)

lemma pc_step_slots:
  assumes "pc_step t p rule = (q, rule1, v)" and "in_window w rate rule" and "pc_here w rate p"
    and "t - w < second" and "slots_seen rate m p" and "unat (WindowCount rule) \<le> m"
  defines "m' \<equiv> m + (if v = Some False then 1 else 0)"
  shows "slots_seen rate m' q" and "unat (WindowCount rule1) \<le> m'" and "v = Some True \<Longrightarrow> unat rate \<le> m"
proof -
  have "slots_seen rate m' q \<and> unat (WindowCount rule1) \<le> m' \<and> (v = Some True \<longrightarrow> unat rate \<le> m)"
  proof (cases p)
    case (Take c)
    then have "unat (c + 1) = unat c + 1"
      using assms(3) suc_le_rate(2) [of "zero_rule\<lparr>WindowCount := c, RatePPS := rate\<rparr>"]
      by (simp add: pc_here_def)
    then show ?thesis using assms Take by (auto simp: slots_seen_def)
  next
    case Count
    then show ?thesis
      using assms by (auto simp: slots_seen_def in_window_def word_le_nat_alt split: if_splits)
  qed (use assms in \<open>auto simp: slots_seen_def pc_here_def in_window_def past_quarantine_def
        split: if_splits\<close>)
  then show "slots_seen rate m' q" "unat (WindowCount rule1) \<le> m'" "v = Some True \<Longrightarrow> unat rate \<le> m"
    by simp_all
qed

definition slots_inv :: "u64 \<Rightarrow> u32 \<Rightarrow> nat \<Rightarrow> smp \<Rightarrow> bool" where
  "slots_inv w rate base s \<longleftrightarrow>
     in_window w rate (shared s) \<and> unat (WindowCount (shared s)) \<le> base + admits s
     \<and> (\<forall>p \<in> set (cpus s). pc_here w rate p \<and> slots_seen rate (base + admits s) p)
     \<and> (drops s \<noteq> 0 \<longrightarrow> unat rate \<le> base + admits s)"

lemma smp_step_slots:
  assumes "slots_inv w rate base s" and "t - w < second"
  shows "slots_inv w rate base (smp_step (i, t) s)"
proof (cases "i < length (cpus s)")
  case False
  then show ?thesis using assms(1) by (simp add: smp_step_def)
next
  case True
  let ?m = "base + admits s" and ?p = "cpus s ! i"
  obtain q rule v where e: "pc_step t ?p (shared s) = (q, rule, v)" by (metis prod_cases3)
  have h: "in_window w rate (shared s)" "unat (WindowCount (shared s)) \<le> ?m"
    "pc_here w rate ?p" "slots_seen rate ?m ?p"
    using assms(1) True by (auto simp: slots_inv_def)
  note s' = smp_step_alone [OF True e]
  have n: "admits (smp_step (i, t) s) = admits s + (if v = Some False then 1 else 0)"
    "drops (smp_step (i, t) s) = drops s + (if v = Some True then 1 else 0)"
    by (auto simp: s' admits_def drops_def split: option.splits)
  have w: "in_window w rate rule" "pc_here w rate q"
    using pc_step_budget [OF e h(1,3) assms(2), of None] by simp_all
  have "pc_here w rate x \<and> slots_seen rate (base + admits (smp_step (i, t) s)) x"
    if "x \<in> set ((cpus s)[i := q])" for x
  proof (cases "x = q")
    case False
    then have "x \<in> set (cpus s)" using that set_update_subset_insert by fastforce
    then show ?thesis using assms(1) slots_seen_mono [of rate ?m x] n(1) by (simp add: slots_inv_def)
  qed (use w pc_step_slots(1) [OF e h(1,3) assms(2) h(4,2)] n(1) in \<open>simp add: add.assoc\<close>)
  then show ?thesis
    using w pc_step_slots(2,3) [OF e h(1,3) assms(2) h(4,2)] n assms(1)
    by (auto simp: slots_inv_def s' split: if_splits)
qed

lemma smp_run_slots:
  "slots_inv w rate base s \<Longrightarrow> \<forall>e \<in> set es. snd e - w < second \<Longrightarrow> slots_inv w rate base (smp_run es s)"
proof (induction es arbitrary: s)
  case (Cons e es)
  obtain i t where e: "e = (i, t)" by fastforce
  have "slots_inv w rate base (smp_step (i, t) s)"
    by (rule smp_step_slots [OF Cons.prems(1)]) (use Cons.prems(2) e in auto)
  then show ?case using Cons.IH Cons.prems(2) e by simp
qed simp

text \<open>The schedule that reaches the bound: one CPU holds a slot while the other uses up the window.\<close>

lemma window_slot:
  assumes "in_window w rate rule" and "t - w < second" and "0 < free_slots rule"
  shows "enforce_policy t rule = (False, rule\<lparr>WindowCount := WindowCount rule + 1\<rparr>)"
    and "free_slots (rule\<lparr>WindowCount := WindowCount rule + 1\<rparr>) = free_slots rule - 1"
proof -
  have lt: "WindowCount rule < RatePPS rule"
    using assms(3) by (simp add: free_slots_def word_less_nat_alt)
  then show "enforce_policy t rule = (False, rule\<lparr>WindowCount := WindowCount rule + 1\<rparr>)"
    using assms(1,2) by (simp add: enforce_policy_def held_def self_release_def roll_window_def
        take_slot_def in_window_def not_le word_greater_zero_iff)
  show "free_slots (rule\<lparr>WindowCount := WindowCount rule + 1\<rparr>) = free_slots rule - 1"
    using suc_le_rate(2) [OF lt] by (simp add: free_slots_def)
qed

lemma cpu_takes_all:
  assumes "i < length (cpus s)" and "cpus s ! i = Idle" and "in_window w rate (shared s)"
    and "t - w < second"
  shows "\<exists>es c. (\<forall>e \<in> set es. snd e = t) \<and> cpus (smp_run es s) = cpus s
    \<and> shared (smp_run es s) = (shared s)\<lparr>WindowCount := c\<rparr>
    \<and> admits (smp_run es s) = admits s + free_slots (shared s)"
  using assms
proof (induction "free_slots (shared s)" arbitrary: s)
  case 0
  then show ?case by (intro exI [of _ "[]"] exI [of _ "WindowCount (shared s)"]) simp
next
  case (Suc d)
  let ?r = "(shared s)\<lparr>WindowCount := WindowCount (shared s) + 1\<rparr>"
  note slot = window_slot [OF Suc.prems(3,4)]
  obtain k where k: "smp_run (replicate k (i, t)) s =
      s\<lparr>shared := ?r, verdicts := verdicts s @ [(i, False)]\<rparr>"
    using idle_block [OF Suc.prems(1,2), of t] slot(1) Suc.hyps(2) by auto
  let ?s = "s\<lparr>shared := ?r, verdicts := verdicts s @ [(i, False)]\<rparr>"
  have "in_window w rate (shared ?s)" using Suc.prems(3) by (simp add: in_window_def)
  moreover have "d = free_slots (shared ?s)" using slot(2) Suc.hyps(2) by simp
  ultimately obtain es c where "\<forall>e \<in> set es. snd e = t" "cpus (smp_run es ?s) = cpus s"
    "shared (smp_run es ?s) = (shared s)\<lparr>WindowCount := c\<rparr>"
    "admits (smp_run es ?s) = admits ?s + d"
    using Suc.hyps(1) [of ?s] Suc.prems by auto
  then show ?case
    using k Suc.hyps(2)
    by (intro exI [of _ "replicate k (i, t) @ es"] exI [of _ c])
      (auto simp: smp_run_append admits_def)
qed

lemma two_cpu_schedule:
  assumes "cpus s = [Idle, Idle]" and "in_window w rate (shared s)" and "t - w < second"
  shows "\<exists>es. (\<forall>e \<in> set es. snd e = t)
    \<and> admits (smp_run es s) = admits s + tri (free_slots (shared s))"
  using assms
proof (induction "free_slots (shared s)" arbitrary: s)
  case 0
  then show ?case by (intro exI [of _ "[]"]) simp
next
  case (Suc d)
  let ?c = "WindowCount (shared s)"
  note slot = window_slot [OF Suc.prems(2,3)]
  have lt: "?c < RatePPS (shared s)"
    using Suc.hyps(2) by (auto simp: free_slots_def word_less_nat_alt)
  let ?s1 = "smp_run (replicate 4 (0, t)) s"
  have s1: "?s1 = s\<lparr>cpus := [Take ?c, Idle]\<rparr>"
    using Suc.prems lt
    by (simp add: smp_step_def eval_nat_numeral in_window_def past_quarantine_def not_le)
  obtain es c where es: "\<forall>e \<in> set es. snd e = t" "cpus (smp_run es ?s1) = cpus ?s1"
    "shared (smp_run es ?s1) = (shared s)\<lparr>WindowCount := c\<rparr>"
    "admits (smp_run es ?s1) = admits s + Suc d"
    using cpu_takes_all [of 1 ?s1 w rate t] Suc.prems(2,3) Suc.hyps(2)
    by (auto simp: s1 admits_def)
  let ?s2 = "smp_step (0, t) (smp_run es ?s1)"
  have s2: "cpus ?s2 = [Idle, Idle]" "shared ?s2 = (shared s)\<lparr>WindowCount := ?c + 1\<rparr>"
    "admits ?s2 = admits s + Suc d + 1"
    using es by (auto simp: smp_step_def s1 admits_def)
  have "in_window w rate (shared ?s2)" "d = free_slots (shared ?s2)"
    using Suc.prems(2) Suc.hyps(2) slot(2) s2(2) by (auto simp: in_window_def)
  then obtain fs where fs: "\<forall>e \<in> set fs. snd e = t"
    "admits (smp_run fs ?s2) = admits ?s2 + tri (free_slots (shared ?s2))"
    using Suc.hyps(1) [of ?s2] s2(1) Suc.prems(3) by auto
  have "tri (Suc d) = tri d + d + 2" by simp
  then show ?case
    using es(1) fs s2(3) \<open>d = free_slots (shared ?s2)\<close> Suc.hyps(2)
    by (intro exI [of _ "replicate 4 (0, t) @ es @ (0, t) # fs"])
      (auto simp: smp_run_append simp del: tri.simps)
qed

section \<open>Several CPUs score one window\<close>

definition after_scoring :: "nat \<Rightarrow> nat \<Rightarrow> u64 \<Rightarrow> fwd_rule \<Rightarrow> smp" where
  "after_scoring n k t rule =
     \<lparr>cpus = replicate k (Open t) @ replicate (n - k) Idle,
      shared = rule\<lparr>ViolationStreak := ViolationStreak rule + of_nat k\<rparr>, verdicts = []\<rparr>"

definition unscored_window :: "nat \<Rightarrow> u64 \<Rightarrow> fwd_rule \<Rightarrow> bool" where
  "unscored_window n t rule \<longleftrightarrow>
     RatePPS rule \<noteq> 0 \<and> QuarantineUntilNs rule = 0 \<and> WindowViolated rule \<noteq> 0
     \<and> second \<le> t - WindowStartNs rule
     \<and> unat (ViolationStreak rule) + n = unat (QuarantineThreshold rule)"

lemma streak_unat:
  assumes "unscored_window n t rule" and "k \<le> n"
  shows "unat (ViolationStreak rule + of_nat k) = unat (ViolationStreak rule) + k"
proof -
  have "unat (ViolationStreak rule) + k < 4294967296"
    using assms le_less_trans [OF _ unat_u32_less [of "QuarantineThreshold rule"]]
    by (simp add: unscored_window_def)
  then show ?thesis by (simp add: unat_word_ariths unat_of_nat)
qed

text \<open>One CPU goes from its arrival to the store of the incremented streak.\<close>

lemma scoring_block:
  assumes "unscored_window n t rule" and "k < n"
  defines "s \<equiv> after_scoring n k t rule"
  shows "\<exists>q. smp_run (replicate 6 (k, t)) s =
      s\<lparr>cpus := (cpus s)[k := q],
        shared := rule\<lparr>ViolationStreak := ViolationStreak rule + of_nat (Suc k)\<rparr>\<rparr>
    \<and> q = (if Suc k < n then Open t else Quarantine t)"
proof -
  let ?streak = "ViolationStreak rule + of_nat (Suc k)"
  have k: "k < length (cpus s)" "cpus s ! k = Idle"
    using assms(2) by (simp_all add: s_def after_scoring_def nth_append)
  have u: "unat ?streak = unat (ViolationStreak rule) + Suc k"
    using streak_unat [OF assms(1), of "Suc k"] assms(2) by simp
  have thr: "QuarantineThreshold rule \<noteq> 0" using assms(1,2) by (auto simp: unscored_window_def)
  have le: "QuarantineThreshold rule \<le> ?streak \<longleftrightarrow> \<not> Suc k < n"
    unfolding word_le_nat_alt u using assms by (auto simp: unscored_window_def)
  have sh: "shared s = rule\<lparr>ViolationStreak := ViolationStreak rule + of_nat k\<rparr>"
    "verdicts s = []" by (simp_all add: s_def after_scoring_def)
  have six: "replicate 6 (k, t) = [(k, t), (k, t), (k, t), (k, t), (k, t), (k, t)]"
    by (simp add: eval_nat_numeral)
  have c: "ViolationStreak rule + of_nat k + 1 = ?streak" by simp
  show ?thesis
    unfolding six
    using k sh assms(1) thr le
    by (simp add: smp_step_def unscored_window_def past_quarantine_def c [symmetric] del: of_nat_Suc)
qed

lemma scoring_blocks:
  assumes "unscored_window n t rule" and "m < n"
  shows "smp_run (concat (map (\<lambda>k. replicate 6 (k, t)) [0..<m])) (smp_start n rule) =
    after_scoring n m t rule"
  using assms(2)
proof (induction m)
  case 0
  then show ?case by (simp add: smp_start_def after_scoring_def)
next
  case (Suc m)
  from scoring_block [OF assms(1), of m] Suc.prems
  have "smp_run (replicate 6 (m, t)) (after_scoring n m t rule) = after_scoring n (Suc m) t rule"
    by (simp add: after_scoring_def list_update_append del: of_nat_Suc)
      (simp add: replicate_append_same [symmetric] Suc_diff_Suc [symmetric])
  with Suc show ?case by (simp add: smp_run_append)
qed

lemma all_score:
  assumes "unscored_window n t rule" and "0 < n"
  shows "\<exists>es. (\<forall>e \<in> set es. snd e = t)
    \<and> QuarantineUntilNs (shared (smp_run es (smp_start n rule))) =
        t + ucast (QuarantineSeconds rule) * second"
proof -
  obtain m where n: "n = Suc m" using assms(2) by (cases n) auto
  let ?es = "concat (map (\<lambda>k. replicate 6 (k, t)) [0..<m]) @ replicate 6 (m, t) @ [(m, t)]"
  have "smp_run ?es (smp_start n rule) =
      smp_step (m, t) (smp_run (replicate 6 (m, t)) (after_scoring n m t rule))"
    using scoring_blocks [OF assms(1), of m] n by (simp add: smp_run_append)
  moreover have "QuarantineUntilNs (shared \<dots>) = t + ucast (QuarantineSeconds rule) * second"
    using scoring_block [OF assms(1), of m] n by (auto simp: smp_step_def after_scoring_def)
  ultimately show ?thesis by (intro exI [of _ ?es]) auto
qed

text \<open>The same packets one after another score the window once.\<close>

lemma police_in_window:
  assumes "in_window w rate rule" and "\<forall>t \<in> set ts. t - w < second"
  shows "QuarantineUntilNs (snd (police ts rule)) = 0"
  using assms
proof (induction ts arbitrary: rule)
  case (Cons t ts)
  have "in_window w rate (snd (enforce_policy t rule))"
    using Cons.prems
    by (auto simp: enforce_policy_def held_def self_release_def roll_window_def take_slot_def
        in_window_def)
  then show ?case using Cons.IH Cons.prems(2) by (auto split: prod.splits) (metis snd_conv)
qed (simp add: in_window_def)

lemma serial_scores_once:
  assumes "unscored_window n t rule" and "2 \<le> n"
  shows "QuarantineUntilNs (snd (police (replicate m t) rule)) = 0"
proof (cases m)
  case 0
  then show ?thesis using assms by (simp add: unscored_window_def)
next
  case (Suc k)
  have "unat (ViolationStreak rule + 1) < unat (QuarantineThreshold rule)"
    using streak_unat [OF assms(1), of 1] assms by (simp add: unscored_window_def)
  then have "in_window t (RatePPS rule) (snd (enforce_policy t rule))"
    using assms(1)
    by (auto simp: enforce_policy_def held_def self_release_def roll_window_def take_slot_def
        in_window_def unscored_window_def score_window_def Let_def word_le_nat_alt)
  moreover have "\<forall>u \<in> set (replicate k t). u - t < second"
    by (auto simp: word_less_nat_alt)
  ultimately have "QuarantineUntilNs (snd (police (replicate k t) (snd (enforce_policy t rule)))) = 0"
    by (rule police_in_window)
  with Suc show ?thesis by (auto split: prod.splits)
qed

section \<open>The counters of the rule\<close>

text \<open>Where a CPU stands in \<open>bump_rule\<close>; \<open>bytes\<close> is the length of its packet.\<close>

datatype bump_pc =
    PktLoad
  | PktStore u64 u64    \<comment> \<open>\<open>rule->pkt_count += 1\<close>: the value loaded and the length\<close>
  | ByteLoad u64
  | ByteStore u64 u64   \<comment> \<open>\<open>rule->byte_count += bytes\<close>\<close>

text \<open>\<open>counted_pkts\<close> and \<open>counted_bytes\<close> record what the additions executed so far should amount to.\<close>

record bumps =
  bcpus :: "bump_pc list"
  brule :: fwd_rule
  counted_pkts :: nat
  counted_bytes :: nat

fun bump_pc_step :: "u64 \<Rightarrow> bump_pc \<Rightarrow> bumps \<Rightarrow> bump_pc \<times> bumps" where
  "bump_pc_step len PktLoad s = (PktStore (PktCount (brule s)) len, s)"
| "bump_pc_step len (PktStore c bytes) s =
     (ByteLoad bytes,
      s\<lparr>brule := (brule s)\<lparr>PktCount := c + 1\<rparr>, counted_pkts := counted_pkts s + 1\<rparr>)"
| "bump_pc_step len (ByteLoad bytes) s = (ByteStore (ByteCount (brule s)) bytes, s)"
| "bump_pc_step len (ByteStore b bytes) s =
     (PktLoad,
      s\<lparr>brule := (brule s)\<lparr>ByteCount := b + bytes\<rparr>,
        counted_bytes := counted_bytes s + unat bytes\<rparr>)"

definition bump_step :: "nat \<times> u64 \<Rightarrow> bumps \<Rightarrow> bumps" where
  "bump_step e s =
     (case e of (i, len) \<Rightarrow>
        if i < length (bcpus s)
        then case bump_pc_step len (bcpus s ! i) s of (p, s1) \<Rightarrow> s1\<lparr>bcpus := (bcpus s)[i := p]\<rparr>
        else s)"

fun bump_run :: "(nat \<times> u64) list \<Rightarrow> bumps \<Rightarrow> bumps" where
  "bump_run [] s = s"
| "bump_run (e # es) s = bump_run es (bump_step e s)"

definition bump_start :: "nat \<Rightarrow> fwd_rule \<Rightarrow> bumps" where
  "bump_start n rule =
     \<lparr>bcpus = replicate n PktLoad, brule = rule, counted_pkts = 0, counted_bytes = 0\<rparr>"

lemma bump_run_append: "bump_run (es @ fs) s = bump_run fs (bump_run es s)"
  by (induction es arbitrary: s) auto

text \<open>A CPU that is not interrupted does what \<open>bump_rule\<close> does.\<close>

lemma bump_alone:
  assumes "i < length (bcpus s)" and "bcpus s ! i = PktLoad"
  shows "bump_run (replicate 4 (i, len)) s =
    s\<lparr>brule := bump_rule len (brule s), counted_pkts := counted_pkts s + 1,
      counted_bytes := counted_bytes s + unat len\<rparr>"
proof -
  have "(bcpus s)[i := PktLoad] = bcpus s" using assms by (metis list_update_id)
  then show ?thesis
    using assms by (simp add: eval_nat_numeral bump_step_def bump_rule_def)
qed

lemma bump_packets:
  assumes "i < length (bcpus s)" and "bcpus s ! i = PktLoad"
  shows "bump_run (concat (map (\<lambda>len. replicate 4 (i, len)) lens)) s =
    s\<lparr>brule := fold bump_rule lens (brule s), counted_pkts := counted_pkts s + length lens,
      counted_bytes := counted_bytes s + sum_list (map unat lens)\<rparr>"
  using assms
proof (induction lens arbitrary: s)
  case (Cons len lens)
  then show ?case by (simp add: bump_run_append bump_alone)
qed simp

lemma fold_bump_rule:
  "PktCount (fold bump_rule lens rule) = PktCount rule + of_nat (length lens)"
  "ByteCount (fold bump_rule lens rule) = ByteCount rule + of_nat (sum_list (map unat lens))"
  by (induction lens arbitrary: rule) (simp_all add: bump_rule_def algebra_simps)

text \<open>One CPU has loaded the packet counter when the other counts the packets \<open>lens\<close>.\<close>

definition lossy :: "u64 \<Rightarrow> u64 list \<Rightarrow> (nat \<times> u64) list" where
  "lossy len lens =
     (0, len) # concat (map (\<lambda>len. replicate 4 (1, len)) lens) @ replicate 3 (0, len)"

lemma lossy_schedule:
  "bump_run (lossy len lens) (bump_start 2 rule) =
    \<lparr>bcpus = [PktLoad, PktLoad],
     brule = (fold bump_rule lens rule)\<lparr>PktCount := PktCount rule + 1,
       ByteCount := ByteCount (fold bump_rule lens rule) + len\<rparr>,
     counted_pkts = length lens + 1, counted_bytes = sum_list (map unat lens) + unat len\<rparr>"
proof -
  let ?t = "\<lparr>bcpus = [PktStore (PktCount rule) len, PktLoad], brule = rule,
      counted_pkts = 0, counted_bytes = 0\<rparr>"
  have "bump_step (0, len) (bump_start 2 rule) = ?t"
    by (simp add: bump_step_def bump_start_def numeral_2_eq_2)
  then have "bump_run (lossy len lens) (bump_start 2 rule) = bump_run (replicate 3 (0, len))
      (?t\<lparr>brule := fold bump_rule lens rule, counted_pkts := length lens,
        counted_bytes := sum_list (map unat lens)\<rparr>)"
    using bump_packets [of 1 ?t lens] by (simp add: lossy_def bump_run_append)
  then show ?thesis by (simp add: numeral_3_eq_3 bump_step_def)
qed

definition reg_ok :: "fwd_rule \<Rightarrow> nat \<Rightarrow> nat \<Rightarrow> bump_pc \<Rightarrow> bool" where
  "reg_ok rule0 k m p =
     (case p of PktStore c len \<Rightarrow> \<exists>j \<le> k. c = PktCount rule0 + of_nat j
      | ByteStore b len \<Rightarrow> \<exists>j \<le> m. b = ByteCount rule0 + of_nat j
      | _ \<Rightarrow> True)"

definition bump_inv :: "fwd_rule \<Rightarrow> bumps \<Rightarrow> bool" where
  "bump_inv rule0 s \<longleftrightarrow>
     (\<exists>k \<le> counted_pkts s. PktCount (brule s) = PktCount rule0 + of_nat k)
     \<and> (\<exists>m \<le> counted_bytes s. ByteCount (brule s) = ByteCount rule0 + of_nat m)
     \<and> (\<forall>p \<in> set (bcpus s). reg_ok rule0 (counted_pkts s) (counted_bytes s) p)"

lemma reg_ok_mono: "reg_ok rule0 k m p \<Longrightarrow> k \<le> k' \<Longrightarrow> m \<le> m' \<Longrightarrow> reg_ok rule0 k' m' p"
  by (cases p) (auto simp: reg_ok_def intro: order_trans)

lemma bump_step_inv:
  assumes "bump_inv rule0 s"
  shows "bump_inv rule0 (bump_step e s)"
proof -
  obtain i len where e: "e = (i, len)" by fastforce
  show ?thesis
  proof (cases "i < length (bcpus s)")
    case True
    obtain p s1 where b: "bump_pc_step len (bcpus s ! i) s = (p, s1)" by fastforce
    have r: "reg_ok rule0 (counted_pkts s) (counted_bytes s) (bcpus s ! i)"
      using assms True by (simp add: bump_inv_def)
    have le: "counted_pkts s \<le> counted_pkts s1" "counted_bytes s \<le> counted_bytes s1"
      using b by (cases "bcpus s ! i"; auto)+
    have k: "\<exists>k \<le> counted_pkts s1. PktCount (brule s1) = PktCount rule0 + of_nat k"
    proof (cases "\<exists>c n. bcpus s ! i = PktStore c n")
      case True
      then obtain j n where "bcpus s ! i = PktStore (PktCount rule0 + of_nat j) n" "j \<le> counted_pkts s"
        using r by (auto simp: reg_ok_def)
      then show ?thesis using b by (auto intro!: exI [of _ "Suc j"])
    next
      case False
      then have "PktCount (brule s1) = PktCount (brule s)" using b by (cases "bcpus s ! i") auto
      then show ?thesis using assms le by (auto simp: bump_inv_def intro: order_trans)
    qed
    have m: "\<exists>m \<le> counted_bytes s1. ByteCount (brule s1) = ByteCount rule0 + of_nat m"
    proof (cases "\<exists>c n. bcpus s ! i = ByteStore c n")
      case True
      then obtain j n where "bcpus s ! i = ByteStore (ByteCount rule0 + of_nat j) n"
        "j \<le> counted_bytes s"
        using r by (auto simp: reg_ok_def)
      then show ?thesis using b by (auto intro!: exI [of _ "j + unat n"])
    next
      case False
      then have "ByteCount (brule s1) = ByteCount (brule s)" using b by (cases "bcpus s ! i") auto
      then show ?thesis using assms le by (auto simp: bump_inv_def intro: order_trans)
    qed
    have "reg_ok rule0 (counted_pkts s1) (counted_bytes s1) p"
      using b assms by (cases "bcpus s ! i") (auto simp: reg_ok_def bump_inv_def)
    moreover have "reg_ok rule0 (counted_pkts s1) (counted_bytes s1) q" if "q \<in> set (bcpus s)" for q
      using that assms reg_ok_mono le by (auto simp: bump_inv_def)
    moreover have "bump_step e s = s1\<lparr>bcpus := (bcpus s)[i := p]\<rparr>"
      using e True b by (simp add: bump_step_def)
    ultimately show ?thesis
      using k m by (auto simp: bump_inv_def dest!: set_update_subset_insert [THEN subsetD])
  qed (use assms e in \<open>simp add: bump_step_def\<close>)
qed

lemma bump_run_inv: "bump_inv rule0 s \<Longrightarrow> bump_inv rule0 (bump_run es s)"
  by (induction es arbitrary: s) (auto intro: bump_step_inv)

section \<open>Properties\<close>

text \<open>C16: if the packets of a rule are policed one after another, each to its end before the next one
  begins, then the loads and stores of the CPUs that take them amount to \<open>enforce_policy\<close> packet by
  packet, whichever CPU takes which packet: same verdicts, same rule.\<close>
theorem serial_cpus_police:
  assumes "\<forall>(i, t) \<in> set ps. i < n"
  shows "\<exists>ks. length ks = length ps \<and> (\<forall>k \<in> set ks. k \<le> 14)
    \<and> smp_run (concat (map2 replicate ks ps)) (smp_start n rule) =
        \<lparr>cpus = replicate n Idle, shared = snd (police (map snd ps) rule),
         verdicts = zip (map fst ps) (fst (police (map snd ps) rule))\<rparr>"
proof -
  have "set (replicate n Idle) \<subseteq> {Idle}" by auto
  then show ?thesis
    using serial_police [of ps "smp_start n rule" "fst (police (map snd ps) rule)"
        "snd (police (map snd ps) rule)"] assms
    by (simp add: smp_start_def)
qed

lemma serial_cpus_police_witness:
  "\<exists>ks. length ks = 3 \<and> verdicts (smp_run
     (concat (map2 replicate ks [(0, 5), (1, 6), (0, 7)])) (smp_start 2 demo_rule)) =
     [(0, False), (1, True), (0, True)]"
proof -
  have p: "fst (police [5, 6, 7] demo_rule) = [False, True, True]" by code_simp
  let ?ps = "[(0, 5), (1, 6), (0, 7)]"
  obtain ks where "length ks = length ?ps"
    "smp_run (concat (map2 replicate ks ?ps)) (smp_start 2 demo_rule) =
        \<lparr>cpus = replicate 2 Idle, shared = snd (police (map snd ?ps) demo_rule),
         verdicts = zip (map fst ?ps) (fst (police (map snd ?ps) demo_rule))\<rparr>"
    using serial_cpus_police [of ?ps 2 demo_rule] by auto
  with p show ?thesis by (intro exI [of _ ks]) (simp del: police.simps)
qed

text \<open>C15: races waste no slot and stall no CPU: for a capped subscriber that is not quarantined, on any
  number of CPUs and in every interleaving within a window, a packet is dropped only after all free
  slots have been given away, so a CPU that has executed \<open>m\<close> accesses has seen \<open>m div 14\<close> packets to
  their verdict and, whatever the other CPUs did in between, that many packets or as many as there
  were free slots have been admitted.\<close>
theorem races_waste_no_slot:
  assumes "RatePPS rule \<noteq> 0" and "QuarantineUntilNs rule = 0"
    and "\<forall>e \<in> set es. snd e - WindowStartNs rule < second" and "i < n"
  shows "let s = smp_run es (smp_start n rule); m = length (filter (\<lambda>e. fst e = i) es) in
    (drops s \<noteq> 0 \<longrightarrow> free_slots rule \<le> admits s)
    \<and> m div 14 \<le> decided i s \<and> min (free_slots rule) (m div 14) \<le> admits s"
proof -
  let ?s = "smp_run es (smp_start n rule)" and ?m = "length (filter (\<lambda>e. fst e = i) es)"
  let ?w = "WindowStartNs rule" and ?rate = "RatePPS rule" and ?base = "unat (WindowCount rule)"
  have "?m \<le> progress i ?s"
    using smp_run_progress [of i "smp_start n rule" es] assms(4) by (simp add: smp_start_def)
  also have "progress i ?s < 14 * decided i ?s + 14"
    using accesses_left_bounds(1) [of "cpus ?s ! i"] by (simp add: progress_def)
  finally have d: "?m div 14 \<le> decided i ?s" by simp
  have "slots_inv ?w ?rate ?base (smp_start n rule)"
    using assms(1,2) by (simp add: slots_inv_def smp_start_def in_window_def pc_here_def slots_seen_def drops_def)
  from smp_run_slots [OF this assms(3)]
  have f: "drops ?s \<noteq> 0 \<Longrightarrow> free_slots rule \<le> admits ?s" by (auto simp: slots_inv_def free_slots_def)
  have "decided i ?s \<le> admits ?s + drops ?s"
    using length_filter_le [of "\<lambda>v. fst v = i"] sum_length_filter_compl [of snd "verdicts ?s"]
    by (simp add: decided_def admits_def drops_def add.commute)
  with d f show ?thesis by (cases "drops ?s = 0") (auto simp: Let_def)
qed

lemma races_waste_no_slot_witness:
  "1 \<le> admits (smp_run (concat (replicate 14 [(0, 5), (1, 6)])) (smp_start 2 demo_rule))"
proof -
  let ?es = "concat (replicate 14 [(0, 5), (1, 6)]) :: (nat \<times> u64) list"
  have "length (filter (\<lambda>e. fst e = 1) ?es) = 14" by code_simp
  moreover have "\<forall>e \<in> set ?es. snd e - WindowStartNs demo_rule < second"
    by (simp add: demo_rule_simps second_def)
  moreover have "free_slots demo_rule \<noteq> 0" by (simp add: free_slots_def demo_rule_simps)
  ultimately show ?thesis
    using races_waste_no_slot [of demo_rule ?es 1 2] by (simp add: demo_rule_simps Let_def)
qed

text \<open>C12: no interleaving of any number of CPUs, with any clocks, drives the window counter above the cap or
  writes the configuration, the byte and packet counters or the forwarding part of the rule, and
  \<open>rate_drop_count\<close> never grows by more than the number of packets dropped.\<close>
theorem interleaving_invariant:
  assumes "within_cap rule"
  shows "let s = smp_run es (smp_start n rule) in
    within_cap (shared s) \<and> config_of (shared s) = config_of rule
    \<and> (\<exists>k \<le> drops s. RateDropCount (shared s) = RateDropCount rule + of_nat k)"
  using smp_run_inv [OF smp_start_inv [OF assms], of es n] by (simp add: smp_inv_def Let_def)

lemma interleaving_invariant_witness:
  "within_cap (shared (smp_run (concat (replicate 9 [(0, 5), (1, 6)])) (smp_start 2 demo_rule)))"
  using interleaving_invariant [of demo_rule "concat (replicate 9 [(0, 5), (1, 6)])" 2]
  by (simp add: within_cap_def demo_rule_simps Let_def)

text \<open>C6: the cap itself is not safe on two CPUs: the slots they can be made to admit in one window are
  exactly \<open>d * (d + 3) / 2\<close> for \<open>d\<close> free slots, where one CPU alone admits \<open>d\<close>. A cap of 1000
  packets per second can let 501500 pass.\<close>
theorem two_cpus_overshoot:
  assumes "RatePPS rule \<noteq> 0" and "QuarantineUntilNs rule = 0"
    and "t - WindowStartNs rule < second"
  shows "(\<forall>es. (\<forall>e \<in> set es. snd e - WindowStartNs rule < second) \<longrightarrow>
      2 * admits (smp_run es (smp_start 2 rule)) \<le> free_slots rule * (free_slots rule + 3))
    \<and> (\<exists>es. (\<forall>e \<in> set es. snd e = t)
      \<and> 2 * admits (smp_run es (smp_start 2 rule)) = free_slots rule * (free_slots rule + 3))"
proof -
  let ?s = "smp_start 2 rule"
  let ?w = "WindowStartNs rule" and ?rate = "RatePPS rule"
  have s: "cpus ?s = [Idle, Idle]" "shared ?s = rule" "admits ?s = 0"
    by (simp_all add: smp_start_def admits_def eval_nat_numeral)
  have here: "in_window ?w ?rate (shared ?s)" using assms(1,2) by (simp add: s in_window_def)
  then have "window_inv ?w ?rate (tri (free_slots rule)) ?s"
    by (simp add: window_inv_def s pc_here_def seen_free_def)
  then have "admits (smp_run es ?s) \<le> tri (free_slots rule)"
    if "\<forall>e \<in> set es. snd e - ?w < second" for es
  proof -
    have "window_inv ?w ?rate (tri (free_slots rule)) (smp_run es ?s)"
      by (rule smp_run_window) fact+
    then show ?thesis by (auto simp: window_inv_def)
  qed
  moreover have "\<exists>es. (\<forall>e \<in> set es. snd e = t) \<and> admits (smp_run es ?s) = tri (free_slots rule)"
    using two_cpu_schedule [OF s(1) here assms(3)] s by simp
  ultimately show ?thesis by (metis mult_le_mono2 tri_closed)
qed

lemma two_cpus_overshoot_witness:
  "\<exists>es. admits (smp_run es (smp_start 2 (demo_rule\<lparr>RatePPS := 1000\<rparr>))) = 501500"
proof -
  have "free_slots (demo_rule\<lparr>RatePPS := 1000\<rparr>) = 1000" by (simp add: free_slots_def demo_rule_simps)
  with two_cpus_overshoot [of "demo_rule\<lparr>RatePPS := 1000\<rparr>" 5] show ?thesis
    by (auto simp: demo_rule_simps second_def)
qed

text \<open>C23: one violated window can be scored by every CPU that finds it over. With \<open>n\<close> CPUs a rule whose
  streak is still \<open>n\<close> violations short of the threshold is quarantined at the end of a single
  violated window, while the same packets taken one after another leave it free.\<close>
theorem one_window_scored_by_all:
  assumes "RatePPS rule \<noteq> 0" and "QuarantineUntilNs rule = 0" and "WindowViolated rule \<noteq> 0"
    and "second \<le> t - WindowStartNs rule"
    and "unat (ViolationStreak rule) + n = unat (QuarantineThreshold rule)" and "2 \<le> n"
  shows "(\<exists>es. (\<forall>e \<in> set es. snd e = t)
      \<and> QuarantineUntilNs (shared (smp_run es (smp_start n rule))) =
          t + ucast (QuarantineSeconds rule) * second)
    \<and> (\<forall>m. QuarantineUntilNs (snd (police (replicate m t) rule)) = 0)"
proof -
  have u: "unscored_window n t rule" using assms(1-5) by (simp add: unscored_window_def)
  then show ?thesis using all_score [OF u] serial_scores_once [OF u assms(6)] assms(6) by simp
qed

lemma one_window_scored_by_all_witness:
  "\<exists>es. QuarantineUntilNs (shared (smp_run es
     (smp_start 2 (demo_rule\<lparr>WindowViolated := 1\<rparr>)))) = 32000000000"
  using one_window_scored_by_all [of "demo_rule\<lparr>WindowViolated := 1\<rparr>" 2000000000 2]
  by (auto simp: demo_rule_simps second_def)

text \<open>The packet and byte counters never grow by more than what was counted, on any number of CPUs; but
  two CPUs can lose any number of packets, not only a few, and the two counters then disagree.\<close>
theorem counters_can_fall_behind:
  fixes len :: u64
  shows "(let s = bump_run es (bump_start n rule) in
      (\<exists>k \<le> counted_pkts s. PktCount (brule s) = PktCount rule + of_nat k)
      \<and> (\<exists>m \<le> counted_bytes s. ByteCount (brule s) = ByteCount rule + of_nat m))
    \<and> (\<exists>fs s. s = bump_run fs (bump_start 2 rule)
      \<and> counted_pkts s = length lens + 1 \<and> bcpus s = [PktLoad, PktLoad]
      \<and> PktCount (brule s) = PktCount rule + 1
      \<and> ByteCount (brule s) = ByteCount rule + of_nat (sum_list (map unat (len # lens))))"
proof
  have "bump_inv rule (bump_start n rule)" by (auto simp: bump_inv_def bump_start_def reg_ok_def)
  from bump_run_inv [OF this, of es]
  show "let s = bump_run es (bump_start n rule) in
      (\<exists>k \<le> counted_pkts s. PktCount (brule s) = PktCount rule + of_nat k)
      \<and> (\<exists>m \<le> counted_bytes s. ByteCount (brule s) = ByteCount rule + of_nat m)"
    by (simp add: bump_inv_def Let_def)
next
  show "\<exists>fs s. s = bump_run fs (bump_start 2 rule)
      \<and> counted_pkts s = length lens + 1 \<and> bcpus s = [PktLoad, PktLoad]
      \<and> PktCount (brule s) = PktCount rule + 1
      \<and> ByteCount (brule s) = ByteCount rule + of_nat (sum_list (map unat (len # lens)))"
    by (intro exI [of _ "lossy len lens"] exI conjI, rule refl)
      (simp_all add: lossy_schedule fold_bump_rule algebra_simps)
qed

end
