(* ===== verification/BpfMaps.thy ===== *)
theory BpfMaps
  imports RuleTypes "HOL-Library.AList"
begin

text \<open>
  \<open>control/maps/maps.go\<close>: the typed wrappers around the pinned BPF maps.
  The \<open>*ebpf.Map\<close> underneath belongs to the library \<open>cilium/ebpf\<close> and to the kernel, so its
  operations are the record \<open>bpf_api\<close>, a parameter of every wrapper; the locale \<open>bpf_maps\<close>
  states their documented laws (what an update, a deletion, a lookup and an iteration do to the
  contents), and the wrappers' contracts are proved once under it. \<open>ref_api\<close> is a table per map with
  the type and capacity declared in \<open>ebpf/gtp_xdp.c\<close>; it satisfies the laws.
\<close>

section \<open>The library interface\<close>

text \<open>What a map stores: a rule (three hash maps), an ifindex (devmap) or per-CPU counters.\<close>

datatype map_value = RuleV fwd_rule | PortV u32 | StatsV "(u64 \<times> u64) list"

type_synonym map_fd = nat

record 'k bpf_api =
  LoadPinnedMap :: "string \<Rightarrow> 'k \<Rightarrow> go_error + map_fd"
  MapPut :: "map_fd \<Rightarrow> u32 \<Rightarrow> map_value \<Rightarrow> 'k \<Rightarrow> go_error option \<times> 'k"
  MapDelete :: "map_fd \<Rightarrow> u32 \<Rightarrow> 'k \<Rightarrow> go_error option \<times> 'k"
  MapLookup :: "map_fd \<Rightarrow> u32 \<Rightarrow> 'k \<Rightarrow> go_error + map_value"
  MapIterate :: "map_fd \<Rightarrow> 'k \<Rightarrow> (u32 \<times> map_value) list \<times> go_error option"
  MapClose :: "map_fd \<Rightarrow> 'k \<Rightarrow> 'k"

text \<open>\<open>errors.Is(err, ebpf.ErrKeyNotExist)\<close>.\<close>

fun is_key_not_exist :: "go_error \<Rightarrow> bool" where
  "is_key_not_exist KeyNotExist = True"
| "is_key_not_exist (Wrapped s e) = is_key_not_exist e"
| "is_key_not_exist _ = False"

section \<open>Sequencing\<close>

text \<open>
  A step takes the kernel state and returns a result or an error with the state after it;
  \<open>andThen\<close> stops at the first error. \<open>with_map\<close> is \<open>open; defer Close; body\<close>.
\<close>

type_synonym ('k, 'a) run = "'k \<Rightarrow> (go_error + 'a) \<times> 'k"

definition andThen :: "('k, 'a) run \<Rightarrow> ('a \<Rightarrow> ('k, 'b) run) \<Rightarrow> ('k, 'b) run" where
  "andThen m f = (\<lambda>k. case m k of (Inl e, k') \<Rightarrow> (Inl e, k') | (Inr x, k') \<Rightarrow> f x k')"

definition with_map ::
  "'k bpf_api \<Rightarrow> ('k, map_fd) run \<Rightarrow> (map_fd \<Rightarrow> ('k, 'a) run) \<Rightarrow> ('k, 'a) run" where
  "with_map api opn body =
     andThen opn (\<lambda>m k. case body m k of (r, k') \<Rightarrow> (r, MapClose api m k'))"

section \<open>Pinned paths\<close>

definition PinDir :: string where "PinDir = ''/sys/fs/bpf/gtp_router''"
definition PinTeidMap :: string where "PinTeidMap = PinDir @ ''/teid_map''"
definition PinUeipMap :: string where "PinUeipMap = PinDir @ ''/ueip_map''"
definition PinNatMap :: string where "PinNatMap = PinDir @ ''/nat_map''"
definition PinStatsMap :: string where "PinStatsMap = PinDir @ ''/stats_map''"
definition PinTxPort :: string where "PinTxPort = PinDir @ ''/tx_port''"
definition PinProg :: string where "PinProg = PinDir @ ''/xdp_prog''"
definition PinProgDownlink :: string where "PinProgDownlink = PinDir @ ''/xdp_prog_dl''"

lemmas pin_defs = PinTeidMap_def PinUeipMap_def PinNatMap_def PinStatsMap_def PinTxPort_def
  PinProg_def PinProgDownlink_def

lemma pins_distinct:
  "distinct [PinTeidMap, PinUeipMap, PinNatMap, PinStatsMap, PinTxPort, PinProg,
     PinProgDownlink]"
  by (simp add: pin_defs)

definition open_pinned :: "'k bpf_api \<Rightarrow> string \<Rightarrow> string \<Rightarrow> ('k, map_fd) run" where
  "open_pinned api path label k =
     (case LoadPinnedMap api path k of
        Inl e \<Rightarrow> (Inl (Wrapped label e), k)
      | Inr m \<Rightarrow> (Inr m, k))"

section \<open>TeidMap\<close>

definition OpenTeidMap :: "'k bpf_api \<Rightarrow> ('k, map_fd) run" where
  "OpenTeidMap api = open_pinned api PinTeidMap ''open teid_map''"

definition TeidMap_Put :: "'k bpf_api \<Rightarrow> map_fd \<Rightarrow> u32 \<Rightarrow> fwd_rule \<Rightarrow> ('k, unit) run" where
  "TeidMap_Put api t teid rule k =
     (case MapPut api t teid (RuleV rule) k of
        (Some e, k') \<Rightarrow> (Inl (Wrapped (''teid_map put 0x'' @ fmt_08X teid) e), k')
      | (None, k') \<Rightarrow> (Inr (), k'))"

definition TeidMap_Delete :: "'k bpf_api \<Rightarrow> map_fd \<Rightarrow> u32 \<Rightarrow> ('k, unit) run" where
  "TeidMap_Delete api t teid k =
     (case MapDelete api t teid k of
        (Some e, k') \<Rightarrow>
          if \<not> is_key_not_exist e
          then (Inl (Wrapped (''teid_map delete 0x'' @ fmt_08X teid) e), k')
          else (Inr (), k')
      | (None, k') \<Rightarrow> (Inr (), k'))"

text \<open>\<open>Lookup(key, &rule)\<close>: a value of another map type does not unmarshal into a rule.\<close>

definition lookup_rule ::
  "'k bpf_api \<Rightarrow> map_fd \<Rightarrow> u32 \<Rightarrow> string \<Rightarrow> 'k \<Rightarrow> go_error + fwd_rule option" where
  "lookup_rule api m key label k =
     (case MapLookup api m key k of
        Inl e \<Rightarrow> if is_key_not_exist e then Inr None else Inl (Wrapped label e)
      | Inr (RuleV rule) \<Rightarrow> Inr (Some rule)
      | Inr _ \<Rightarrow> Inl (Wrapped label (External ''unmarshal'')))"

definition TeidMap_Get :: "'k bpf_api \<Rightarrow> map_fd \<Rightarrow> u32 \<Rightarrow> 'k \<Rightarrow> go_error + fwd_rule option" where
  "TeidMap_Get api t teid = lookup_rule api t teid (''teid_map lookup 0x'' @ fmt_08X teid)"

text \<open>
  The body of \<open>List\<close>: every \<open>iter.Next(&key, &rule)\<close> copies the rule into the Go map under its
  key; an element that does not unmarshal ends the iteration with an error. The Go map is an
  association list with distinct keys.
\<close>

type_synonym rule_table = "(u32 \<times> fwd_rule) list"

fun collect_rules :: "rule_table \<Rightarrow> (u32 \<times> map_value) list \<Rightarrow> rule_table \<times> go_error option" where
  "collect_rules out [] = (out, None)"
| "collect_rules out ((key, RuleV rule) # xs) = collect_rules (AList.update key rule out) xs"
| "collect_rules out ((key, _) # xs) = (out, Some (External ''unmarshal''))"

definition list_rules ::
  "'k bpf_api \<Rightarrow> map_fd \<Rightarrow> string \<Rightarrow> 'k \<Rightarrow> go_error + rule_table" where
  "list_rules api m label k =
     (case MapIterate api m k of
        (xs, ierr) \<Rightarrow>
          (case collect_rules [] xs of
             (out, Some e) \<Rightarrow> Inl (Wrapped label e)
           | (out, None) \<Rightarrow>
               (case ierr of
                  Some e \<Rightarrow> Inl (Wrapped label e)
                | None \<Rightarrow> Inr out)))"

definition TeidMap_List :: "'k bpf_api \<Rightarrow> map_fd \<Rightarrow> 'k \<Rightarrow> go_error + rule_table" where
  "TeidMap_List api t = list_rules api t ''teid_map iterate''"

text \<open>The rule a map cell holds, if any.\<close>

definition rule_of :: "map_value option \<Rightarrow> fwd_rule option" where
  "rule_of c = (case c of Some (RuleV rule) \<Rightarrow> Some rule | _ \<Rightarrow> None)"

lemma rule_of_simps [simp]:
  "rule_of None = None" "rule_of (Some (RuleV rule)) = Some rule"
  "rule_of (Some (PortV p)) = None" "rule_of (Some (StatsV s)) = None"
  by (simp_all add: rule_of_def)

lemma collect_rules_map_of:
  "collect_rules out xs = (out', None) \<Longrightarrow> distinct (map fst xs) \<Longrightarrow>
     map_of out' x = (case rule_of (map_of xs x) of Some r \<Rightarrow> Some r | None \<Rightarrow> map_of out x)"
proof (induction out xs rule: collect_rules.induct)
  case (2 out key rule xs)
  then show ?case
    by (auto simp: update_conv' split: option.splits)
       (metis map_of_eq_None_iff option.distinct(1) rule_of_simps(1))+
qed auto

lemma collect_rules_distinct:
  "distinct (map fst out) \<Longrightarrow> collect_rules out xs = (out', e) \<Longrightarrow> distinct (map fst out')"
  by (induction out xs rule: collect_rules.induct) (auto simp: distinct_update)

section \<open>UeipMap and NatMap\<close>

definition OpenUeipMap :: "'k bpf_api \<Rightarrow> ('k, map_fd) run" where
  "OpenUeipMap api = open_pinned api PinUeipMap ''open ueip_map''"

definition ipKey :: "go_IP \<Rightarrow> go_error + u32" where
  "ipKey ip = (case To4 ip of [a, b, c, d] \<Rightarrow> Inr (be32 a b c d) | _ \<Rightarrow> Inl (NotIPv4 ip))"

definition UeipMap_Put :: "'k bpf_api \<Rightarrow> map_fd \<Rightarrow> go_IP \<Rightarrow> fwd_rule \<Rightarrow> ('k, unit) run" where
  "UeipMap_Put api u ueip rule k =
     (case ipKey ueip of
        Inl e \<Rightarrow> (Inl e, k)
      | Inr key \<Rightarrow>
          (case MapPut api u key (RuleV rule) k of
             (Some e, k') \<Rightarrow> (Inl (Wrapped (''ueip_map put '' @ IP4_String ueip) e), k')
           | (None, k') \<Rightarrow> (Inr (), k')))"

definition UeipMap_Delete :: "'k bpf_api \<Rightarrow> map_fd \<Rightarrow> go_IP \<Rightarrow> ('k, unit) run" where
  "UeipMap_Delete api u ueip k =
     (case ipKey ueip of
        Inl e \<Rightarrow> (Inl e, k)
      | Inr key \<Rightarrow>
          (case MapDelete api u key k of
             (Some e, k') \<Rightarrow>
               if \<not> is_key_not_exist e
               then (Inl (Wrapped (''ueip_map delete '' @ IP4_String ueip) e), k')
               else (Inr (), k')
           | (None, k') \<Rightarrow> (Inr (), k')))"

definition UeipMap_Get ::
  "'k bpf_api \<Rightarrow> map_fd \<Rightarrow> go_IP \<Rightarrow> 'k \<Rightarrow> go_error + fwd_rule option" where
  "UeipMap_Get api u ueip k =
     check (ipKey ueip) (\<lambda>key. lookup_rule api u key (''ueip_map lookup '' @ IP4_String ueip) k)"

definition UeipMap_List :: "'k bpf_api \<Rightarrow> map_fd \<Rightarrow> 'k \<Rightarrow> go_error + rule_table" where
  "UeipMap_List api u = list_rules api u ''ueip_map iterate''"

definition OpenNatMap :: "'k bpf_api \<Rightarrow> ('k, map_fd) run" where
  "OpenNatMap api = open_pinned api PinNatMap ''open nat_map''"

definition NatMap_Put :: "'k bpf_api \<Rightarrow> map_fd \<Rightarrow> go_IP \<Rightarrow> fwd_rule \<Rightarrow> ('k, unit) run" where
  "NatMap_Put api n natIP rule k =
     (case ipKey natIP of
        Inl e \<Rightarrow> (Inl e, k)
      | Inr key \<Rightarrow>
          (case MapPut api n key (RuleV rule) k of
             (Some e, k') \<Rightarrow> (Inl (Wrapped (''nat_map put '' @ IP4_String natIP) e), k')
           | (None, k') \<Rightarrow> (Inr (), k')))"

definition NatMap_Delete :: "'k bpf_api \<Rightarrow> map_fd \<Rightarrow> go_IP \<Rightarrow> ('k, unit) run" where
  "NatMap_Delete api n natIP k =
     (case ipKey natIP of
        Inl e \<Rightarrow> (Inl e, k)
      | Inr key \<Rightarrow>
          (case MapDelete api n key k of
             (Some e, k') \<Rightarrow>
               if \<not> is_key_not_exist e
               then (Inl (Wrapped (''nat_map delete '' @ IP4_String natIP) e), k')
               else (Inr (), k')
           | (None, k') \<Rightarrow> (Inr (), k')))"

definition NatMap_Get ::
  "'k bpf_api \<Rightarrow> map_fd \<Rightarrow> go_IP \<Rightarrow> 'k \<Rightarrow> go_error + fwd_rule option" where
  "NatMap_Get api n natIP k =
     check (ipKey natIP) (\<lambda>key. lookup_rule api n key (''nat_map lookup '' @ IP4_String natIP) k)"

definition NatMap_List :: "'k bpf_api \<Rightarrow> map_fd \<Rightarrow> 'k \<Rightarrow> go_error + rule_table" where
  "NatMap_List api n = list_rules api n ''nat_map iterate''"

section \<open>TxPortMap\<close>

definition OpenTxPortMap :: "'k bpf_api \<Rightarrow> ('k, map_fd) run" where
  "OpenTxPortMap api = open_pinned api PinTxPort ''open tx_port''"

definition TxPortMap_Ensure :: "'k bpf_api \<Rightarrow> map_fd \<Rightarrow> u32 \<Rightarrow> ('k, unit) run" where
  "TxPortMap_Ensure api t ifindex k =
     (case MapPut api t ifindex (PortV ifindex) k of
        (Some e, k') \<Rightarrow> (Inl (Wrapped (''tx_port put ifindex '' @ fmt_d (unat ifindex)) e), k')
      | (None, k') \<Rightarrow> (Inr (), k'))"

definition EnsureTxPort :: "'k bpf_api \<Rightarrow> u32 \<Rightarrow> ('k, unit) run" where
  "EnsureTxPort api ifindex k =
     (if ifindex = 0 then (Inr (), k)
      else with_map api (OpenTxPortMap api) (\<lambda>t. TxPortMap_Ensure api t ifindex) k)"

section \<open>The laws of the library\<close>

text \<open>
  \<open>pinned k p\<close> is the map behind the pin \<open>p\<close>; \<open>entries k m\<close> are the contents of map \<open>m\<close>. The
  laws are those of an idle map (no other writer between the steps of one operation).
\<close>

locale bpf_maps =
  fixes api :: "'k bpf_api"
    and pinned :: "'k \<Rightarrow> string \<Rightarrow> map_fd option"
    and entries :: "'k \<Rightarrow> map_fd \<Rightarrow> u32 \<Rightarrow> map_value option"
  assumes load_pinned: "LoadPinnedMap api p k = Inr m \<Longrightarrow> pinned k p = Some m"
    and put_ok: "MapPut api m x v k = (None, k') \<Longrightarrow>
        entries k' = (entries k)(m := (entries k m)(x \<mapsto> v)) \<and> pinned k' = pinned k"
    and put_err: "MapPut api m x v k = (Some e, k') \<Longrightarrow>
        entries k' = entries k \<and> pinned k' = pinned k"
    and delete_ok: "MapDelete api m x k = (None, k') \<Longrightarrow>
        entries k' = (entries k)(m := (entries k m)(x := None)) \<and> pinned k' = pinned k"
    and delete_err: "MapDelete api m x k = (Some e, k') \<Longrightarrow>
        entries k' = entries k \<and> pinned k' = pinned k
        \<and> (is_key_not_exist e \<longrightarrow> entries k m x = None)"
    and lookup_present: "entries k m x = Some v \<Longrightarrow> MapLookup api m x k = Inr v"
    and lookup_absent: "entries k m x = None \<Longrightarrow>
        \<exists>e. MapLookup api m x k = Inl e \<and> is_key_not_exist e"
    and iterate_ok: "MapIterate api m k = (xs, None) \<Longrightarrow>
        map_of xs = entries k m \<and> distinct (map fst xs)"
    and close_map: "entries (MapClose api m k) = entries k \<and> pinned (MapClose api m k) = pinned k"
begin

text \<open>One rule table: what \<open>put_rule\<close>-shaped wrappers write, \<open>lookup_rule\<close> reads.\<close>

lemma lookup_rule_entries:
  "lookup_rule api m x label k =
     (case entries k m x of
        None \<Rightarrow> Inr None
      | Some (RuleV rule) \<Rightarrow> Inr (Some rule)
      | Some _ \<Rightarrow> Inl (Wrapped label (External ''unmarshal'')))"
proof (cases "entries k m x")
  case None
  then show ?thesis
    using lookup_absent [of k m x] by (auto simp: lookup_rule_def)
next
  case (Some v)
  then show ?thesis
    using lookup_present [of k m x v] by (cases v) (auto simp: lookup_rule_def)
qed

lemma teid_put_entries:
  "TeidMap_Put api t teid rule k = (Inr (), k') \<Longrightarrow>
     entries k' = (entries k)(t := (entries k t)(teid \<mapsto> RuleV rule)) \<and> pinned k' = pinned k"
  by (auto simp: TeidMap_Put_def split: prod.splits option.splits dest: put_ok)

lemma teid_put_error_entries:
  "TeidMap_Put api t teid rule k = (Inl e, k') \<Longrightarrow> entries k' = entries k \<and> pinned k' = pinned k"
  by (auto simp: TeidMap_Put_def split: prod.splits option.splits dest: put_err)

text \<open>A deletion that returns nil leaves the key absent, whether it was present or not.\<close>

lemma teid_delete_entries:
  assumes "TeidMap_Delete api t teid k = (Inr (), k')"
  shows "entries k' = (entries k)(t := (entries k t)(teid := None)) \<and> pinned k' = pinned k"
proof (cases "MapDelete api t teid k")
  case (Pair r k1)
  then show ?thesis
  proof (cases r)
    case None
    with Pair assms show ?thesis
      using delete_ok [of t teid k k1] by (simp add: TeidMap_Delete_def)
  next
    case (Some e)
    with Pair assms have "is_key_not_exist e" "k' = k1"
      by (auto simp: TeidMap_Delete_def split: if_splits)
    with Pair Some show ?thesis
      using delete_err [of t teid k e k1] by (auto simp: fun_eq_iff)
  qed
qed

text \<open>The wrappers keyed by an address write the cell of its big-endian value.\<close>

lemma ueip_put_entries:
  assumes "UeipMap_Put api u ueip rule k = (Inr (), k')"
  obtains key where "ipKey ueip = Inr key"
    and "entries k' = (entries k)(u := (entries k u)(key \<mapsto> RuleV rule))"
    and "pinned k' = pinned k"
  using assms
  by (auto simp: UeipMap_Put_def split: prod.splits option.splits sum.splits dest: put_ok)

lemma nat_put_entries:
  assumes "NatMap_Put api n natIP rule k = (Inr (), k')"
  obtains key where "ipKey natIP = Inr key"
    and "entries k' = (entries k)(n := (entries k n)(key \<mapsto> RuleV rule))"
    and "pinned k' = pinned k"
  using assms
  by (auto simp: NatMap_Put_def split: prod.splits option.splits sum.splits dest: put_ok)

lemma ueip_delete_entries:
  assumes "UeipMap_Delete api u ueip k = (Inr (), k')"
  obtains key where "ipKey ueip = Inr key"
    and "entries k' = (entries k)(u := (entries k u)(key := None))"
    and "pinned k' = pinned k"
proof -
  obtain key where key: "ipKey ueip = Inr key"
    using assms by (auto simp: UeipMap_Delete_def split: sum.splits)
  have "TeidMap_Delete api u key k = (Inr (), k')"
    using assms key
    by (auto simp: UeipMap_Delete_def TeidMap_Delete_def split: prod.splits option.splits if_splits)
  then show ?thesis
    using that [OF key] teid_delete_entries by blast
qed

lemma nat_delete_entries:
  assumes "NatMap_Delete api n natIP k = (Inr (), k')"
  obtains key where "ipKey natIP = Inr key"
    and "entries k' = (entries k)(n := (entries k n)(key := None))"
    and "pinned k' = pinned k"
proof -
  obtain key where key: "ipKey natIP = Inr key"
    using assms by (auto simp: NatMap_Delete_def split: sum.splits)
  have "TeidMap_Delete api n key k = (Inr (), k')"
    using assms key
    by (auto simp: NatMap_Delete_def TeidMap_Delete_def split: prod.splits option.splits if_splits)
  then show ?thesis
    using that [OF key] teid_delete_entries by blast
qed

text \<open>A listing is the contents of the map, whatever order the kernel iterates in.\<close>

lemma list_rules_entries:
  assumes "list_rules api m label k = Inr out"
  shows "map_of out x = rule_of (entries k m x)" and "distinct (map fst out)"
proof -
  obtain xs ierr where it: "MapIterate api m k = (xs, ierr)" by fastforce
  with assms have ierr: "ierr = None" and c: "collect_rules [] xs = (out, None)"
    by (auto simp: list_rules_def split: prod.splits option.splits)
  from iterate_ok it ierr have xs: "map_of xs = entries k m" "distinct (map fst xs)"
    by auto
  show "map_of out x = rule_of (entries k m x)"
    using collect_rules_map_of [OF c xs(2), of x] by (simp add: xs(1) split: option.splits)
  show "distinct (map fst out)"
    using collect_rules_distinct [OF _ c] by simp
qed

text \<open>Opening a pin and closing the handle leave the maps alone.\<close>

lemma open_pinned_result:
  "open_pinned api p label k = (Inr m, k') \<longleftrightarrow> LoadPinnedMap api p k = Inr m \<and> k' = k"
  "open_pinned api p label k = (Inl e, k') \<Longrightarrow> k' = k"
  by (auto simp: open_pinned_def split: sum.splits)

lemma with_map_pinned:
  assumes "with_map api (open_pinned api p label) body k = (Inr x, k')"
  obtains m k1 where "pinned k p = Some m" and "body m k = (Inr x, k1)"
    and "entries k' = entries k1" and "pinned k' = pinned k1"
  using assms close_map
  by (auto simp: with_map_def andThen_def open_pinned_result split: prod.splits sum.splits
      dest!: load_pinned)

lemma ensure_tx_port_entries:
  assumes "EnsureTxPort api ifindex k = (Inr (), k')" and "ifindex \<noteq> 0"
  obtains t where "pinned k PinTxPort = Some t"
    and "entries k' = (entries k)(t := (entries k t)(ifindex \<mapsto> PortV ifindex))"
    and "pinned k' = pinned k"
proof -
  from assms have "with_map api (open_pinned api PinTxPort ''open tx_port'')
      (\<lambda>t. TxPortMap_Ensure api t ifindex) k = (Inr (), k')"
    by (simp add: EnsureTxPort_def OpenTxPortMap_def)
  then obtain t k1 where t: "pinned k PinTxPort = Some t"
      and b: "TxPortMap_Ensure api t ifindex k = (Inr (), k1)"
      and e: "entries k' = entries k1" "pinned k' = pinned k1"
    by (rule with_map_pinned)
  from b have "MapPut api t ifindex (PortV ifindex) k = (None, k1)"
    by (auto simp: TxPortMap_Ensure_def split: prod.splits option.splits)
  from put_ok [OF this] e t that show ?thesis by simp
qed

end

section \<open>The reference tables\<close>

text \<open>
  The maps as \<open>ebpf/gtp_xdp.c\<close> declares them: three hash maps of rules, the per-CPU counters and
  the devmap. A hash map refuses a new key when it is full; the arrays refuse an index at or
  above their size; deleting a missing key reports that it does not exist.
\<close>

datatype map_kind = HashOfRules | DevMap | PercpuArray

record table =
  Kind :: map_kind
  MaxEntries :: nat
  Cells :: "u32 \<Rightarrow> map_value option"

record ref_kernel =
  Pins :: "string \<Rightarrow> map_fd option"
  Tables :: "map_fd \<Rightarrow> table"

definition fits :: "map_kind \<Rightarrow> map_value \<Rightarrow> bool" where
  "fits kd v = (case (kd, v) of
     (HashOfRules, RuleV _) \<Rightarrow> True | (DevMap, PortV _) \<Rightarrow> True | (PercpuArray, StatsV _) \<Rightarrow> True
   | _ \<Rightarrow> False)"

definition has_room :: "table \<Rightarrow> u32 \<Rightarrow> bool" where
  "has_room t x =
     (if Kind t = HashOfRules then Cells t x \<noteq> None \<or> card (dom (Cells t)) < MaxEntries t
      else unat x < MaxEntries t)"

definition set_cell :: "map_fd \<Rightarrow> u32 \<Rightarrow> map_value option \<Rightarrow> ref_kernel \<Rightarrow> ref_kernel" where
  "set_cell m x c k =
     k\<lparr>Tables := (Tables k)(m := (Tables k m)\<lparr>Cells := (Cells (Tables k m))(x := c)\<rparr>)\<rparr>"

definition ref_put :: "map_fd \<Rightarrow> u32 \<Rightarrow> map_value \<Rightarrow> ref_kernel \<Rightarrow> go_error option \<times> ref_kernel" where
  "ref_put m x v k =
     (if \<not> fits (Kind (Tables k m)) v then (Some (External ''marshal value''), k)
      else if \<not> has_room (Tables k m) x then (Some (External ''argument list too long''), k)
      else (None, set_cell m x (Some v) k))"

definition ref_delete :: "map_fd \<Rightarrow> u32 \<Rightarrow> ref_kernel \<Rightarrow> go_error option \<times> ref_kernel" where
  "ref_delete m x k =
     (if Kind (Tables k m) = PercpuArray then (Some (External ''invalid argument''), k)
      else if Cells (Tables k m) x = None then (Some (Wrapped ''delete'' KeyNotExist), k)
      else (None, set_cell m x None k))"

definition ref_api :: "ref_kernel bpf_api" where
  "ref_api =
     \<lparr>LoadPinnedMap = (\<lambda>p k. case Pins k p of
                          None \<Rightarrow> Inl (External ''no such file or directory'')
                        | Some m \<Rightarrow> Inr m),
      MapPut = ref_put,
      MapDelete = ref_delete,
      MapLookup = (\<lambda>m x k. case Cells (Tables k m) x of
                          None \<Rightarrow> Inl (Wrapped ''lookup'' KeyNotExist)
                        | Some v \<Rightarrow> Inr v),
      MapIterate = (\<lambda>m k. (map (\<lambda>x. (x, the (Cells (Tables k m) x)))
                             (sorted_list_of_set (dom (Cells (Tables k m)))), None)),
      MapClose = (\<lambda>m k. k)\<rparr>"

definition ref_entries :: "ref_kernel \<Rightarrow> map_fd \<Rightarrow> u32 \<Rightarrow> map_value option" where
  "ref_entries k m = Cells (Tables k m)"

text \<open>The kernel after \<open>gtp-ctrl load\<close>: map 0 is \<open>teid_map\<close>, 1 \<open>ueip_map\<close>, 2 \<open>nat_map\<close>, \dots\<close>

definition loaded_kernel :: ref_kernel where
  "loaded_kernel =
     \<lparr>Pins = [PinTeidMap \<mapsto> 0, PinUeipMap \<mapsto> 1, PinNatMap \<mapsto> 2, PinStatsMap \<mapsto> 3, PinTxPort \<mapsto> 4],
      Tables = (\<lambda>m.
        if m = 3 then \<lparr>Kind = PercpuArray, MaxEntries = 4, Cells = Map.empty\<rparr>
        else if m = 4 then \<lparr>Kind = DevMap, MaxEntries = 256, Cells = Map.empty\<rparr>
        else if m = 2 then \<lparr>Kind = HashOfRules, MaxEntries = 256, Cells = Map.empty\<rparr>
        else \<lparr>Kind = HashOfRules, MaxEntries = 65536, Cells = Map.empty\<rparr>)\<rparr>"

lemma map_of_sorted_dom:
  "map_of (map (\<lambda>x. (x, the (c x))) (sorted_list_of_set (dom c))) = (c :: u32 \<Rightarrow> 'v option)"
proof
  fix x
  show "map_of (map (\<lambda>x. (x, the (c x))) (sorted_list_of_set (dom c))) x = c x"
    by (cases "c x") (auto simp: map_of_map_restrict restrict_map_def)
qed

interpretation ref: bpf_maps ref_api Pins ref_entries
proof unfold_locales
  fix p k m assume "LoadPinnedMap ref_api p k = Inr m"
  then show "Pins k p = Some m" by (auto simp: ref_api_def split: option.splits)
next
  fix m x v k k' assume "MapPut ref_api m x v k = (None, k')"
  then show "ref_entries k' = (ref_entries k)(m := (ref_entries k m)(x \<mapsto> v)) \<and> Pins k' = Pins k"
    by (auto simp: ref_api_def ref_put_def ref_entries_def set_cell_def split: if_splits)
next
  fix m x v k e k' assume "MapPut ref_api m x v k = (Some e, k')"
  then show "ref_entries k' = ref_entries k \<and> Pins k' = Pins k"
    by (auto simp: ref_api_def ref_put_def split: if_splits)
next
  fix m x k k' assume "MapDelete ref_api m x k = (None, k')"
  then show "ref_entries k' = (ref_entries k)(m := (ref_entries k m)(x := None)) \<and> Pins k' = Pins k"
    by (auto simp: ref_api_def ref_delete_def ref_entries_def set_cell_def split: if_splits)
next
  fix m x k e k' assume "MapDelete ref_api m x k = (Some e, k')"
  then show "ref_entries k' = ref_entries k \<and> Pins k' = Pins k
      \<and> (is_key_not_exist e \<longrightarrow> ref_entries k m x = None)"
    by (auto simp: ref_api_def ref_delete_def ref_entries_def split: if_splits)
next
  fix k m x v assume "ref_entries k m x = Some v"
  then show "MapLookup ref_api m x k = Inr v" by (simp add: ref_api_def ref_entries_def)
next
  fix k m x assume "ref_entries k m x = None"
  then show "\<exists>e. MapLookup ref_api m x k = Inl e \<and> is_key_not_exist e"
    by (simp add: ref_api_def ref_entries_def)
next
  fix m k xs assume "MapIterate ref_api m k = (xs, None)"
  then show "map_of xs = ref_entries k m \<and> distinct (map fst xs)"
    by (auto simp: ref_api_def ref_entries_def map_of_sorted_dom comp_def)
next
  fix k m
  show "ref_entries (MapClose ref_api m k) = ref_entries k \<and> Pins (MapClose ref_api m k) = Pins k"
    by (simp add: ref_api_def)
qed

end
