(* ===== verification/Commands.thy ===== *)
theory Commands
  imports BpfMaps
begin

text \<open>
  \<open>control/cmd\<close>: the rule commands of \<open>gtp-ctrl\<close>. A command is its \<open>RunE\<close> as a function of the
  values of its flags (the package variables cobra fills in), of the interface table of the host
  (\<open>net.InterfaceByName\<close>) and of the kernel state; it returns the line it prints or the error.
  Every command first builds its key and its rule (\<open>*_build\<close>, no effect), then opens the pinned
  map, writes, and for the commands that do so provisions the devmap entry.
\<close>

section \<open>util.go\<close>

definition parseTEID :: "string \<Rightarrow> go_error + u32" where
  "parseTEID s0 =
     (if s0 = [] then Inl EmptyValue
      else let s = TrimSpace s0;
               r = (if HasPrefix s ''0x'' \<or> HasPrefix s ''0X''
                    then ParseUint (drop 2 s) 16 32
                    else ParseUint s 10 32)
           in case r of Inl e \<Rightarrow> Inl (InvalidValue s) | Inr val \<Rightarrow> Inr (of_nat val))"

section \<open>Flags shared by the commands\<close>

text \<open>The host's interfaces: a name has an index or \<open>InterfaceByName\<close> fails.\<close>

type_synonym interfaces = "string \<Rightarrow> go_error + int"

text \<open>\<open>if flag != "" { ... }\<close>: an absent flag leaves the rule alone.\<close>

definition opt_flag :: "string \<Rightarrow> (string \<Rightarrow> fwd_rule \<Rightarrow> go_error + fwd_rule) \<Rightarrow> fwd_rule
    \<Rightarrow> go_error + fwd_rule" where
  "opt_flag v f rule = (if v = [] then Inr rule else f v rule)"

definition egress_flag :: "interfaces \<Rightarrow> string \<Rightarrow> fwd_rule \<Rightarrow> go_error + fwd_rule" where
  "egress_flag ifaces name rule =
     (case ifaces name of
        Inl e \<Rightarrow> Inl (Wrapped (''egress interface '' @ name) e)
      | Inr index \<Rightarrow> Inr (rule\<lparr>OutIfindex := word_of_int index\<rparr>))"

definition mac_flag :: "string \<Rightarrow> (mac \<Rightarrow> fwd_rule \<Rightarrow> fwd_rule) \<Rightarrow> string \<Rightarrow> fwd_rule
    \<Rightarrow> go_error + fwd_rule" where
  "mac_flag flag upd v rule =
     (case ParseMAC v of Inl e \<Rightarrow> Inl (Wrapped flag e) | Inr mac \<Rightarrow> Inr (upd mac rule))"

definition ip_flag :: "string \<Rightarrow> (u32 \<Rightarrow> fwd_rule \<Rightarrow> fwd_rule) \<Rightarrow> string \<Rightarrow> fwd_rule
    \<Rightarrow> go_error + fwd_rule" where
  "ip_flag flag upd v rule =
     (if ParseIP v = [] then Inl (InvalidFlag flag v)
      else check (IPToUint32 (ParseIP v)) (\<lambda>n. Inr (upd n rule)))"

text \<open>The port in network byte order, stored as a little-endian \<open>uint16\<close>.\<close>

definition swap_port :: "u16 \<Rightarrow> u16" where
  "swap_port p = be16 (ucast p) (ucast (drop_bit 8 p))"

definition dst_port_flag :: "u16 \<Rightarrow> fwd_rule \<Rightarrow> fwd_rule" where
  "dst_port_flag p rule = (if p \<noteq> 0 then rule\<lparr>DstPort := swap_port p\<rparr> else rule)"

text \<open>
  The flags every rule command reads in the same order and with the same code: egress interface,
  the two MAC addresses and the two outer addresses.
\<close>

definition forward_flags :: "interfaces \<Rightarrow> string \<Rightarrow> string \<Rightarrow> string \<Rightarrow> string \<Rightarrow> string \<Rightarrow> fwd_rule
    \<Rightarrow> go_error + fwd_rule" where
  "forward_flags ifaces oif dm sm dip sip rule =
     check (opt_flag oif (egress_flag ifaces) rule) (\<lambda>rule.
     check (opt_flag dm (mac_flag ''--dmac'' (\<lambda>m r. r\<lparr>DMac := m\<rparr>)) rule) (\<lambda>rule.
     check (opt_flag sm (mac_flag ''--smac'' (\<lambda>m r. r\<lparr>SMac := m\<rparr>)) rule) (\<lambda>rule.
     check (opt_flag dip (ip_flag ''--dst-ip'' (\<lambda>n r. r\<lparr>DstIP := n\<rparr>)) rule) (\<lambda>rule.
     opt_flag sip (ip_flag ''--src-ip'' (\<lambda>n r. r\<lparr>SrcIP := n\<rparr>)) rule))))"

text \<open>A text line: \<open>\n\<close> is byte 10.\<close>

definition newline :: string where "newline = [char_of (10::nat)]"

section \<open>add-teid\<close>

record add_teid_flags =
  addTeidTeid :: string
  addTeidAction :: string
  addTeidOutIface :: string
  addTeidDMac :: string
  addTeidSMac :: string
  addTeidDstIP :: string
  addTeidSrcIP :: string
  addTeidTeidOut :: u32
  addTeidDstPort :: u16
  addTeidNatIP :: string
  addTeidRatePPS :: u32
  addTeidQuarantineThreshold :: u32
  addTeidQuarantineSeconds :: u32

text \<open>The defaults registered in \<open>init\<close>.\<close>

definition add_teid_defaults :: add_teid_flags where
  "add_teid_defaults =
     \<lparr>addTeidTeid = '''', addTeidAction = ''decap'', addTeidOutIface = '''', addTeidDMac = '''',
      addTeidSMac = '''', addTeidDstIP = '''', addTeidSrcIP = '''', addTeidTeidOut = 0,
      addTeidDstPort = 2152, addTeidNatIP = '''', addTeidRatePPS = 0,
      addTeidQuarantineThreshold = 0, addTeidQuarantineSeconds = 0\<rparr>"

definition add_teid_build :: "interfaces \<Rightarrow> add_teid_flags \<Rightarrow> go_error + (u32 \<times> fwd_rule)" where
  "add_teid_build ifaces f =
     check (parseTEID (addTeidTeid f)) (\<lambda>teid.
     check (ParseAction (addTeidAction f)) (\<lambda>action.
     check (forward_flags ifaces (addTeidOutIface f) (addTeidDMac f) (addTeidSMac f)
       (addTeidDstIP f) (addTeidSrcIP f)
       (zero_rule\<lparr>Action := action, TeidOut := addTeidTeidOut f, RatePPS := addTeidRatePPS f,
          QuarantineThreshold := addTeidQuarantineThreshold f,
          QuarantineSeconds := addTeidQuarantineSeconds f\<rparr>)) (\<lambda>rule.
     check (opt_flag (addTeidNatIP f) (ip_flag ''--nat-ip'' (\<lambda>n r. r\<lparr>NatIP := n\<rparr>))
       (dst_port_flag (addTeidDstPort f) rule)) (\<lambda>rule.
     check (ValidateRule rule) (\<lambda>_. Inr (teid, rule))))))"

definition add_teid_RunE ::
  "'k bpf_api \<Rightarrow> interfaces \<Rightarrow> add_teid_flags \<Rightarrow> ('k, string) run" where
  "add_teid_RunE api ifaces f k =
     (case add_teid_build ifaces f of
        Inl e \<Rightarrow> (Inl e, k)
      | Inr (teid, rule) \<Rightarrow>
          with_map api (OpenTeidMap api) (\<lambda>tm.
            andThen (TeidMap_Put api tm teid rule) (\<lambda>_.
            andThen (EnsureTxPort api (OutIfindex rule)) (\<lambda>_ k'.
            (Inr (''OK  teid_map[0x'' @ fmt_08X teid @ ''] = '' @ ActionString (Action rule) @
               '' -> '' @ addTeidOutIface f @ '' (ifindex='' @ fmt_d (unat (OutIfindex rule)) @
               '')'' @ newline), k')))) k)"

section \<open>add-ueip\<close>

record add_ueip_flags =
  addUeipIP :: string
  addUeipAction :: string
  addUeipOutIface :: string
  addUeipDMac :: string
  addUeipSMac :: string
  addUeipTeidOut :: u32
  addUeipDstIP :: string
  addUeipSrcIP :: string
  addUeipRatePPS :: u32
  addUeipQuarantineThreshold :: u32
  addUeipQuarantineSeconds :: u32

definition add_ueip_defaults :: add_ueip_flags where
  "add_ueip_defaults =
     \<lparr>addUeipIP = '''', addUeipAction = ''decap'', addUeipOutIface = '''', addUeipDMac = '''',
      addUeipSMac = '''', addUeipTeidOut = 0, addUeipDstIP = '''', addUeipSrcIP = '''',
      addUeipRatePPS = 0, addUeipQuarantineThreshold = 0, addUeipQuarantineSeconds = 0\<rparr>"

definition add_ueip_build :: "interfaces \<Rightarrow> add_ueip_flags \<Rightarrow> go_error + (go_IP \<times> fwd_rule)" where
  "add_ueip_build ifaces f =
     check (guard_err (ParseIP (addUeipIP f) = []) (InvalidFlag ''--ip'' (addUeipIP f))) (\<lambda>_.
     check (guard_err (To4 (ParseIP (addUeipIP f)) = [])
       (Message ''only IPv4 UE addresses are supported'')) (\<lambda>_.
     check (ParseAction (addUeipAction f)) (\<lambda>action.
     check (forward_flags ifaces (addUeipOutIface f) (addUeipDMac f) (addUeipSMac f)
       (addUeipDstIP f) (addUeipSrcIP f)
       (zero_rule\<lparr>Action := action, RatePPS := addUeipRatePPS f,
          QuarantineThreshold := addUeipQuarantineThreshold f,
          QuarantineSeconds := addUeipQuarantineSeconds f, TeidOut := addUeipTeidOut f\<rparr>)) (\<lambda>rule.
     check (ValidateRule rule) (\<lambda>_. Inr (ParseIP (addUeipIP f), rule))))))"

definition add_ueip_RunE ::
  "'k bpf_api \<Rightarrow> interfaces \<Rightarrow> add_ueip_flags \<Rightarrow> ('k, string) run" where
  "add_ueip_RunE api ifaces f k =
     (case add_ueip_build ifaces f of
        Inl e \<Rightarrow> (Inl e, k)
      | Inr (ueip, rule) \<Rightarrow>
          with_map api (OpenUeipMap api) (\<lambda>um.
            andThen (UeipMap_Put api um ueip rule) (\<lambda>_ k'.
            (Inr (''OK  ueip_map['' @ IP4_String ueip @ ''] = '' @ ActionString (Action rule) @
               '' -> '' @ addUeipOutIface f @ '' (ifindex='' @ fmt_d (unat (OutIfindex rule)) @
               '')'' @ newline), k'))) k)"

section \<open>add-nat\<close>

record add_nat_flags =
  addNatNatIP :: string
  addNatUeIP :: string
  addNatOutIface :: string
  addNatDMac :: string
  addNatSMac :: string
  addNatTeidOut :: u32
  addNatDstIP :: string
  addNatSrcIP :: string

definition add_nat_defaults :: add_nat_flags where
  "add_nat_defaults =
     \<lparr>addNatNatIP = '''', addNatUeIP = '''', addNatOutIface = '''', addNatDMac = '''',
      addNatSMac = '''', addNatTeidOut = 0, addNatDstIP = '''', addNatSrcIP = ''''\<rparr>"

definition not_ipv4 :: "go_IP \<Rightarrow> bool" where
  "not_ipv4 ip \<longleftrightarrow> ip = [] \<or> To4 ip = []"

definition add_nat_build :: "interfaces \<Rightarrow> add_nat_flags \<Rightarrow> go_error + (go_IP \<times> fwd_rule)" where
  "add_nat_build ifaces f =
     check (guard_err (not_ipv4 (ParseIP (addNatNatIP f))) (InvalidFlag ''--nat-ip'' (addNatNatIP f))) (\<lambda>_.
     check (guard_err (not_ipv4 (ParseIP (addNatUeIP f))) (InvalidFlag ''--ue-ip'' (addNatUeIP f))) (\<lambda>_.
     check (IPToUint32 (ParseIP (addNatUeIP f))) (\<lambda>ue.
     check (forward_flags ifaces (addNatOutIface f) (addNatDMac f) (addNatSMac f)
       (addNatDstIP f) (addNatSrcIP f)
       (zero_rule\<lparr>Action := ActionEncapFwd, TeidOut := addNatTeidOut f, NatIP := ue\<rparr>)) (\<lambda>rule.
     check (ValidateRule rule) (\<lambda>_. Inr (ParseIP (addNatNatIP f), rule))))))"

definition add_nat_RunE ::
  "'k bpf_api \<Rightarrow> interfaces \<Rightarrow> add_nat_flags \<Rightarrow> ('k, string) run" where
  "add_nat_RunE api ifaces f k =
     (case add_nat_build ifaces f of
        Inl e \<Rightarrow> (Inl e, k)
      | Inr (natIP, rule) \<Rightarrow>
          with_map api (OpenNatMap api) (\<lambda>nm.
            andThen (NatMap_Put api nm natIP rule) (\<lambda>_.
            andThen (EnsureTxPort api (OutIfindex rule)) (\<lambda>_ k'.
            (Inr (''OK  nat_map['' @ IP4_String natIP @ ''] -> ue='' @
               IP4_String (ParseIP (addNatUeIP f)) @ '' teid=0x'' @ fmt_08X (addNatTeidOut f) @
               '' ifindex='' @ fmt_d (unat (OutIfindex rule)) @ newline), k')))) k)"

section \<open>del-teid, del-ueip, del-nat\<close>

definition del_teid_RunE :: "'k bpf_api \<Rightarrow> string \<Rightarrow> ('k, string) run" where
  "del_teid_RunE api delTeidTeid k =
     (case parseTEID delTeidTeid of
        Inl e \<Rightarrow> (Inl e, k)
      | Inr teid \<Rightarrow>
          with_map api (OpenTeidMap api) (\<lambda>tm.
            andThen (TeidMap_Delete api tm teid) (\<lambda>_ k'.
            (Inr (''OK  teid_map[0x'' @ fmt_08X teid @ ''] removed'' @ newline), k'))) k)"

definition del_ueip_RunE :: "'k bpf_api \<Rightarrow> string \<Rightarrow> ('k, string) run" where
  "del_ueip_RunE api delUeipIP k =
     (if ParseIP delUeipIP = [] then (Inl (InvalidFlag ''--ip'' delUeipIP), k)
      else with_map api (OpenUeipMap api) (\<lambda>um.
            andThen (UeipMap_Delete api um (ParseIP delUeipIP)) (\<lambda>_ k'.
            (Inr (''OK  ueip_map['' @ IP4_String (ParseIP delUeipIP) @ ''] removed'' @ newline),
             k'))) k)"

definition del_nat_RunE :: "'k bpf_api \<Rightarrow> string \<Rightarrow> ('k, string) run" where
  "del_nat_RunE api delNatIP k =
     (if not_ipv4 (ParseIP delNatIP) then (Inl (InvalidFlag ''--nat-ip'' delNatIP), k)
      else with_map api (OpenNatMap api) (\<lambda>nm.
            andThen (NatMap_Delete api nm (ParseIP delNatIP)) (\<lambda>_ k'.
            (Inr (''OK  nat_map['' @ IP4_String (ParseIP delNatIP) @ ''] deleted'' @ newline),
             k'))) k)"

section \<open>root.go\<close>

text \<open>Every sub-command is refused unless the process runs as root.\<close>

definition fmt_int :: "int \<Rightarrow> string" where
  "fmt_int i = (if i < 0 then ''-'' @ fmt_d (nat (- i)) else fmt_d (nat i))"

definition PersistentPreRunE :: "int \<Rightarrow> go_error + unit" where
  "PersistentPreRunE uid =
     (if uid \<noteq> 0
      then Inl (Message (''gtp-ctrl must be run as root (current uid='' @ fmt_int uid @ '')''))
      else Inr ())"

section \<open>What a build returns\<close>

lemma opt_flag_Inr:
  "opt_flag v f rule = Inr r \<longleftrightarrow> (v = [] \<and> r = rule) \<or> (v \<noteq> [] \<and> f v rule = Inr r)"
  by (auto simp: opt_flag_def)

lemma egress_flag_Inr:
  "egress_flag ifaces name rule = Inr r \<longleftrightarrow>
     (\<exists>i. ifaces name = Inr i \<and> r = rule\<lparr>OutIfindex := word_of_int i\<rparr>)"
  by (auto simp: egress_flag_def split: sum.splits)

lemma mac_flag_Inr:
  "mac_flag flag upd v rule = Inr r \<longleftrightarrow> (\<exists>m. ParseMAC v = Inr m \<and> r = upd m rule)"
  by (auto simp: mac_flag_def split: sum.splits)

lemma ip_flag_Inr:
  "ip_flag flag upd v rule = Inr r \<longleftrightarrow>
     ParseIP v \<noteq> [] \<and> (\<exists>n. IPToUint32 (ParseIP v) = Inr n \<and> r = upd n rule)"
  by (auto simp: ip_flag_def check_eq_Inr)

lemmas flag_Inr = opt_flag_Inr egress_flag_Inr mac_flag_Inr ip_flag_Inr

text \<open>Every build ends with \<open>ValidateRule\<close>: a returned rule satisfies \<open>rule_ok\<close>.\<close>

lemma add_teid_build_ok:
  "add_teid_build ifaces f = Inr (teid, rule) \<Longrightarrow> rule_ok rule \<and> parseTEID (addTeidTeid f) = Inr teid"
  by (auto simp: add_teid_build_def check_eq_Inr ValidateRule_iff)

lemma add_ueip_build_ok:
  "add_ueip_build ifaces f = Inr (ip, rule) \<Longrightarrow>
     rule_ok rule \<and> ip = ParseIP (addUeipIP f) \<and> To4 ip \<noteq> []"
  by (auto simp: add_ueip_build_def check_eq_Inr ValidateRule_iff)

lemma add_nat_build_ok:
  "add_nat_build ifaces f = Inr (ip, rule) \<Longrightarrow>
     rule_ok rule \<and> ip = ParseIP (addNatNatIP f) \<and> To4 ip \<noteq> []"
  by (auto simp: add_nat_build_def check_eq_Inr ValidateRule_iff not_ipv4_def)

text \<open>An optional flag changes its own field only.\<close>

lemma flag_frame:
  "opt_flag v (egress_flag ifaces) rule = Inr r \<Longrightarrow> \<exists>i. r = rule\<lparr>OutIfindex := i\<rparr>"
  "opt_flag v (mac_flag fl (\<lambda>m r. r\<lparr>DMac := m\<rparr>)) rule = Inr r \<Longrightarrow> \<exists>m. r = rule\<lparr>DMac := m\<rparr>"
  "opt_flag v (mac_flag fl (\<lambda>m r. r\<lparr>SMac := m\<rparr>)) rule = Inr r \<Longrightarrow> \<exists>m. r = rule\<lparr>SMac := m\<rparr>"
  "opt_flag v (ip_flag fl (\<lambda>n r. r\<lparr>DstIP := n\<rparr>)) rule = Inr r \<Longrightarrow> \<exists>n. r = rule\<lparr>DstIP := n\<rparr>"
  "opt_flag v (ip_flag fl (\<lambda>n r. r\<lparr>SrcIP := n\<rparr>)) rule = Inr r \<Longrightarrow> \<exists>n. r = rule\<lparr>SrcIP := n\<rparr>"
  "opt_flag v (ip_flag fl (\<lambda>n r. r\<lparr>NatIP := n\<rparr>)) rule = Inr r \<Longrightarrow> \<exists>n. r = rule\<lparr>NatIP := n\<rparr>"
  by (cases rule; force simp: flag_Inr)+

lemma forward_flags_frame:
  assumes "forward_flags ifaces oif dm sm dip sip rule = Inr r"
  shows "\<exists>i m n d s. r = rule\<lparr>OutIfindex := i, DMac := m, SMac := n, DstIP := d, SrcIP := s\<rparr>"
  using assms unfolding forward_flags_def
  by (elim check_InrE) (drule flag_frame, drule flag_frame, drule flag_frame, drule flag_frame,
    drule flag_frame, blast)

lemma dst_port_flag_frame:
  "dst_port_flag p rule = rule\<lparr>DstPort := if p \<noteq> 0 then swap_port p else DstPort rule\<rparr>"
  by (simp add: dst_port_flag_def)

text \<open>What each build returns: the zero rule with the fields of its flags.\<close>

lemma add_teid_build_shape:
  assumes "add_teid_build ifaces f = Inr (teid, rule)"
  shows "\<exists>action i dm sm d s p n. ParseAction (addTeidAction f) = Inr action \<and>
    rule = zero_rule\<lparr>Action := action, TeidOut := addTeidTeidOut f, RatePPS := addTeidRatePPS f,
      QuarantineThreshold := addTeidQuarantineThreshold f,
      QuarantineSeconds := addTeidQuarantineSeconds f, OutIfindex := i, DMac := dm, SMac := sm,
      DstIP := d, SrcIP := s, DstPort := p, NatIP := n\<rparr>"
  using assms unfolding add_teid_build_def dst_port_flag_frame
  by (elim check_InrE) (drule forward_flags_frame, drule flag_frame, blast)

lemma add_ueip_build_shape:
  assumes "add_ueip_build ifaces f = Inr (ip, rule)"
  shows "\<exists>action i dm sm d s. ParseAction (addUeipAction f) = Inr action \<and>
    rule = zero_rule\<lparr>Action := action, RatePPS := addUeipRatePPS f,
      QuarantineThreshold := addUeipQuarantineThreshold f,
      QuarantineSeconds := addUeipQuarantineSeconds f, TeidOut := addUeipTeidOut f,
      OutIfindex := i, DMac := dm, SMac := sm, DstIP := d, SrcIP := s\<rparr>"
  using assms unfolding add_ueip_build_def
  by (elim check_InrE) (drule forward_flags_frame, blast)

lemma add_nat_build_shape:
  assumes "add_nat_build ifaces f = Inr (ip, rule)"
  shows "\<exists>ue i dm sm d s. IPToUint32 (ParseIP (addNatUeIP f)) = Inr ue \<and>
    rule = zero_rule\<lparr>Action := ActionEncapFwd, TeidOut := addNatTeidOut f, NatIP := ue,
      OutIfindex := i, DMac := dm, SMac := sm, DstIP := d, SrcIP := s\<rparr>"
  using assms unfolding add_nat_build_def
  by (elim check_InrE) (drule forward_flags_frame, blast)

text \<open>A command cannot set the counters or the enforcement state of a rule.\<close>

definition fresh_state :: "fwd_rule \<Rightarrow> bool" where
  "fresh_state rule \<longleftrightarrow>
     PktCount rule = 0 \<and> ByteCount rule = 0 \<and> WindowCount rule = 0 \<and> WindowStartNs rule = 0
     \<and> RateDropCount rule = 0 \<and> ViolationStreak rule = 0 \<and> WindowViolated rule = 0
     \<and> QuarantineUntilNs rule = 0"

lemma build_fresh:
  "add_teid_build ifaces tf = Inr (teid, rule) \<Longrightarrow> fresh_state rule"
  "add_ueip_build ifaces uf = Inr (ip, rule) \<Longrightarrow> fresh_state rule"
  "add_nat_build ifaces nf = Inr (ip, rule) \<Longrightarrow> fresh_state rule"
  by (auto dest!: add_teid_build_shape add_ueip_build_shape add_nat_build_shape
      simp: fresh_state_def zero_rule_def)

text \<open>\<open>add-nat\<close> always installs an encapsulating rule whose \<open>NatIP\<close> is the UE address.\<close>

lemma add_nat_build_rule:
  assumes "add_nat_build ifaces f = Inr (ip, rule)"
  shows "Action rule = ActionEncapFwd" and "IPToUint32 (ParseIP (addNatUeIP f)) = Inr (NatIP rule)"
    and "TeidOut rule = addNatTeidOut f" and "RatePPS rule = 0" and "QuarantineThreshold rule = 0"
  using assms by (auto dest!: add_nat_build_shape simp: zero_rule_def)

end
