(* ===== verification/CommandRuns.thy ===== *)
theory CommandRuns
  imports Commands
begin

text \<open>
  What the rule commands of \<open>control/cmd\<close> do to the maps. The lemmas are proved once from the laws
  of the library (\<open>context bpf_maps\<close>); the properties state them over any library that satisfies
  the laws, and their witnesses run the commands on the reference tables.
\<close>

section \<open>Runs\<close>

lemma andThen_Inr:
  "andThen m f k = (Inr y, k') \<longleftrightarrow> (\<exists>x k1. m k = (Inr x, k1) \<and> f x k1 = (Inr y, k'))"
  by (auto simp: andThen_def split: prod.splits sum.splits)

lemma andThen_Inl:
  "andThen m f k = (Inl e, k') \<longleftrightarrow>
     m k = (Inl e, k') \<or> (\<exists>x k1. m k = (Inr x, k1) \<and> f x k1 = (Inl e, k'))"
  by (auto simp: andThen_def split: prod.splits sum.splits)

lemma EnsureTxPort_0 [simp]: "EnsureTxPort api 0 k = (Inr (), k)"
  by (simp add: EnsureTxPort_def)

text \<open>One cell of one map set to a value; the devmap entry of an interface, none for index 0.\<close>

definition cell_set ::
  "(map_fd \<Rightarrow> u32 \<Rightarrow> map_value option) \<Rightarrow> map_fd \<Rightarrow> u32 \<Rightarrow> map_value option
     \<Rightarrow> map_fd \<Rightarrow> u32 \<Rightarrow> map_value option" where
  "cell_set E m x c = E(m := (E m)(x := c))"

lemma cell_set_simps [simp]:
  "cell_set E m x c m x = c"
  "m' \<noteq> m \<Longrightarrow> cell_set E m x c m' = E m'"
  "x' \<noteq> x \<Longrightarrow> cell_set E m x c m x' = E m x'"
  "cell_set (cell_set E m x c) m x d = cell_set E m x d"
  by (auto simp: cell_set_def)

definition provisioned ::
  "map_fd option \<Rightarrow> u32 \<Rightarrow> (map_fd \<Rightarrow> u32 \<Rightarrow> map_value option)
     \<Rightarrow> (map_fd \<Rightarrow> u32 \<Rightarrow> map_value option) \<Rightarrow> bool" where
  "provisioned tx ifindex E E' \<longleftrightarrow>
     (if ifindex = 0 then E' = E
      else \<exists>p. tx = Some p \<and> E' = cell_set E p ifindex (Some (PortV ifindex)))"

context bpf_maps
begin

lemma ensure_tx_port_provisioned:
  assumes "EnsureTxPort api i k = (Inr (), k')"
  shows "provisioned (pinned k PinTxPort) i (entries k) (entries k') \<and> pinned k' = pinned k"
proof (cases "i = 0")
  case True
  with assms show ?thesis by (simp add: provisioned_def)
next
  case False
  with assms obtain t where "pinned k PinTxPort = Some t"
    and "entries k' = (entries k)(t := (entries k t)(i \<mapsto> PortV i))" and "pinned k' = pinned k"
    by (rule ensure_tx_port_entries)
  with False show ?thesis by (simp add: provisioned_def cell_set_def)
qed

lemma ensure_tx_port_error:
  assumes "EnsureTxPort api i k = (Inl e, k')"
  shows "entries k' = entries k \<and> pinned k' = pinned k"
  using assms close_map put_err
  by (auto simp: EnsureTxPort_def with_map_def andThen_def TxPortMap_Ensure_def OpenTxPortMap_def
      open_pinned_def split: if_splits prod.splits sum.splits option.splits; metis)

text \<open>The shape of \<open>add-teid\<close> and \<open>add-nat\<close>: open, put, provision, print.\<close>

lemma put_provision_run:
  assumes run: "with_map api (open_pinned api pin label) (\<lambda>m. andThen (put m) (\<lambda>_.
      andThen (EnsureTxPort api i) (\<lambda>_ k. (Inr out, k)))) k = (Inr o', k')"
    and put: "\<And>m k1. put m k = (Inr (), k1) \<Longrightarrow>
      entries k1 = cell_set (entries k) m x (Some v) \<and> pinned k1 = pinned k"
  obtains m where "pinned k pin = Some m" and "o' = out"
    and "provisioned (pinned k PinTxPort) i (cell_set (entries k) m x (Some v)) (entries k')"
    and "pinned k' = pinned k"
proof -
  obtain m k1 where m: "pinned k pin = Some m"
    and b: "andThen (put m) (\<lambda>_. andThen (EnsureTxPort api i) (\<lambda>_ k. (Inr out, k))) k = (Inr o', k1)"
    and e: "entries k' = entries k1" "pinned k' = pinned k1"
    using run by (rule with_map_pinned)
  from b obtain k2 where p: "put m k = (Inr (), k2)" and t: "EnsureTxPort api i k2 = (Inr (), k1)"
    and o: "o' = out" by (auto simp: andThen_Inr)
  from put [OF p] ensure_tx_port_provisioned [OF t] e o m that show ?thesis by auto
qed

lemma put_provision_error:
  assumes run: "with_map api (open_pinned api pin label) (\<lambda>m. andThen (put m) (\<lambda>_.
      andThen (EnsureTxPort api i) (\<lambda>_ k. (Inr out, k)))) k = (Inl e, k')"
    and put: "\<And>m k1. put m k = (Inr (), k1) \<Longrightarrow>
      entries k1 = cell_set (entries k) m x (Some v) \<and> pinned k1 = pinned k"
    and put_err: "\<And>m k1 e. put m k = (Inl e, k1) \<Longrightarrow> entries k1 = entries k"
  shows "entries k' = entries k \<or>
     (\<exists>m. pinned k pin = Some m \<and> entries k' = cell_set (entries k) m x (Some v))"
proof (cases "LoadPinnedMap api pin k")
  case (Inl e)
  with run show ?thesis by (auto simp: with_map_def andThen_def open_pinned_def)
next
  case (Inr m)
  define body where "body = andThen (put m) (\<lambda>_. andThen (EnsureTxPort api i) (\<lambda>_ k. (Inr out, k)))"
  from run Inr obtain k1 where b: "body k = (Inl e, k1)" and k': "k' = MapClose api m k1"
    by (auto simp: with_map_def andThen_def [of "open_pinned _ _ _"] open_pinned_def body_def
        split: prod.splits)
  from b consider "put m k = (Inl e, k1)"
    | k2 where "put m k = (Inr (), k2)" "EnsureTxPort api i k2 = (Inl e, k1)"
    by (auto simp: body_def andThen_Inl andThen_Inr)
  then show ?thesis
  proof cases
    case 1
    then show ?thesis using put_err k' close_map by simp
  next
    case 2
    then show ?thesis using put ensure_tx_port_error k' close_map load_pinned [OF Inr] by auto
  qed
qed

lemma teid_put_cell:
  "TeidMap_Put api t teid rule k = (Inr (), k') \<Longrightarrow>
     entries k' = cell_set (entries k) t teid (Some (RuleV rule)) \<and> pinned k' = pinned k"
  using teid_put_entries [of t teid rule k k'] by (simp add: cell_set_def)

lemma nat_put_cell:
  "ipKey ip = Inr key \<Longrightarrow> NatMap_Put api n ip rule k = (Inr (), k') \<Longrightarrow>
     entries k' = cell_set (entries k) n key (Some (RuleV rule)) \<and> pinned k' = pinned k"
  by (erule nat_put_entries) (simp add: cell_set_def)

lemma ueip_put_cell:
  "ipKey ip = Inr key \<Longrightarrow> UeipMap_Put api n ip rule k = (Inr (), k') \<Longrightarrow>
     entries k' = cell_set (entries k) n key (Some (RuleV rule)) \<and> pinned k' = pinned k"
  by (erule ueip_put_entries) (simp add: cell_set_def)

lemma add_teid_run:
  assumes "add_teid_RunE api ifaces f k = (Inr out, k')"
  obtains teid rule m where "add_teid_build ifaces f = Inr (teid, rule)"
    and "pinned k PinTeidMap = Some m"
    and "provisioned (pinned k PinTxPort) (OutIfindex rule)
           (cell_set (entries k) m teid (Some (RuleV rule))) (entries k')"
    and "pinned k' = pinned k"
proof -
  obtain teid rule where b: "add_teid_build ifaces f = Inr (teid, rule)"
    using assms by (auto simp: add_teid_RunE_def split: sum.splits)
  show ?thesis
    using assms b that
    by (auto simp: add_teid_RunE_def OpenTeidMap_def
        elim!: put_provision_run [where x = teid and v = "RuleV rule"] dest!: teid_put_cell)
qed

lemma ipKey_Inr: "To4 ip \<noteq> [] \<Longrightarrow> \<exists>key. ipKey ip = Inr key"
  using To4_cases [of ip] by (auto simp: ipKey_def)

lemma add_nat_run:
  assumes "add_nat_RunE api ifaces f k = (Inr out, k')"
  obtains ip key rule m where "add_nat_build ifaces f = Inr (ip, rule)" and "ipKey ip = Inr key"
    and "pinned k PinNatMap = Some m"
    and "provisioned (pinned k PinTxPort) (OutIfindex rule)
           (cell_set (entries k) m key (Some (RuleV rule))) (entries k')"
    and "pinned k' = pinned k"
proof -
  obtain ip rule where b: "add_nat_build ifaces f = Inr (ip, rule)"
    using assms by (auto simp: add_nat_RunE_def split: sum.splits)
  obtain key where key: "ipKey ip = Inr key"
    using add_nat_build_ok [OF b] ipKey_Inr by auto
  show ?thesis
    using assms b key that
    by (auto simp: add_nat_RunE_def OpenNatMap_def
        elim!: put_provision_run [where x = key and v = "RuleV rule"] dest!: nat_put_cell [OF key])
qed

lemma add_ueip_run:
  assumes "add_ueip_RunE api ifaces f k = (Inr out, k')"
  obtains ip key rule m where "add_ueip_build ifaces f = Inr (ip, rule)" and "ipKey ip = Inr key"
    and "pinned k PinUeipMap = Some m"
    and "entries k' = cell_set (entries k) m key (Some (RuleV rule))"
    and "pinned k' = pinned k"
proof -
  obtain ip rule where b: "add_ueip_build ifaces f = Inr (ip, rule)"
    using assms by (auto simp: add_ueip_RunE_def split: sum.splits)
  obtain key where key: "ipKey ip = Inr key"
    using add_ueip_build_ok [OF b] ipKey_Inr by auto
  show ?thesis
    using assms b key that
    by (auto simp: add_ueip_RunE_def OpenUeipMap_def andThen_Inr elim!: with_map_pinned
        dest!: ueip_put_cell [OF key])
qed

lemma del_teid_run:
  assumes "del_teid_RunE api s k = (Inr out, k')"
  obtains teid m where "parseTEID s = Inr teid" and "pinned k PinTeidMap = Some m"
    and "entries k' = cell_set (entries k) m teid None" and "pinned k' = pinned k"
  using assms that
  by (auto simp: del_teid_RunE_def OpenTeidMap_def andThen_Inr cell_set_def split: sum.splits
      elim!: with_map_pinned dest!: teid_delete_entries)

end

section \<open>Commands on the lab topology\<close>

text \<open>
  Flags of the commands as the README uses them, on a host with the interfaces \<open>veth-ran\<close> and
  \<open>eth0\<close>; the witnesses run the commands on the freshly loaded reference tables.
\<close>

definition lab_ifaces :: interfaces where
  "lab_ifaces name =
     (if name = ''veth-ran'' then Inr 5 else if name = ''eth0'' then Inr 2
      else if name = ''veth-high'' then Inr 300
      else Inl (External ''no such network interface''))"

definition lab_teid_flags :: add_teid_flags where
  "lab_teid_flags = add_teid_defaults\<lparr>addTeidTeid := ''0xDEAD'', addTeidOutIface := ''eth0'',
     addTeidDMac := ''02:00:00:00:00:01'', addTeidSMac := ''02:00:00:00:00:02'',
     addTeidRatePPS := 100, addTeidQuarantineThreshold := 3, addTeidQuarantineSeconds := 30\<rparr>"

definition lab_teid_rule :: fwd_rule where
  "lab_teid_rule = zero_rule\<lparr>Action := ActionDecapFwd, OutIfindex := 2,
     DMac := (2, 0, 0, 0, 0, 1), SMac := (2, 0, 0, 0, 0, 2), DstPort := swap_port 2152,
     RatePPS := 100, QuarantineThreshold := 3, QuarantineSeconds := 30\<rparr>"

definition lab_ueip_flags :: add_ueip_flags where
  "lab_ueip_flags = add_ueip_defaults\<lparr>addUeipIP := ''10.1.0.2'', addUeipAction := ''encap'',
     addUeipOutIface := ''veth-ran'', addUeipDMac := ''02:00:00:00:00:01'',
     addUeipSMac := ''02:00:00:00:00:02'', addUeipTeidOut := 0xBEEF,
     addUeipDstIP := ''192.168.1.2'', addUeipSrcIP := ''192.168.1.1''\<rparr>"

definition lab_ueip_rule :: fwd_rule where
  "lab_ueip_rule = zero_rule\<lparr>Action := ActionEncapFwd, OutIfindex := 5,
     DMac := (2, 0, 0, 0, 0, 1), SMac := (2, 0, 0, 0, 0, 2), TeidOut := 0xBEEF,
     DstIP := be32 192 168 1 2, SrcIP := be32 192 168 1 1\<rparr>"

definition lab_nat_flags :: add_nat_flags where
  "lab_nat_flags = add_nat_defaults\<lparr>addNatNatIP := ''203.0.113.7'', addNatUeIP := ''10.1.0.2'',
     addNatOutIface := ''veth-ran'', addNatDMac := ''02:00:00:00:00:01'',
     addNatSMac := ''02:00:00:00:00:02'', addNatTeidOut := 0xBEEF,
     addNatDstIP := ''192.168.1.2'', addNatSrcIP := ''192.168.1.1''\<rparr>"

definition lab_nat_rule :: fwd_rule where
  "lab_nat_rule = zero_rule\<lparr>Action := ActionEncapFwd, OutIfindex := 5,
     DMac := (2, 0, 0, 0, 0, 1), SMac := (2, 0, 0, 0, 0, 2), TeidOut := 0xBEEF,
     DstIP := be32 192 168 1 2, SrcIP := be32 192 168 1 1, NatIP := be32 10 1 0 2\<rparr>"

lemma lab_parsed:
  "ParseMAC ''02:00:00:00:00:01'' = Inr (2, 0, 0, 0, 0, 1)"
  "ParseMAC ''02:00:00:00:00:02'' = Inr (2, 0, 0, 0, 0, 2)"
  "ParseIP ''10.1.0.2'' = v4_in_v6_prefix @ [10, 1, 0, 2]"
  "ParseIP ''192.168.1.1'' = v4_in_v6_prefix @ [192, 168, 1, 1]"
  "ParseIP ''192.168.1.2'' = v4_in_v6_prefix @ [192, 168, 1, 2]"
  "ParseIP ''203.0.113.7'' = v4_in_v6_prefix @ [203, 0, 113, 7]"
  by code_simp+

lemma lab_parseTEID: "parseTEID ''0xDEAD'' = Inr 0xDEAD"
  by (simp add: parseTEID_def TrimSpace_token visible_def code_def HasPrefix_def ParseUint_def
      digit_val_def)

lemmas build_eval = forward_flags_def opt_flag_def egress_flag_def mac_flag_def ip_flag_def
  dst_port_flag_def ParseAction_def ValidateRule_def action_codes zero_rule_def zero_mac_def
  lab_parsed lab_ifaces_def check_simps

lemma lab_teid_build: "add_teid_build lab_ifaces lab_teid_flags = Inr (0xDEAD, lab_teid_rule)"
  by (simp add: add_teid_build_def lab_teid_flags_def add_teid_defaults_def lab_teid_rule_def
      lab_parseTEID build_eval)

lemma be32_neq_0: "be32 192 168 1 2 \<noteq> 0" "be32 192 168 1 1 \<noteq> 0" "be32 10 1 0 2 \<noteq> 0"
  by code_simp+

lemma lab_ueip_build:
  "add_ueip_build lab_ifaces lab_ueip_flags =
     Inr (v4_in_v6_prefix @ [10, 1, 0, 2], lab_ueip_rule)"
  by (simp add: add_ueip_build_def lab_ueip_flags_def add_ueip_defaults_def lab_ueip_rule_def
      build_eval be32_neq_0)

lemma lab_nat_build:
  "add_nat_build lab_ifaces lab_nat_flags =
     Inr (v4_in_v6_prefix @ [203, 0, 113, 7], lab_nat_rule)"
  by (simp add: add_nat_build_def lab_nat_flags_def add_nat_defaults_def lab_nat_rule_def
      not_ipv4_def build_eval be32_neq_0)

lemmas run_eval = with_map_def andThen_def OpenTeidMap_def OpenUeipMap_def OpenNatMap_def
  open_pinned_def EnsureTxPort_def OpenTxPortMap_def TeidMap_Put_def UeipMap_Put_def
  NatMap_Put_def TxPortMap_Ensure_def TeidMap_Delete_def ipKey_def

lemmas ref_eval = ref_api_def loaded_kernel_def pin_defs PinDir_def ref_put_def ref_delete_def
  fits_def has_room_def set_cell_def

lemma lab_teid_run:
  "\<exists>out k'. add_teid_RunE ref_api lab_ifaces lab_teid_flags loaded_kernel = (Inr out, k')"
  by (simp add: add_teid_RunE_def lab_teid_build run_eval ref_eval lab_teid_rule_def zero_rule_def)

lemma lab_ueip_run:
  "\<exists>out k'. add_ueip_RunE ref_api lab_ifaces lab_ueip_flags loaded_kernel = (Inr out, k')"
  by (simp add: add_ueip_RunE_def lab_ueip_build run_eval ref_eval lab_ueip_rule_def zero_rule_def)

lemma lab_nat_run:
  "\<exists>out k'. add_nat_RunE ref_api lab_ifaces lab_nat_flags loaded_kernel = (Inr out, k')"
  by (simp add: add_nat_RunE_def lab_nat_build run_eval ref_eval lab_nat_rule_def zero_rule_def)

lemma lab_pins:
  "Pins loaded_kernel PinTeidMap = Some 0" "Pins loaded_kernel PinUeipMap = Some 1"
  "Pins loaded_kernel PinNatMap = Some 2" "Pins loaded_kernel PinTxPort = Some 4"
  by (simp_all add: loaded_kernel_def pin_defs)

lemma parseTEID_fmt_08X: "parseTEID (''0x'' @ fmt_08X n) = Inr n"
proof -
  have "list_all visible ''0x''" by (simp add: visible_def code_def)
  then have "token (''0x'' @ fmt_08X n)" by (rule token_append2) (rule token_fmt_08X)
  then show ?thesis
    by (simp add: parseTEID_def TrimSpace_token HasPrefix_def ParseUint_fmt_08X)
qed

lemma ipKey_printed: "ipKey (ParseIP (IP4_String (Uint32ToIP n))) = Inr n"
  by (simp add: ipKey_def IP4_String_Uint32ToIP ParseIP_dotted wire)

section \<open>Properties\<close>

text \<open>A successful \<open>add-teid\<close> writes exactly two cells: under the parsed TEID a rule that carries the
  action and limits of the flags, satisfies \<open>rule_ok\<close> and starts with zero counters and no
  quarantine, and in \<open>tx_port\<close> the entry of its egress interface.\<close>
theorem add_teid_installs:
  assumes "bpf_maps api pinned entries"
    and "add_teid_RunE api ifaces f k = (Inr out, k')"
  shows "\<exists>teid rule m. parseTEID (addTeidTeid f) = Inr teid
    \<and> ParseAction (addTeidAction f) = Inr (Action rule)
    \<and> TeidOut rule = addTeidTeidOut f \<and> RatePPS rule = addTeidRatePPS f
    \<and> QuarantineThreshold rule = addTeidQuarantineThreshold f
    \<and> QuarantineSeconds rule = addTeidQuarantineSeconds f
    \<and> rule_ok rule \<and> fresh_state rule \<and> pinned k PinTeidMap = Some m
    \<and> provisioned (pinned k PinTxPort) (OutIfindex rule)
        (cell_set (entries k) m teid (Some (RuleV rule))) (entries k')
    \<and> pinned k' = pinned k"
proof -
  obtain teid rule m where b: "add_teid_build ifaces f = Inr (teid, rule)"
    and r: "pinned k PinTeidMap = Some m" "provisioned (pinned k PinTxPort) (OutIfindex rule)
        (cell_set (entries k) m teid (Some (RuleV rule))) (entries k')" "pinned k' = pinned k"
    using assms by (rule bpf_maps.add_teid_run)
  show ?thesis
    using add_teid_build_ok [OF b] add_teid_build_shape [OF b] build_fresh(1) [OF b] r
    by (intro exI [of _ teid] exI [of _ rule] exI [of _ m]) (auto simp: zero_rule_def)
qed

lemma add_teid_installs_witness:
  "\<exists>out k'. add_teid_RunE ref_api lab_ifaces lab_teid_flags loaded_kernel = (Inr out, k')
     \<and> (\<exists>teid rule m. parseTEID ''0xDEAD'' = Inr teid
     \<and> ParseAction ''decap'' = Inr (Action rule) \<and> RatePPS rule = 100 \<and> rule_ok rule
     \<and> provisioned (Some 4) (OutIfindex rule)
        (cell_set (ref_entries loaded_kernel) m teid (Some (RuleV rule))) (ref_entries k'))"
proof -
  obtain out k' where run:
    "add_teid_RunE ref_api lab_ifaces lab_teid_flags loaded_kernel = (Inr out, k')"
    using lab_teid_run by blast
  show ?thesis
    using run add_teid_installs [OF ref.bpf_maps_axioms run]
    by (auto simp: lab_teid_flags_def add_teid_defaults_def lab_pins)
qed

text \<open>C25: deleting the TEID of a successful \<open>add-teid\<close> with the same text leaves the rule absent, and
  every other cell of \<open>teid_map\<close> and every cell of the maps other than \<open>tx_port\<close> as before the pair.\<close>
theorem del_teid_undoes_add:
  assumes "bpf_maps api pinned entries"
    and "add_teid_RunE api ifaces f k = (Inr out, k1)"
    and "del_teid_RunE api (addTeidTeid f) k1 = (Inr out', k2)"
    and "pinned k PinTeidMap \<noteq> pinned k PinTxPort"
  shows "\<exists>teid m. parseTEID (addTeidTeid f) = Inr teid \<and> pinned k PinTeidMap = Some m
    \<and> entries k2 m = (entries k m)(teid := None)
    \<and> (\<forall>m'. m' \<noteq> m \<longrightarrow> pinned k PinTxPort \<noteq> Some m' \<longrightarrow> entries k2 m' = entries k m')"
proof -
  obtain teid rule m where b: "add_teid_build ifaces f = Inr (teid, rule)"
    and m: "pinned k PinTeidMap = Some m"
    and p: "provisioned (pinned k PinTxPort) (OutIfindex rule)
        (cell_set (entries k) m teid (Some (RuleV rule))) (entries k1)"
    and k1: "pinned k1 = pinned k"
    using assms(1,2) by (rule bpf_maps.add_teid_run)
  from b have teid: "parseTEID (addTeidTeid f) = Inr teid" by (simp add: add_teid_build_ok)
  from assms(1,3) obtain teid' m' where "parseTEID (addTeidTeid f) = Inr teid'"
    and "pinned k1 PinTeidMap = Some m'" and "entries k2 = cell_set (entries k1) m' teid' None"
    by (rule bpf_maps.del_teid_run)
  with teid m k1 have e2: "entries k2 = cell_set (entries k1) m teid None" by simp
  show ?thesis
    using p teid m assms(4)
    by (intro exI [of _ teid] exI [of _ m])
       (auto simp: e2 provisioned_def cell_set_def split: if_splits)
qed

lemma lab_del_teid_run:
  "add_teid_RunE ref_api lab_ifaces lab_teid_flags loaded_kernel = (Inr out, k1) \<Longrightarrow>
     \<exists>out' k2. del_teid_RunE ref_api ''0xDEAD'' k1 = (Inr out', k2)"
  by (simp add: add_teid_RunE_def lab_teid_build run_eval ref_eval lab_teid_rule_def zero_rule_def)
     (auto simp: del_teid_RunE_def lab_parseTEID run_eval ref_eval)

lemma del_teid_undoes_add_witness:
  "\<exists>out k1 out' k2. add_teid_RunE ref_api lab_ifaces lab_teid_flags loaded_kernel = (Inr out, k1)
     \<and> del_teid_RunE ref_api ''0xDEAD'' k1 = (Inr out', k2)
     \<and> ref_entries k2 0 = (ref_entries loaded_kernel 0)(0xDEAD := None)"
proof -
  obtain out k1 where a:
    "add_teid_RunE ref_api lab_ifaces lab_teid_flags loaded_kernel = (Inr out, k1)"
    using lab_teid_run by blast
  obtain out' k2 where d: "del_teid_RunE ref_api ''0xDEAD'' k1 = (Inr out', k2)"
    using lab_del_teid_run [OF a] by blast
  have "addTeidTeid lab_teid_flags = ''0xDEAD''" by (simp add: lab_teid_flags_def)
  with a d del_teid_undoes_add [OF ref.bpf_maps_axioms a, of out' k2] show ?thesis
    by (auto simp: lab_pins lab_parseTEID)
qed

text \<open>\<open>add-ueip\<close> writes the rule under the address and nothing else: \<open>tx_port\<close> is left as it was,
  even though the rule redirects to its egress interface.\<close>
theorem add_ueip_leaves_devmap:
  assumes "bpf_maps api pinned entries"
    and "add_ueip_RunE api ifaces f k = (Inr out, k')"
    and "pinned k PinTxPort = Some tx" and "pinned k PinUeipMap \<noteq> Some tx"
  shows "\<exists>key rule m. ipKey (ParseIP (addUeipIP f)) = Inr key
    \<and> ParseAction (addUeipAction f) = Inr (Action rule) \<and> rule_ok rule \<and> fresh_state rule
    \<and> pinned k PinUeipMap = Some m
    \<and> entries k' = cell_set (entries k) m key (Some (RuleV rule))
    \<and> entries k' tx = entries k tx"
proof -
  obtain ip key rule m where b: "add_ueip_build ifaces f = Inr (ip, rule)"
    and r: "ipKey ip = Inr key" "pinned k PinUeipMap = Some m"
      "entries k' = cell_set (entries k) m key (Some (RuleV rule))"
    using assms(1,2) by (rule bpf_maps.add_ueip_run)
  show ?thesis
    using add_ueip_build_ok [OF b] add_ueip_build_shape [OF b] build_fresh(2) [OF b] r assms(3,4)
    by (intro exI [of _ key] exI [of _ rule] exI [of _ m]) (auto simp: zero_rule_def)
qed

lemma add_ueip_leaves_devmap_witness:
  "\<exists>out k'. add_ueip_RunE ref_api lab_ifaces lab_ueip_flags loaded_kernel = (Inr out, k')
     \<and> (\<exists>key rule. rule_ok rule \<and> Action rule = ActionEncapFwd
        \<and> ref_entries k' 1 key = Some (RuleV rule) \<and> ref_entries k' 4 = Map.empty)"
proof -
  obtain out k' where run:
    "add_ueip_RunE ref_api lab_ifaces lab_ueip_flags loaded_kernel = (Inr out, k')"
    using lab_ueip_run by blast
  have tx: "ref_entries loaded_kernel 4 = Map.empty"
    by (simp add: ref_entries_def loaded_kernel_def)
  have act: "ParseAction (addUeipAction lab_ueip_flags) = Inr ActionEncapFwd"
    by (simp add: lab_ueip_flags_def ParseAction_def)
  obtain key rule where "rule_ok rule" "Action rule = ActionEncapFwd"
    "ref_entries k' = cell_set (ref_entries loaded_kernel) 1 key (Some (RuleV rule))"
    "ref_entries k' 4 = Map.empty"
    using act add_ueip_leaves_devmap [OF ref.bpf_maps_axioms run, of 4]
    by (auto simp: lab_pins tx)
  then have "ref_entries k' 1 key = Some (RuleV rule)" "ref_entries k' 4 = Map.empty" by simp_all
  with run \<open>rule_ok rule\<close> \<open>Action rule = ActionEncapFwd\<close> show ?thesis by blast
qed

text \<open>\<open>add-nat\<close> installs, under the public address, an encapsulating rule whose \<open>NatIP\<close> is the UE
  address, and the devmap entry of its egress interface.\<close>
theorem add_nat_installs:
  assumes "bpf_maps api pinned entries"
    and "add_nat_RunE api ifaces f k = (Inr out, k')"
  shows "\<exists>key rule m. ipKey (ParseIP (addNatNatIP f)) = Inr key
    \<and> IPToUint32 (ParseIP (addNatUeIP f)) = Inr (NatIP rule)
    \<and> Action rule = ActionEncapFwd \<and> TeidOut rule = addNatTeidOut f
    \<and> rule_ok rule \<and> fresh_state rule \<and> pinned k PinNatMap = Some m
    \<and> provisioned (pinned k PinTxPort) (OutIfindex rule)
        (cell_set (entries k) m key (Some (RuleV rule))) (entries k')"
proof -
  obtain ip key rule m where b: "add_nat_build ifaces f = Inr (ip, rule)"
    and r: "ipKey ip = Inr key" "pinned k PinNatMap = Some m"
      "provisioned (pinned k PinTxPort) (OutIfindex rule)
        (cell_set (entries k) m key (Some (RuleV rule))) (entries k')"
    using assms by (rule bpf_maps.add_nat_run)
  show ?thesis
    using add_nat_build_ok [OF b] add_nat_build_rule [OF b] build_fresh(3) [OF b] r
    by (intro exI [of _ key] exI [of _ rule] exI [of _ m]) auto
qed

lemma add_nat_installs_witness:
  "\<exists>out k'. add_nat_RunE ref_api lab_ifaces lab_nat_flags loaded_kernel = (Inr out, k')
     \<and> (\<exists>key rule. NatIP rule = be32 10 1 0 2
        \<and> provisioned (Some 4) (OutIfindex rule)
            (cell_set (ref_entries loaded_kernel) 2 key (Some (RuleV rule))) (ref_entries k'))"
proof -
  obtain out k' where run:
    "add_nat_RunE ref_api lab_ifaces lab_nat_flags loaded_kernel = (Inr out, k')"
    using lab_nat_run by blast
  have ue: "IPToUint32 (ParseIP (addNatUeIP lab_nat_flags)) = Inr (be32 10 1 0 2)"
    by (simp add: lab_nat_flags_def lab_parsed)
  obtain key rule where "NatIP rule = be32 10 1 0 2" "provisioned (Some 4) (OutIfindex rule)
      (cell_set (ref_entries loaded_kernel) 2 key (Some (RuleV rule))) (ref_entries k')"
    using ue add_nat_installs [OF ref.bpf_maps_axioms run] by (auto simp: lab_pins)
  with run show ?thesis by blast
qed

text \<open>When \<open>add-teid\<close> returns an error, the maps are as before, or the rule alone was written: the
  devmap step failed after the rule was installed, and nothing removes it.\<close>
theorem add_teid_error_outcome:
  assumes "bpf_maps api pinned entries"
    and "add_teid_RunE api ifaces f k = (Inl e, k')"
  shows "entries k' = entries k \<or>
    (\<exists>teid rule m. add_teid_build ifaces f = Inr (teid, rule) \<and> pinned k PinTeidMap = Some m
       \<and> entries k' = cell_set (entries k) m teid (Some (RuleV rule)))"
proof (cases "add_teid_build ifaces f")
  case (Inl err)
  with assms(2) show ?thesis by (auto simp: add_teid_RunE_def)
next
  case (Inr tr)
  obtain teid rule where tr: "tr = (teid, rule)" by (cases tr)
  note run = assms(2) [unfolded add_teid_RunE_def OpenTeidMap_def Inr tr sum.case prod.case]
  have "entries k' = entries k \<or> (\<exists>m. pinned k PinTeidMap = Some m
      \<and> entries k' = cell_set (entries k) m teid (Some (RuleV rule)))"
    by (rule bpf_maps.put_provision_error [OF assms(1) run])
       (auto dest: bpf_maps.teid_put_cell [OF assms(1)] bpf_maps.teid_put_error_entries [OF assms(1)])
  with Inr tr show ?thesis by auto
qed

definition lab_high_flags :: add_teid_flags where
  "lab_high_flags = lab_teid_flags\<lparr>addTeidOutIface := ''veth-high''\<rparr>"

lemma lab_high_build:
  "add_teid_build lab_ifaces lab_high_flags = Inr (0xDEAD, lab_teid_rule\<lparr>OutIfindex := 300\<rparr>)"
  by (simp add: add_teid_build_def lab_high_flags_def lab_teid_flags_def add_teid_defaults_def
      lab_teid_rule_def lab_parseTEID build_eval)

lemma add_teid_error_outcome_witness:
  "\<exists>e k'. add_teid_RunE ref_api lab_ifaces lab_high_flags loaded_kernel = (Inl e, k')
     \<and> ref_entries k' 0 0xDEAD = Some (RuleV (lab_teid_rule\<lparr>OutIfindex := 300\<rparr>))"
proof -
  have "\<exists>e k'. add_teid_RunE ref_api lab_ifaces lab_high_flags loaded_kernel = (Inl e, k')
      \<and> ref_entries k' \<noteq> ref_entries loaded_kernel"
    by (simp add: add_teid_RunE_def lab_high_build run_eval ref_eval lab_teid_rule_def
        zero_rule_def ref_entries_def fun_eq_iff exI [of _ 0] exI [of _ "0xDEAD :: u32"])
  then obtain e k' where run:
    "add_teid_RunE ref_api lab_ifaces lab_high_flags loaded_kernel = (Inl e, k')"
    and ne: "ref_entries k' \<noteq> ref_entries loaded_kernel" by blast
  show ?thesis
    using run ne add_teid_error_outcome [OF ref.bpf_maps_axioms run]
    by (auto simp: lab_high_build lab_pins)
qed

text \<open>C26: what the listing prints for a TEID, an address and a MAC address is read back by the parsers
  of the commands as the same key, address and MAC.\<close>
theorem printed_keys_reparsed:
  "parseTEID (''0x'' @ fmt_08X n) = Inr n
   \<and> ipKey (ParseIP (IP4_String (Uint32ToIP n))) = Inr n
   \<and> IPToUint32 (ParseIP (IP4_String (Uint32ToIP n))) = Inr n
   \<and> ParseMAC (MACString m) = Inr m"
  using parseTEID_fmt_08X [of n]
  by (simp add: ipKey_printed ParseIP_IP4_String ParseMAC_MACString)

end
