(* ===== verification/Loader.thy ===== *)
theory Loader
  imports CommandRuns
begin

text \<open>
  \<open>control/loader/loader.go\<close> with the generated bindings \<open>gtpxdp_bpfel.go\<close>, and the commands
  \<open>load\<close> and \<open>unload\<close>. The kernel, the BPF file system and the library \<open>cilium/ebpf\<close> are the record
  \<open>loader_api\<close>; the locale \<open>bpf_system\<close>, an extension of \<open>bpf_maps\<close>, states what each call does to
  a \<open>sysview\<close>: the pins, the links with their interface and program, the open handles and the map
  contents. A link keeps its program attached while it has an open handle or a pin. The progress
  lines printed on the way are left out.
\<close>

section \<open>Objects and operations of the kernel\<close>

type_synonym link_id = nat
type_synonym prog_fd = nat
type_synonym coll_spec = nat

datatype pinned_object = MapObj map_fd | LinkObj link_id

text \<open>\<open>GtpXdpObjects\<close>: the program and the five maps.\<close>

record objs =
  XdpGtpRouter :: prog_fd
  NatFd :: map_fd
  StatsFd :: map_fd
  TeidFd :: map_fd
  TxFd :: map_fd
  UeipFd :: map_fd

text \<open>\<open>link.XDPAttachFlags\<close>: no flag, driver, generic and offload mode.\<close>

datatype xdp_flags = XDPNoFlags | XDPDriverMode | XDPGenericMode | XDPOffloadMode

record 'k loader_api =
  Maps :: "'k bpf_api"
  GtpXdpBytes :: "u8 list"
  LoadCollectionSpecFromReader :: "u8 list \<Rightarrow> go_error + coll_spec"
  LoadAndAssign :: "coll_spec \<Rightarrow> 'k \<Rightarrow> (go_error + objs) \<times> 'k"
  ProgClose :: "prog_fd \<Rightarrow> 'k \<Rightarrow> go_error option \<times> 'k"
  MapFdClose :: "map_fd \<Rightarrow> 'k \<Rightarrow> go_error option \<times> 'k"
  MkdirAll :: "string \<Rightarrow> 'k \<Rightarrow> go_error option \<times> 'k"
  RemovePath :: "string \<Rightarrow> 'k \<Rightarrow> go_error option \<times> 'k"
  PinMap :: "map_fd \<Rightarrow> string \<Rightarrow> 'k \<Rightarrow> go_error option \<times> 'k"
  AttachXDP :: "prog_fd \<Rightarrow> int \<Rightarrow> xdp_flags \<Rightarrow> 'k \<Rightarrow> (go_error + link_id) \<times> 'k"
  LinkPin :: "link_id \<Rightarrow> string \<Rightarrow> 'k \<Rightarrow> go_error option \<times> 'k"
  LinkUnpin :: "link_id \<Rightarrow> 'k \<Rightarrow> go_error option \<times> 'k"
  LinkClose :: "link_id \<Rightarrow> 'k \<Rightarrow> go_error option \<times> 'k"
  LoadPinnedLink :: "string \<Rightarrow> 'k \<Rightarrow> (go_error + link_id) \<times> 'k"

section \<open>The generated bindings\<close>

text \<open>The object file is embedded in the program; parsing it does not involve the kernel.\<close>

definition LoadGtpXdp :: "'k loader_api \<Rightarrow> go_error + coll_spec" where
  "LoadGtpXdp api =
     (case LoadCollectionSpecFromReader api (GtpXdpBytes api) of
        Inl e \<Rightarrow> Inl (Wrapped (''can'' @ [char_of (39 :: nat)] @ ''t load GtpXdp'') e)
      | Inr spec \<Rightarrow> Inr spec)"

definition LoadGtpXdpObjects :: "'k loader_api \<Rightarrow> 'k \<Rightarrow> (go_error + objs) \<times> 'k" where
  "LoadGtpXdpObjects api k =
     (case LoadGtpXdp api of Inl e \<Rightarrow> (Inl e, k) | Inr spec \<Rightarrow> LoadAndAssign api spec k)"

text \<open>The tags of \<open>GtpXdpMaps\<close>: which map of the object file each field receives.\<close>

definition GtpXdpMaps_tags :: "(string \<times> (objs \<Rightarrow> map_fd)) list" where
  "GtpXdpMaps_tags =
     [(''nat_map'', NatFd), (''stats_map'', StatsFd), (''teid_map'', TeidFd), (''tx_port'', TxFd),
      (''ueip_map'', UeipFd)]"

section \<open>Closing\<close>

text \<open>\<open>_GtpXdpClose\<close>: the closers in order, until one fails.\<close>

fun close_all :: "('k \<Rightarrow> go_error option \<times> 'k) list \<Rightarrow> 'k \<Rightarrow> go_error option \<times> 'k" where
  "close_all [] k = (None, k)"
| "close_all (c # cs) k =
     (case c k of (Some e, k') \<Rightarrow> (Some e, k') | (None, k') \<Rightarrow> close_all cs k')"

definition Programs_Close :: "'k loader_api \<Rightarrow> objs \<Rightarrow> 'k \<Rightarrow> go_error option \<times> 'k" where
  "Programs_Close api ob = close_all [ProgClose api (XdpGtpRouter ob)]"

definition Maps_Close :: "'k loader_api \<Rightarrow> objs \<Rightarrow> 'k \<Rightarrow> go_error option \<times> 'k" where
  "Maps_Close api ob = close_all
     (map (MapFdClose api) [NatFd ob, StatsFd ob, TeidFd ob, TxFd ob, UeipFd ob])"

definition Objects_Close :: "'k loader_api \<Rightarrow> objs \<Rightarrow> 'k \<Rightarrow> go_error option \<times> 'k" where
  "Objects_Close api ob = close_all [Programs_Close api ob, Maps_Close api ob]"

record loader =
  Objs :: objs
  Xdp :: "link_id option"
  XdpDL :: "link_id option"
  Iface :: int

definition close_link :: "'k loader_api \<Rightarrow> link_id option \<Rightarrow> 'k \<Rightarrow> 'k" where
  "close_link api l k = (case l of None \<Rightarrow> k | Some x \<Rightarrow> snd (LinkClose api x k))"

definition Loader_Close :: "'k loader_api \<Rightarrow> loader \<Rightarrow> 'k \<Rightarrow> 'k" where
  "Loader_Close api l k =
     snd (Objects_Close api (Objs l) (close_link api (Xdp l) (close_link api (XdpDL l) k)))"

section \<open>Load\<close>

definition pin_list :: "objs \<Rightarrow> (string \<times> map_fd) list" where
  "pin_list ob =
     [(PinTeidMap, TeidFd ob), (PinUeipMap, UeipFd ob), (PinNatMap, NatFd ob), (PinStatsMap, StatsFd ob),
      (PinTxPort, TxFd ob)]"

fun pin_maps :: "'k loader_api \<Rightarrow> (string \<times> map_fd) list \<Rightarrow> 'k \<Rightarrow> go_error option \<times> 'k" where
  "pin_maps api [] k = (None, k)"
| "pin_maps api ((path, m) # ps) k =
     (case PinMap api m path (snd (RemovePath api path k)) of
        (Some e, k') \<Rightarrow> (Some (Wrapped (''pin '' @ path) e), k')
      | (None, k') \<Rightarrow> pin_maps api ps k')"

text \<open>\<open>_ = os.Remove(path); if err := l.Pin(path); err != nil { warn }\<close>: a failure is only printed.\<close>

definition replace_pin :: "'k loader_api \<Rightarrow> link_id \<Rightarrow> string \<Rightarrow> 'k \<Rightarrow> 'k" where
  "replace_pin api l path k = snd (LinkPin api l path (snd (RemovePath api path k)))"

definition ensure_port :: "'k loader_api \<Rightarrow> objs \<Rightarrow> int \<Rightarrow> string \<Rightarrow> 'k \<Rightarrow> go_error option \<times> 'k" where
  "ensure_port api ob index name k =
     (case TxPortMap_Ensure (Maps api) (TxFd ob) (word_of_int index) k of
        (Inl e, k') \<Rightarrow> (Some (Wrapped (''tx_port provision '' @ name) e), k')
      | (Inr _, k') \<Rightarrow> (None, k'))"

text \<open>The downlink half; \<open>cleanup\<close> unpins the uplink link and closes the loader.\<close>

definition cleanup :: "'k loader_api \<Rightarrow> link_id \<Rightarrow> loader \<Rightarrow> 'k \<Rightarrow> 'k" where
  "cleanup api xdpLink l k = Loader_Close api l (snd (LinkUnpin api xdpLink k))"

definition load_downlink ::
  "'k loader_api \<Rightarrow> interfaces \<Rightarrow> link_id \<Rightarrow> loader \<Rightarrow> string \<Rightarrow> xdp_flags \<Rightarrow> ('k, loader) run" where
  "load_downlink api ifaces xdpLink l dlIface dlMode k =
     (case ifaces dlIface of
        Inl e \<Rightarrow> (Inl (Wrapped (''downlink interface '' @ dlIface) e), cleanup api xdpLink l k)
      | Inr dlIndex \<Rightarrow>
          (case ensure_port api (Objs l) dlIndex dlIface k of
             (Some e, k') \<Rightarrow> (Inl e, cleanup api xdpLink l k')
           | (None, k') \<Rightarrow>
               (case AttachXDP api (XdpGtpRouter (Objs l)) dlIndex dlMode k' of
                  (Inl e, k'') \<Rightarrow>
                    (Inl (Wrapped (''attach XDP to downlink '' @ dlIface) e), cleanup api xdpLink l k'')
                | (Inr xdpDL, k'') \<Rightarrow>
                    (Inr (l\<lparr>XdpDL := Some xdpDL\<rparr>), replace_pin api xdpDL PinProgDownlink k''))))"

definition load_uplink ::
  "'k loader_api \<Rightarrow> interfaces \<Rightarrow> objs \<Rightarrow> int \<Rightarrow> string \<Rightarrow> xdp_flags \<Rightarrow> string \<Rightarrow> xdp_flags
     \<Rightarrow> ('k, loader) run" where
  "load_uplink api ifaces ob index uplinkIface uplinkMode dlIface dlMode k =
     (case AttachXDP api (XdpGtpRouter ob) index uplinkMode k of
        (Inl e, k') \<Rightarrow>
          (Inl (Wrapped (''attach XDP to '' @ uplinkIface) e), snd (Objects_Close api ob k'))
      | (Inr xdpLink, k') \<Rightarrow>
          (case ensure_port api ob index uplinkIface (replace_pin api xdpLink PinProg k') of
             (Some e, k'') \<Rightarrow>
               (Inl e, snd (Objects_Close api ob
                  (snd (LinkClose api xdpLink (snd (LinkUnpin api xdpLink k''))))))
           | (None, k'') \<Rightarrow>
               let l = \<lparr>Objs = ob, Xdp = Some xdpLink, XdpDL = None, Iface = index\<rparr>
               in if dlIface \<noteq> [] then load_downlink api ifaces xdpLink l dlIface dlMode k''
                  else (Inr l, k'')))"

definition Load ::
  "'k loader_api \<Rightarrow> interfaces \<Rightarrow> string \<Rightarrow> xdp_flags \<Rightarrow> string \<Rightarrow> xdp_flags \<Rightarrow> ('k, loader) run" where
  "Load api ifaces uplinkIface uplinkMode dlIface dlMode k =
     (case ifaces uplinkIface of
        Inl e \<Rightarrow> (Inl (Wrapped (''interface '' @ uplinkIface) e), k)
      | Inr index \<Rightarrow>
          (case LoadGtpXdpObjects api k of
             (Inl e, k1) \<Rightarrow> (Inl (Wrapped ''load BPF objects'' e), k1)
           | (Inr ob, k1) \<Rightarrow>
               (case MkdirAll api PinDir k1 of
                  (Some e, k2) \<Rightarrow>
                    (Inl (Wrapped (''mkdir '' @ PinDir) e), snd (Objects_Close api ob k2))
                | (None, k2) \<Rightarrow>
                    (case pin_maps api (pin_list ob) k2 of
                       (Some e, k3) \<Rightarrow> (Inl e, snd (Objects_Close api ob k3))
                     | (None, k3) \<Rightarrow>
                         load_uplink api ifaces ob index uplinkIface uplinkMode dlIface dlMode k3))))"

section \<open>Unload\<close>

definition close_pinned :: "'k loader_api \<Rightarrow> string \<Rightarrow> 'k \<Rightarrow> 'k" where
  "close_pinned api path k =
     (case LoadPinnedLink api path k of
        (Inr l, k') \<Rightarrow> snd (LinkClose api l k')
      | (Inl e, k') \<Rightarrow> k')"

definition unload_paths :: "string list" where
  "unload_paths =
     [PinTeidMap, PinUeipMap, PinNatMap, PinStatsMap, PinTxPort, PinProg, PinProgDownlink, PinDir]"

definition Unload :: "'k loader_api \<Rightarrow> interfaces \<Rightarrow> string \<Rightarrow> ('k, unit) run" where
  "Unload api ifaces ifaceName k =
     (case ifaces ifaceName of
        Inl e \<Rightarrow> (Inl (Wrapped (''interface '' @ ifaceName) e), k)
      | Inr index \<Rightarrow>
          (Inr (), fold (\<lambda>p k. snd (RemovePath api p k)) unload_paths
             (close_pinned api PinProgDownlink (close_pinned api PinProg k))))"

section \<open>The commands\<close>

definition parseMode :: "string \<Rightarrow> go_error + xdp_flags" where
  "parseMode s =
     (if s = ''native'' \<or> s = ''driver'' then Inr XDPDriverMode
      else if s = ''generic'' \<or> s = ''skb'' then Inr XDPGenericMode
      else if s = ''offload'' \<or> s = ''hw'' then Inr XDPOffloadMode
      else Inl (Message (''unknown mode '' @ s @ '': must be native|generic|offload'')))"

definition load_RunE ::
  "'k loader_api \<Rightarrow> interfaces \<Rightarrow> string \<Rightarrow> string \<Rightarrow> string \<Rightarrow> string \<Rightarrow> ('k, unit) run" where
  "load_RunE api ifaces loadIface loadMode loadDLIface loadDLMode k =
     (if loadIface = [] then (Inl (Required ''--iface''), k)
      else case parseMode loadMode of
        Inl e \<Rightarrow> (Inl e, k)
      | Inr xdpFlags \<Rightarrow>
          (case (if loadDLIface \<noteq> [] then parseMode loadDLMode else Inr XDPNoFlags) of
             Inl e \<Rightarrow> (Inl (Wrapped ''--dl-mode'' e), k)
           | Inr dlFlags \<Rightarrow>
               (case Load api ifaces loadIface xdpFlags loadDLIface dlFlags k of
                  (Inl e, k') \<Rightarrow> (Inl e, k')
                | (Inr l, k') \<Rightarrow> (Inr (), Loader_Close api l k'))))"

definition unload_RunE :: "'k loader_api \<Rightarrow> interfaces \<Rightarrow> string \<Rightarrow> ('k, unit) run" where
  "unload_RunE api ifaces unloadIface k =
     (if unloadIface = [] then (Inl (Required ''--iface''), k) else Unload api ifaces unloadIface k)"

text \<open>Each map is pinned under the name it has in the object file, and each has a pin.\<close>

lemma pins_are_named:
  "set (pin_list ob) = (\<lambda>(tag, sel). (PinDir @ ''/'' @ tag, sel ob)) ` set GtpXdpMaps_tags"
  by (auto simp: pin_list_def GtpXdpMaps_tags_def PinTeidMap_def PinUeipMap_def PinNatMap_def
      PinStatsMap_def PinTxPort_def)

section \<open>What the operator can observe\<close>

record sysview =
  VPins :: "string \<Rightarrow> pinned_object option"
  VTarget :: "link_id \<Rightarrow> (int \<times> prog_fd) option"
  VOpen :: "link_id \<Rightarrow> bool"
  VEntries :: "map_fd \<Rightarrow> u32 \<Rightarrow> map_value option"

definition alive :: "sysview \<Rightarrow> link_id \<Rightarrow> bool" where
  "alive v l \<longleftrightarrow> VOpen v l \<or> (\<exists>p. VPins v p = Some (LinkObj l))"

text \<open>The program \<open>pr\<close> runs on the interface \<open>i\<close>.\<close>

definition runs :: "sysview \<Rightarrow> int \<Rightarrow> prog_fd \<Rightarrow> bool" where
  "runs v i pr \<longleftrightarrow> (\<exists>l. alive v l \<and> VTarget v l = Some (i, pr))"

definition map_pins :: "sysview \<Rightarrow> string \<Rightarrow> map_fd option" where
  "map_pins v p = (case VPins v p of Some (MapObj m) \<Rightarrow> Some m | _ \<Rightarrow> None)"

lemma map_pins_Some: "map_pins v p = Some m \<longleftrightarrow> VPins v p = Some (MapObj m)"
  by (auto simp: map_pins_def split: option.splits pinned_object.splits)

text \<open>The program runs on the interface and its devmap knows it.\<close>

definition provided :: "sysview \<Rightarrow> objs \<Rightarrow> int \<Rightarrow> bool" where
  "provided v ob i \<longleftrightarrow> runs v i (XdpGtpRouter ob)
     \<and> VEntries v (TxFd ob) (word_of_int i) = Some (PortV (word_of_int i))"

text \<open>A BPF file system that does what it is asked: paths are created, removed and reused.\<close>

definition bpffs_works :: "'k loader_api \<Rightarrow> ('k \<Rightarrow> sysview) \<Rightarrow> bool" where
  "bpffs_works lapi view \<longleftrightarrow>
     (\<forall>p k. VPins (view k) p \<noteq> None \<longrightarrow> fst (RemovePath lapi p k) = None)
     \<and> (\<forall>m p k. VPins (view k) p = None \<longrightarrow> fst (PinMap lapi m p k) = None)
     \<and> (\<forall>l p k. VPins (view k) p = None \<longrightarrow> fst (LinkPin lapi l p k) = None)
     \<and> (\<forall>d k. fst (MkdirAll lapi d k) = None)
     \<and> (\<forall>l k. fst (LinkUnpin lapi l k) = None)"

text \<open>From \<open>v\<close> to \<open>v'\<close> no link outside \<open>L\<close> comes to life or moves.\<close>

definition sheds :: "link_id set \<Rightarrow> sysview \<Rightarrow> sysview \<Rightarrow> bool" where
  "sheds L v v' \<longleftrightarrow> (\<forall>l. l \<notin> L \<longrightarrow> alive v' l \<longrightarrow> alive v l \<and> VTarget v' l = VTarget v l)"

lemma sheds_refl [simp]: "sheds L v v"
  by (simp add: sheds_def)

lemma sheds_trans: "sheds L v v' \<Longrightarrow> sheds L v' v'' \<Longrightarrow> sheds L v v''"
  by (auto simp: sheds_def)

lemma sheds_mono: "sheds L v v' \<Longrightarrow> L \<subseteq> M \<Longrightarrow> sheds M v v'"
  by (auto simp: sheds_def)

lemma sheds_runs: "sheds {} v v' \<Longrightarrow> runs v' i pr \<Longrightarrow> runs v i pr"
  by (auto simp: sheds_def runs_def)

definition port_cells :: "objs \<Rightarrow> int list \<Rightarrow> (map_fd \<Rightarrow> u32 \<Rightarrow> map_value option)
    \<Rightarrow> map_fd \<Rightarrow> u32 \<Rightarrow> map_value option" where
  "port_cells ob is E =
     fold (\<lambda>i E. cell_set E (TxFd ob) (word_of_int i) (Some (PortV (word_of_int i)))) is E"

section \<open>The laws of the kernel objects\<close>

definition object_fds :: "objs \<Rightarrow> map_fd set" where
  "object_fds ob = {NatFd ob, StatsFd ob, TeidFd ob, TxFd ob, UeipFd ob}"

text \<open>Newly loaded objects: five different maps that no pin refers to and a program of no link.\<close>

definition fresh_objs :: "sysview \<Rightarrow> objs \<Rightarrow> bool" where
  "fresh_objs v ob \<longleftrightarrow>
     distinct [NatFd ob, StatsFd ob, TeidFd ob, TxFd ob, UeipFd ob]
     \<and> (\<forall>p m. VPins v p = Some (MapObj m) \<longrightarrow> m \<notin> object_fds ob)
     \<and> (\<forall>l i. VTarget v l \<noteq> Some (i, XdpGtpRouter ob))"

locale bpf_system = bpf_maps "Maps lapi" "\<lambda>k. map_pins (view k)" "\<lambda>k. VEntries (view k)"
  for lapi :: "'k loader_api" and view :: "'k \<Rightarrow> sysview" +
  assumes put_frame: "MapPut (Maps lapi) m x v k = (r, k') \<Longrightarrow>
        view k' = (view k)\<lparr>VEntries := VEntries (view k')\<rparr>"
    and load_and_assign: "LoadAndAssign lapi spec k = (Inr ob, k') \<Longrightarrow> fresh_objs (view k) ob
        \<and> view k' = (view k)\<lparr>VEntries := VEntries (view k')\<rparr>
        \<and> (\<forall>m. m \<notin> object_fds ob \<longrightarrow> VEntries (view k') m = VEntries (view k) m)"
      "LoadAndAssign lapi spec k = (Inl e, k') \<Longrightarrow> view k' = view k"
    and close_fds: "view (snd (ProgClose lapi pr k)) = view k" "view (snd (MapFdClose lapi m k)) = view k"
    and mkdir: "view (snd (MkdirAll lapi d k)) = view k"
    and remove: "RemovePath lapi p k = (None, k') \<Longrightarrow>
        view k' = (view k)\<lparr>VPins := (VPins (view k))(p := None)\<rparr>"
      "RemovePath lapi p k = (Some e, k') \<Longrightarrow> view k' = view k"
    and pin_map: "PinMap lapi m p k = (None, k') \<Longrightarrow>
        view k' = (view k)\<lparr>VPins := (VPins (view k))(p \<mapsto> MapObj m)\<rparr>"
      "PinMap lapi m p k = (Some e, k') \<Longrightarrow> view k' = view k"
    and attach: "AttachXDP lapi pr i fl k = (Inr l, k') \<Longrightarrow>
        (\<forall>pr'. \<not> runs (view k) i pr') \<and> \<not> alive (view k) l
        \<and> view k' = (view k)\<lparr>VTarget := (VTarget (view k))(l \<mapsto> (i, pr)), VOpen := (VOpen (view k))(l := True)\<rparr>"
      "AttachXDP lapi pr i fl k = (Inl e, k') \<Longrightarrow> view k' = view k"
    and link_pin: "LinkPin lapi l p k = (None, k') \<Longrightarrow>
        view k' = (view k)\<lparr>VPins := (VPins (view k))(p \<mapsto> LinkObj l)\<rparr>"
      "LinkPin lapi l p k = (Some e, k') \<Longrightarrow> view k' = view k"
    and link_unpin: "LinkUnpin lapi l k = (None, k') \<Longrightarrow> view k' = (view k)\<lparr>VPins :=
        (\<lambda>p. if VPins (view k) p = Some (LinkObj l) then None else VPins (view k) p)\<rparr>"
      "LinkUnpin lapi l k = (Some e, k') \<Longrightarrow> view k' = view k"
    and link_close: "view (snd (LinkClose lapi l k)) = (view k)\<lparr>VOpen := (VOpen (view k))(l := False)\<rparr>"
    and load_link: "LoadPinnedLink lapi p k = (Inr l, k') \<Longrightarrow> VPins (view k) p = Some (LinkObj l)
        \<and> view k' = (view k)\<lparr>VOpen := (VOpen (view k))(l := True)\<rparr>"
      "LoadPinnedLink lapi p k = (Inl e, k') \<Longrightarrow> view k' = view k"
begin

lemma load_objects:
  "LoadGtpXdpObjects lapi k = (Inr ob, k') \<Longrightarrow> fresh_objs (view k) ob
     \<and> view k' = (view k)\<lparr>VEntries := VEntries (view k')\<rparr>
     \<and> (\<forall>m. m \<notin> object_fds ob \<longrightarrow> VEntries (view k') m = VEntries (view k) m)"
  "LoadGtpXdpObjects lapi k = (Inl e, k') \<Longrightarrow> view k' = view k"
  using load_and_assign by (auto simp: LoadGtpXdpObjects_def split: sum.splits)

lemma close_all_view:
  "(\<And>c k. c \<in> set cs \<Longrightarrow> view (snd (c k)) = view k) \<Longrightarrow> view (snd (close_all cs k)) = view k"
proof (induction cs arbitrary: k)
  case (Cons c cs)
  obtain r k' where r: "c k = (r, k')" by fastforce
  with Cons.prems(1) [of c k] have "view k' = view k" by simp
  with Cons r show ?case by (cases r) auto
qed simp

lemma Objects_Close_view [simp]: "view (snd (Objects_Close lapi ob k)) = view k"
  unfolding Objects_Close_def Programs_Close_def Maps_Close_def
  by (rule close_all_view) (auto intro!: close_all_view close_fds)

lemma Loader_Close_view:
  "view (Loader_Close lapi l k) = (view k)\<lparr>VOpen := (\<lambda>x. VOpen (view k) x \<and> Xdp l \<noteq> Some x \<and> XdpDL l \<noteq> Some x)\<rparr>"
  by (auto simp: Loader_Close_def close_link_def link_close fun_eq_iff split: option.splits
      intro!: sysview.equality)

lemma remove_view:
  "view (snd (RemovePath lapi p k)) = view k \<or>
   view (snd (RemovePath lapi p k)) = (view k)\<lparr>VPins := (VPins (view k))(p := None)\<rparr>"
  using remove(1) [of p k] remove(2) [of p k] by (cases "RemovePath lapi p k"; cases "fst (RemovePath lapi p k)") auto

lemma link_pin_view:
  "view (snd (LinkPin lapi l p k)) =
     (if fst (LinkPin lapi l p k) = None
      then (view k)\<lparr>VPins := (VPins (view k))(p \<mapsto> LinkObj l)\<rparr> else view k)"
  using link_pin(1) [of l p k] link_pin(2) [of l p k]
  by (cases "LinkPin lapi l p k"; cases "fst (LinkPin lapi l p k)") auto

lemma ensure_port_view:
  assumes "ensure_port lapi ob i name k = (r, k')"
  shows "view k' = (view k)\<lparr>VEntries := VEntries (view k')\<rparr>"
    and "r = None \<Longrightarrow> VEntries (view k') =
      cell_set (VEntries (view k)) (TxFd ob) (word_of_int i) (Some (PortV (word_of_int i)))"
proof -
  let ?w = "word_of_int i :: u32"
  obtain e k1 where p: "MapPut (Maps lapi) (TxFd ob) ?w (PortV ?w) k = (e, k1)" by fastforce
  then have k': "k' = k1" and r: "r = None \<longleftrightarrow> e = None"
    using assms by (cases e; auto simp: ensure_port_def TxPortMap_Ensure_def)+
  show "view k' = (view k)\<lparr>VEntries := VEntries (view k')\<rparr>" using put_frame [OF p] k' by simp
  show "VEntries (view k') = cell_set (VEntries (view k)) (TxFd ob) ?w (Some (PortV ?w))" if "r = None"
    using put_ok [of "TxFd ob" ?w "PortV ?w" k k1] p r that k' by (simp add: cell_set_def)
qed

lemma ensure_port_ok:
  assumes "ensure_port lapi ob i name k = (None, k')"
  shows "view k' = (view k)\<lparr>VEntries := cell_set (VEntries (view k)) (TxFd ob) (word_of_int i)
    (Some (PortV (word_of_int i)))\<rparr>"
  using ensure_port_view(1) [OF assms] ensure_port_view(2) [OF assms refl] by simp

section \<open>A failing load\<close>

lemma sheds_pins:
  "(\<And>p l. P p = Some (LinkObj l) \<Longrightarrow> l \<in> L \<or> VPins v p = Some (LinkObj l)) \<Longrightarrow>
     sheds L v (v\<lparr>VPins := P\<rparr>)"
  by (fastforce simp: sheds_def alive_def)

lemma sheds_remove: "sheds L (view k) (view (snd (RemovePath lapi p k)))"
  using remove_view [of p k] by (auto simp del: fun_upd_apply intro!: sheds_pins) (auto split: if_splits)

lemma sheds_pin_map: "sheds L (view k) (view (snd (PinMap lapi m p k)))"
  using pin_map(1) [of m p k] pin_map(2) [of m p k]
  by (cases "PinMap lapi m p k"; cases "fst (PinMap lapi m p k)")
    (auto intro!: sheds_pins split: if_splits simp: fun_upd_def)

lemma sheds_replace_pin: "l \<in> L \<Longrightarrow> sheds L (view k) (view (replace_pin lapi l p k))"
  unfolding replace_pin_def
  by (rule sheds_trans [OF sheds_remove])
    (auto simp: link_pin_view intro!: sheds_pins split: if_splits)

lemma sheds_pin_maps: "sheds L (view k) (view (snd (pin_maps lapi ps k)))"
proof (induction ps arbitrary: k)
  case (Cons x ps)
  obtain p m where x: "x = (p, m)" by (cases x)
  let ?k = "snd (RemovePath lapi p k)"
  obtain r k' where r: "PinMap lapi m p ?k = (r, k')" by fastforce
  have "sheds L (view k) (view k')"
    using sheds_trans [OF sheds_remove [of L k p] sheds_pin_map [of L ?k m p]] r by simp
  with Cons [of k'] show ?case using r x by (cases r) (auto intro: sheds_trans)
qed simp

lemma sheds_entries: "view k' = (view k)\<lparr>VEntries := E\<rparr> \<Longrightarrow> sheds L (view k) (view k')"
  by (simp add: sheds_def alive_def)

lemma sheds_ensure: "ensure_port lapi ob i name k = (r, k') \<Longrightarrow> sheds L (view k) (view k')"
  by (rule sheds_entries [OF ensure_port_view(1)])

lemma sheds_close: "sheds L (view k) (view (snd (LinkClose lapi l k)))"
  by (auto simp: sheds_def alive_def link_close split: if_splits)

lemma sheds_Loader_Close: "sheds L (view k) (view (Loader_Close lapi l k))"
  by (auto simp: sheds_def alive_def Loader_Close_view)

lemma sheds_unpin: "sheds L (view k) (view (snd (LinkUnpin lapi l k)))"
  using link_unpin(1) [of l k] link_unpin(2) [of l k]
  by (cases "LinkUnpin lapi l k"; cases "fst (LinkUnpin lapi l k)")
    (auto intro!: sheds_pins split: if_splits)

text \<open>Unpinning and closing a link leaves it without a reference, when the unpinning succeeds.\<close>

lemma cleanup_dead:
  assumes "fst (LinkUnpin lapi x k) = None"
  shows "\<not> alive (view (Loader_Close lapi \<lparr>Objs = ob, Xdp = Some x, XdpDL = d, Iface = i\<rparr> (snd (LinkUnpin lapi x k)))) x"
    and "\<not> alive (view (snd (LinkClose lapi x (snd (LinkUnpin lapi x k))))) x"
  using link_unpin(1) [of x k] assms
  by (cases "LinkUnpin lapi x k"; simp add: alive_def Loader_Close_view link_close)+

lemma load_uplink_sheds:
  assumes unpin: "\<And>l k. fst (LinkUnpin lapi l k) = None"
    and "load_uplink lapi ifaces ob index up um dl dm k = (Inl e, k')"
  shows "sheds {} (view k) (view k')"
proof (cases "AttachXDP lapi (XdpGtpRouter ob) index um k")
  case (Pair r k1)
  show ?thesis
  proof (cases r)
    case (Inl e')
    with Pair assms(2) attach(2) [of "XdpGtpRouter ob" index um k e' k1] show ?thesis
      by (auto simp: load_uplink_def)
  next
    case (Inr x)
    have a: "sheds {x} (view k) (view k1)"
      using attach(1) [of "XdpGtpRouter ob" index um k x k1] Pair Inr
      by (auto simp: sheds_def alive_def)
    obtain r2 k2 where e2: "ensure_port lapi ob index up (replace_pin lapi x PinProg k1) = (r2, k2)"
      by fastforce
    have b: "sheds {x} (view k) (view k2)"
      using a sheds_replace_pin [of x "{x}" k1 PinProg] sheds_ensure [OF e2] by (auto intro: sheds_trans)
    let ?l = "\<lparr>Objs = ob, Xdp = Some x, XdpDL = None, Iface = index\<rparr>"
    have fin: "sheds {} (view k) (view q)"
      if "sheds {x} (view k) (view q)" "\<not> alive (view q) x" for q using that by (auto simp: sheds_def)
    have cl: "sheds {} (view k) (view (cleanup lapi x ?l q))" if "sheds {x} (view k) (view q)" for q
      unfolding cleanup_def
      using that sheds_unpin [of "{x}" q x] sheds_Loader_Close [of "{x}" "snd (LinkUnpin lapi x q)" ?l]
        cleanup_dead(1) [OF unpin] by (intro fin) (auto intro: sheds_trans)
    show ?thesis
    proof (cases r2)
      case (Some e2')
      have "sheds {x} (view k) (view (snd (LinkClose lapi x (snd (LinkUnpin lapi x k2)))))"
        using b sheds_unpin [of "{x}" k2 x] sheds_close [of "{x}" "snd (LinkUnpin lapi x k2)" x]
        by (auto intro: sheds_trans)
      with Some Pair Inr e2 assms(2) fin cleanup_dead(2) [OF unpin] show ?thesis
        by (auto simp: load_uplink_def)
    next
      case None
      with Pair Inr e2 assms(2) have d: "load_downlink lapi ifaces x ?l dl dm k2 = (Inl e, k')"
        by (simp add: load_uplink_def Let_def split: if_splits)
      show ?thesis
      proof (cases "ifaces dl")
        case (Inl e3)
        with d cl [OF b] show ?thesis by (simp add: load_downlink_def)
      next
        case (Inr j)
        obtain r3 k3 where e3: "ensure_port lapi ob j dl k2 = (r3, k3)" by fastforce
        have c: "sheds {x} (view k) (view k3)" using b sheds_ensure [OF e3] by (auto intro: sheds_trans)
        obtain r4 k4 where e4: "AttachXDP lapi (XdpGtpRouter ob) j dm k3 = (r4, k4)" by fastforce
        show ?thesis
        proof (cases r3)
          case (Some e')
          with Inr d e3 cl [OF c] show ?thesis by (simp add: load_downlink_def)
        next
          case None
          with Inr d e3 e4 obtain e' where r4: "r4 = Inl e'" "k' = cleanup lapi x ?l k4"
            by (auto simp: load_downlink_def split: sum.splits)
          with e4 attach(2) have "view k4 = view k3" by blast
          with cl [of k4] c r4 show ?thesis by simp
        qed
      qed
    qed
  qed
qed

lemma load_sheds:
  assumes unpin: "\<And>l k. fst (LinkUnpin lapi l k) = None"
    and run: "Load lapi ifaces up um dl dm k = (Inl e, k')"
  shows "sheds {} (view k) (view k')"
proof (cases "ifaces up")
  case (Inl e')
  with run show ?thesis by (simp add: Load_def)
next
  case (Inr index)
  obtain r1 k1 where l: "LoadGtpXdpObjects lapi k = (r1, k1)" by fastforce
  show ?thesis
  proof (cases r1)
    case (Inl e')
    with Inr l run load_objects(2) show ?thesis by (simp add: Load_def)
  next
    case (Inr ob)
    have s1: "sheds {} (view k) (view k1)" using load_objects(1) [of k ob k1] l Inr
      by (auto intro: sheds_entries)
    obtain r2 k2 where m: "MkdirAll lapi PinDir k1 = (r2, k2)" by fastforce
    have v2: "view k2 = view k1" using mkdir [of PinDir k1] m by simp
    obtain r3 k3 where p: "pin_maps lapi (pin_list ob) k2 = (r3, k3)" by fastforce
    have s3: "sheds {} (view k) (view k3)"
      using s1 v2 sheds_pin_maps [of "{}" k2 "pin_list ob"] p by (auto intro: sheds_trans)
    note run' = run [unfolded Load_def \<open>ifaces up = Inr index\<close> l Inr m p, simplified]
    show ?thesis
    proof (cases r2)
      case None
      show ?thesis
      proof (cases r3)
        case None
        with \<open>r2 = None\<close> run' load_uplink_sheds [OF unpin, of ifaces ob index up um dl dm k3 e k'] s3
        show ?thesis by (auto intro: sheds_trans simp: m p)
      qed (use run' \<open>r2 = None\<close> s3 m p in auto)
    qed (use run' s1 v2 m in auto)
  qed
qed

section \<open>A successful load\<close>

lemma pin_maps_view:
  "pin_maps lapi ps k = (None, k') \<Longrightarrow>
     view k' = (view k)\<lparr>VPins := fold (\<lambda>(p, m) P. P(p \<mapsto> MapObj m)) ps (VPins (view k))\<rparr>"
proof (induction ps arbitrary: k)
  case (Cons x ps)
  obtain p m where x: "x = (p, m)" by (cases x)
  obtain r k1 where r: "PinMap lapi m p (snd (RemovePath lapi p k)) = (r, k1)" by fastforce
  with Cons.prems x have n: "r = None" "pin_maps lapi ps k1 = (None, k')" by (cases r; simp)+
  from pin_map(1) [OF r [unfolded n]] remove_view [of p k]
  have "view k1 = (view k)\<lparr>VPins := (VPins (view k))(p \<mapsto> MapObj m)\<rparr>" by auto
  with Cons.IH [OF n(2)] x show ?case by simp
qed simp

lemma load_run:
  assumes "Load lapi ifaces up um dl dm k = (Inr l, k')"
  obtains index ob k1 k2 k3 where "ifaces up = Inr index" and "LoadGtpXdpObjects lapi k = (Inr ob, k1)"
    and "MkdirAll lapi PinDir k1 = (None, k2)" and "view k2 = view k1"
    and "pin_maps lapi (pin_list ob) k2 = (None, k3)"
    and "load_uplink lapi ifaces ob index up um dl dm k3 = (Inr l, k')"
  using assms mkdir unfolding Load_def
  by (auto split: sum.splits prod.splits option.splits) (metis snd_conv)

lemma load_uplink_run:
  assumes "load_uplink lapi ifaces ob index up um dl dm k = (Inr l, k')"
  obtains x k1 k2 where "AttachXDP lapi (XdpGtpRouter ob) index um k = (Inr x, k1)"
    and "ensure_port lapi ob index up (replace_pin lapi x PinProg k1) = (None, k2)"
    and "Objs l = ob" and "Xdp l = Some x"
    and "dl = [] \<and> XdpDL l = None \<and> k' = k2 \<or>
      dl \<noteq> [] \<and> (\<exists>j k3 xd k4. ifaces dl = Inr j \<and> ensure_port lapi ob j dl k2 = (None, k3)
        \<and> AttachXDP lapi (XdpGtpRouter ob) j dm k3 = (Inr xd, k4) \<and> XdpDL l = Some xd
        \<and> k' = replace_pin lapi xd PinProgDownlink k4)"
  using assms unfolding load_uplink_def load_downlink_def
  by (auto simp: Let_def split: sum.splits prod.splits option.splits if_splits)

lemma remove_works:
  assumes "bpffs_works lapi view"
  shows "view (snd (RemovePath lapi p k)) = (view k)\<lparr>VPins := (VPins (view k))(p := None)\<rparr>"
proof (cases "fst (RemovePath lapi p k)")
  case None
  then show ?thesis using remove(1) [of p k] by (cases "RemovePath lapi p k") simp
next
  case (Some e)
  with assms have "VPins (view k) p = None" by (metis bpffs_works_def option.distinct(1))
  then have "(VPins (view k))(p := None) = VPins (view k)" by (simp add: fun_upd_idem)
  then show ?thesis using Some remove(2) [of p k e] by (cases "RemovePath lapi p k") simp
qed

lemma replace_pin_ok:
  assumes "bpffs_works lapi view"
  shows "view (replace_pin lapi l p k) = (view k)\<lparr>VPins := (VPins (view k))(p \<mapsto> LinkObj l)\<rparr>"
proof -
  have "fst (LinkPin lapi l p (snd (RemovePath lapi p k))) = None"
    using assms remove_works [OF assms, of p k] by (simp add: bpffs_works_def)
  then show ?thesis by (simp add: replace_pin_def link_pin_view remove_works [OF assms])
qed

lemma replace_pin_failed:
  assumes "\<And>l p k. fst (LinkPin lapi l p k) \<noteq> None"
  shows "sheds {} (view k) (view (replace_pin lapi l p k))"
  using sheds_remove [of "{}" k p] by (simp add: replace_pin_def link_pin_view assms)

lemma providedI:
  assumes "VPins v p = Some (LinkObj x)" and "VTarget v x = Some (i, XdpGtpRouter ob)"
    and "VEntries v (TxFd ob) (word_of_int i) = Some (PortV (word_of_int i))"
  shows "provided v ob i"
  using assms unfolding provided_def runs_def alive_def by blast

text \<open>The entries the loader adds to its devmap.\<close>

text \<open>What \<open>gtp-ctrl load\<close> leaves behind when links can be pinned.\<close>

lemma load_provides:
  assumes pins: "bpffs_works lapi view"
    and run: "Load lapi ifaces up um dl dm k = (Inr l, k')"
  obtains index ob k1 where "ifaces up = Inr index" and "LoadGtpXdpObjects lapi k = (Inr ob, k1)"
    and "\<exists>is. VEntries (view (Loader_Close lapi l k')) = port_cells ob is (VEntries (view k1))
      \<and> (dl = [] \<and> is = [index] \<or> dl \<noteq> [] \<and> (\<exists>j. ifaces dl = Inr j \<and> is = [index, j]))"
    and "\<forall>(p, m) \<in> set (pin_list ob). VPins (view (Loader_Close lapi l k')) p = Some (MapObj m)"
    and "provided (view (Loader_Close lapi l k')) ob index"
    and "dl \<noteq> [] \<longrightarrow> (\<exists>j. ifaces dl = Inr j \<and> provided (view (Loader_Close lapi l k')) ob j)"
proof -
  obtain index ob k1 k2 k3 where o: "ifaces up = Inr index" "LoadGtpXdpObjects lapi k = (Inr ob, k1)"
    "view k2 = view k1" "pin_maps lapi (pin_list ob) k2 = (None, k3)"
    "load_uplink lapi ifaces ob index up um dl dm k3 = (Inr l, k')"
    using run by (rule load_run)
  obtain x k4 k5 where u: "AttachXDP lapi (XdpGtpRouter ob) index um k3 = (Inr x, k4)"
    "ensure_port lapi ob index up (replace_pin lapi x PinProg k4) = (None, k5)"
    "Objs l = ob" "Xdp l = Some x"
    "dl = [] \<and> XdpDL l = None \<and> k' = k5 \<or>
      dl \<noteq> [] \<and> (\<exists>j k3 xd k4. ifaces dl = Inr j \<and> ensure_port lapi ob j dl k5 = (None, k3)
        \<and> AttachXDP lapi (XdpGtpRouter ob) j dm k3 = (Inr xd, k4) \<and> XdpDL l = Some xd
        \<and> k' = replace_pin lapi xd PinProgDownlink k4)"
    using o(5) by (rule load_uplink_run)
  have v3: "view k3 = (view k1)\<lparr>VPins := fold (\<lambda>(p, m) P. P(p \<mapsto> MapObj m)) (pin_list ob) (VPins (view k1))\<rparr>"
    using pin_maps_view [OF o(4)] o(3) by simp
  define P where "P = VPins (view k3)"
  have P: "\<forall>(p, m) \<in> set (pin_list ob). P p = Some (MapObj m)"
    by (simp add: P_def v3 pin_list_def pin_defs)
  define E where "E = cell_set (VEntries (view k3)) (TxFd ob) (word_of_int index) (Some (PortV (word_of_int index)))"
  have v5: "view k5 = (view k3)\<lparr>VPins := P(PinProg \<mapsto> LinkObj x),
      VTarget := (VTarget (view k3))(x \<mapsto> (index, XdpGtpRouter ob)),
      VOpen := (VOpen (view k3))(x := True), VEntries := E\<rparr>"
    using attach(1) [OF u(1)] by (simp add: ensure_port_ok [OF u(2)] replace_pin_ok [OF pins] E_def P_def)
  have np: "PinProg \<notin> fst ` set (pin_list ob)" "PinProgDownlink \<notin> fst ` set (pin_list ob)"
    by (simp_all add: pin_list_def pin_defs)
  show thesis
  proof (cases "dl = []")
    case True
    then have k': "k' = k5" using u(5) by simp
    show thesis
    proof (rule that [OF o(1,2)])
      show "\<forall>(p, m) \<in> set (pin_list ob). VPins (view (Loader_Close lapi l k')) p = Some (MapObj m)"
        using P np by (force simp: Loader_Close_view k' v5)
      show "provided (view (Loader_Close lapi l k')) ob index"
        by (rule providedI [of _ PinProg x]) (simp_all add: Loader_Close_view k' v5 E_def)
      show "\<exists>is. VEntries (view (Loader_Close lapi l k')) = port_cells ob is (VEntries (view k1))
          \<and> (dl = [] \<and> is = [index] \<or> dl \<noteq> [] \<and> (\<exists>j. ifaces dl = Inr j \<and> is = [index, j]))"
        using True by (intro exI [of _ "[index]"]) (simp add: Loader_Close_view k' v5 E_def v3 port_cells_def)
    qed (use True in simp)
  next
    case False
    then obtain j k6 xd k7 where d: "ifaces dl = Inr j" "ensure_port lapi ob j dl k5 = (None, k6)"
        "AttachXDP lapi (XdpGtpRouter ob) j dm k6 = (Inr xd, k7)" "k' = replace_pin lapi xd PinProgDownlink k7"
      using u(5) by auto
    define F where "F = cell_set E (TxFd ob) (word_of_int j) (Some (PortV (word_of_int j)))"
    have v6: "view k6 = (view k5)\<lparr>VEntries := F\<rparr>" by (simp add: ensure_port_ok [OF d(2)] v5 F_def)
    have "alive (view k6) x" by (simp add: v6 v5 alive_def)
    then have ne: "xd \<noteq> x" using attach(1) [OF d(3)] by auto
    have v': "view k' = (view k5)\<lparr>VPins := P(PinProg \<mapsto> LinkObj x, PinProgDownlink \<mapsto> LinkObj xd),
        VTarget := (VTarget (view k3))(x \<mapsto> (index, XdpGtpRouter ob), xd \<mapsto> (j, XdpGtpRouter ob)),
        VOpen := (VOpen (view k3))(x := True, xd := True), VEntries := F\<rparr>"
      using attach(1) [OF d(3)] by (simp add: d(4) replace_pin_ok [OF pins] v6 v5)
    have pp: "PinProg \<noteq> PinProgDownlink" by (simp add: pin_defs)
    show thesis
    proof (rule that [OF o(1,2)])
      show "\<forall>(p, m) \<in> set (pin_list ob). VPins (view (Loader_Close lapi l k')) p = Some (MapObj m)"
        using P np by (force simp: Loader_Close_view v')
      show "provided (view (Loader_Close lapi l k')) ob index"
        using ne pp by (intro providedI [of _ PinProg x]) (auto simp: Loader_Close_view v' E_def F_def cell_set_def)
      have "provided (view (Loader_Close lapi l k')) ob j"
        by (rule providedI [of _ PinProgDownlink xd]) (simp_all add: Loader_Close_view v' F_def)
      with d(1) show "dl \<noteq> [] \<longrightarrow> (\<exists>j. ifaces dl = Inr j \<and> provided (view (Loader_Close lapi l k')) ob j)"
        by blast
      show "\<exists>is. VEntries (view (Loader_Close lapi l k')) = port_cells ob is (VEntries (view k1))
          \<and> (dl = [] \<and> is = [index] \<or> dl \<noteq> [] \<and> (\<exists>j. ifaces dl = Inr j \<and> is = [index, j]))"
        using False d(1)
        by (intro exI [of _ "[index, j]"]) (simp add: Loader_Close_view v' E_def F_def v3 port_cells_def)
    qed
  qed
qed

text \<open>What it leaves when they cannot: the warning is the only trace, the program is gone.\<close>

definition no_new_pins :: "sysview \<Rightarrow> sysview \<Rightarrow> bool" where
  "no_new_pins v v' \<longleftrightarrow> (\<forall>p l. VPins v' p = Some (LinkObj l) \<longrightarrow> VPins v p = Some (LinkObj l))"

lemma attach_sheds:
  assumes "AttachXDP lapi pr i fl k = (Inr x, k')"
  shows "sheds {x} (view k) (view k')" and "no_new_pins (view k) (view k')"
  using attach(1) [OF assms] by (auto simp: sheds_def alive_def no_new_pins_def)

lemma ensure_sheds:
  assumes "ensure_port lapi ob i name k = (r, k')"
  shows "sheds L (view k) (view k')" and "no_new_pins (view k) (view k')"
  using sheds_ensure [OF assms] arg_cong [OF ensure_port_view(1) [OF assms], of VPins]
  by (simp_all add: no_new_pins_def)

lemma replace_pin_sheds:
  assumes "\<And>l p k. fst (LinkPin lapi l p k) \<noteq> None"
  shows "sheds L (view k) (view (replace_pin lapi l p k))" and "no_new_pins (view k) (view (replace_pin lapi l p k))"
  using sheds_mono [OF replace_pin_failed [OF assms]] remove_view [of p k]
  by (auto simp: no_new_pins_def replace_pin_def link_pin_view assms split: if_splits)

lemma no_new_pins_trans: "no_new_pins v v' \<Longrightarrow> no_new_pins v' v'' \<Longrightarrow> no_new_pins v v''"
  by (simp add: no_new_pins_def)

lemma closed_dead:
  assumes "no_new_pins v (view k)" and "\<not> alive v x" and "x \<in> set_option (Xdp l) \<union> set_option (XdpDL l)"
  shows "\<not> alive (view (Loader_Close lapi l k)) x"
  using assms by (auto simp: alive_def no_new_pins_def Loader_Close_view)

lemma dead_runs:
  assumes "sheds L v v'" and "\<And>l. l \<in> L \<Longrightarrow> \<not> alive v' l" and "\<And>pr. \<not> runs v i pr"
  shows "\<not> runs v' i pr"
  using assms sheds_runs [of v v' i pr] by (auto simp: sheds_def)

lemma load_unpinned:
  assumes pins: "\<And>l p k. fst (LinkPin lapi l p k) \<noteq> None"
    and a: "AttachXDP lapi (XdpGtpRouter ob) index um k3 = (Inr x, k4)"
    and e: "ensure_port lapi ob index up (replace_pin lapi x PinProg k4) = (None, k5)"
    and down: "dl = [] \<or> dl \<noteq> [] \<and> (\<exists>j k6 xd k7. ifaces dl = Inr j \<and> ensure_port lapi ob j dl k5 = (None, k6)
      \<and> AttachXDP lapi (XdpGtpRouter ob) j dm k6 = (Inr xd, k7))"
  shows "\<exists>l k'. load_uplink lapi ifaces ob index up um dl dm k3 = (Inr l, k')
    \<and> (\<forall>i pr. (i = index \<or> dl \<noteq> [] \<and> ifaces dl = Inr i) \<longrightarrow> \<not> runs (view (Loader_Close lapi l k')) i pr)"
proof -
  note free = attach(1) [OF a]
  have rp: "sheds L (view k) (view (replace_pin lapi l p k))"
    "no_new_pins (view k) (view (replace_pin lapi l p k))" for L k l p
    by (rule replace_pin_sheds, rule pins)+
  have s: "sheds {x} (view k3) (view k5)" "no_new_pins (view k3) (view k5)"
    using attach_sheds [OF a] rp(1) [of "{x}" k4 x PinProg] rp(2) [of k4 x PinProg] ensure_sheds(1) [OF e, of "{x}"] ensure_sheds(2) [OF e]
    by (blast intro: sheds_trans no_new_pins_trans)+
  show ?thesis
  proof (cases "dl = []")
    case True
    let ?l = "\<lparr>Objs = ob, Xdp = Some x, XdpDL = None, Iface = index\<rparr>"
    have "\<not> alive (view (Loader_Close lapi ?l k5)) x"
      using free by (intro closed_dead [OF s(2)]) auto
    then have "\<not> runs (view (Loader_Close lapi ?l k5)) index pr" for pr
      using free by (intro dead_runs [OF sheds_trans [OF s(1) sheds_Loader_Close]]) auto
    with True a e show ?thesis by (auto simp: load_uplink_def)
  next
    case False
    then obtain j k6 xd k7 where d: "ifaces dl = Inr j" "ensure_port lapi ob j dl k5 = (None, k6)"
      "AttachXDP lapi (XdpGtpRouter ob) j dm k6 = (Inr xd, k7)" using down by blast
    let ?l = "\<lparr>Objs = ob, Xdp = Some x, XdpDL = Some xd, Iface = index\<rparr>"
    let ?k = "replace_pin lapi xd PinProgDownlink k7"
    let ?v = "view (Loader_Close lapi ?l ?k)"
    note freed = attach(1) [OF d(3)]
    have t: "sheds {xd} (view k6) (view ?k)" "no_new_pins (view k6) (view ?k)"
      using attach_sheds [OF d(3)] rp(1) [of "{xd}" k7 xd PinProgDownlink]
        rp(2) [of k7 xd PinProgDownlink]
      by (blast intro: sheds_trans no_new_pins_trans)+
    have u: "sheds {x} (view k3) (view k6)" "no_new_pins (view k3) (view k6)"
      using s ensure_sheds(1) [OF d(2), of "{x}"] ensure_sheds(2) [OF d(2)] by (blast intro: sheds_trans no_new_pins_trans)+
    have dead: "\<not> alive ?v x" "\<not> alive ?v xd"
      using free closed_dead [OF no_new_pins_trans [OF u(2) t(2)], of x ?l]
        freed closed_dead [OF t(2), of xd ?l] by simp_all
    have t6: "sheds {xd} (view k6) ?v" using sheds_trans [OF t(1) sheds_Loader_Close] .
    have "sheds {x, xd} (view k3) ?v"
      using sheds_mono [OF u(1), of "{x, xd}"] sheds_mono [OF t6, of "{x, xd}"] by (auto intro: sheds_trans)
    from dead_runs [OF this, of index] have "\<not> runs ?v index pr" for pr using dead free by auto
    moreover from dead_runs [OF t6, of j] have "\<not> runs ?v j pr" for pr using dead freed by auto
    ultimately show ?thesis using False a e d by (auto simp: load_uplink_def load_downlink_def Let_def)
  qed
qed

section \<open>Loading onto a busy interface\<close>

lemma pin_maps_works:
  assumes "bpffs_works lapi view"
  shows "\<exists>k'. pin_maps lapi ps k = (None, k')"
proof (induction ps arbitrary: k)
  case (Cons x ps)
  obtain p m where x: "x = (p, m)" by (cases x)
  have "fst (PinMap lapi m p (snd (RemovePath lapi p k))) = None"
    using assms remove_works [OF assms, of p k] by (simp add: bpffs_works_def)
  then obtain k1 where "PinMap lapi m p (snd (RemovePath lapi p k)) = (None, k1)"
    by (cases "PinMap lapi m p (snd (RemovePath lapi p k))") auto
  with Cons [of k1] x show ?case by simp
qed simp

lemma fold_pins_other:
  "p \<notin> fst ` set ps \<Longrightarrow> fold (\<lambda>(p, m) P. P(p \<mapsto> MapObj m)) ps P p = P p"
  by (induction ps arbitrary: P) auto

lemma fold_pins_self:
  "(p, m) \<in> set ps \<Longrightarrow> distinct (map fst ps) \<Longrightarrow>
     fold (\<lambda>(p, m) P. P(p \<mapsto> MapObj m)) ps P p = Some (MapObj m)"
proof (induction ps arbitrary: P)
  case (Cons x ps)
  obtain q n where x: "x = (q, n)" by (cases x)
  show ?case
  proof (cases "(p, m) \<in> set ps")
    case False
    with Cons.prems x have "q = p" "n = m" "p \<notin> fst ` set ps" by auto
    then show ?thesis
      using fold_pins_other [of p ps "P(p \<mapsto> MapObj m)"] x by (simp del: fun_upd_apply) simp
  qed (use Cons x in auto)
qed simp

lemma busy_load:
  assumes fs: "bpffs_works lapi view" and i: "ifaces up = Inr index"
    and l: "LoadGtpXdpObjects lapi k = (Inr ob, k1)" and r: "runs (view k) index pr"
    and np: "\<And>p l. p \<in> fst ` set (pin_list ob) \<Longrightarrow> VPins (view k) p \<noteq> Some (LinkObj l)"
  shows "\<exists>e k'. Load lapi ifaces up um dl dm k = (Inl (Wrapped (''attach XDP to '' @ up) e), k')
    \<and> runs (view k') index pr
    \<and> (\<forall>(p, m) \<in> set (pin_list ob). VPins (view k') p = Some (MapObj m) \<and> VPins (view k) p \<noteq> Some (MapObj m))"
proof -
  obtain k2 where m: "MkdirAll lapi PinDir k1 = (None, k2)"
    using fs by (metis bpffs_works_def prod.collapse)
  obtain k3 where p: "pin_maps lapi (pin_list ob) k2 = (None, k3)" using pin_maps_works [OF fs] by blast
  note ob = load_objects(1) [OF l]
  have v1: "view k1 = (view k)\<lparr>VEntries := VEntries (view k1)\<rparr>" using ob by simp
  have v2: "view k2 = view k1" using mkdir [of PinDir k1] m by simp
  have v3: "view k3 = (view k1)\<lparr>VPins := fold (\<lambda>(p, m) P. P(p \<mapsto> MapObj m)) (pin_list ob) (VPins (view k))\<rparr>"
    using pin_maps_view [OF p] arg_cong [OF v1, of VPins] v2 by simp
  obtain x where x: "alive (view k) x" "VTarget (view k) x = Some (index, pr)"
    using r by (auto simp: runs_def)
  have o3: "VOpen (view k3) = VOpen (view k)" "VTarget (view k3) = VTarget (view k)"
    using arg_cong [OF v1, of VOpen] arg_cong [OF v1, of VTarget] by (simp_all add: v3)
  have p3: "VPins (view k3) p = VPins (view k) p" if "p \<notin> fst ` set (pin_list ob)" for p
    using fold_pins_other [OF that] by (simp add: v3)
  have "alive (view k3) x"
    using x(1) np p3 unfolding alive_def o3 by metis
  moreover have "VTarget (view k3) x = Some (index, pr)" using x(2) o3 by simp
  ultimately have r3: "runs (view k3) index pr" by (auto simp: runs_def)
  obtain q k4 where a: "AttachXDP lapi (XdpGtpRouter ob) index um k3 = (q, k4)" by fastforce
  with attach(1) [of "XdpGtpRouter ob" index um k3 _ k4] r3 obtain e where q: "q = Inl e" by (cases q) auto
  then have v4: "view k4 = view k3" using a attach(2) by blast
  have "VPins (view k3) p = Some (MapObj m) \<and> VPins (view k) p \<noteq> Some (MapObj m)"
    if pm: "(p, m) \<in> set (pin_list ob)" for p m
  proof -
    have "m \<in> object_fds ob" using pm by (auto simp: pin_list_def object_fds_def)
    moreover have "distinct (map fst (pin_list ob))" by (simp add: pin_list_def pin_defs)
    ultimately show ?thesis using ob fold_pins_self [OF pm] by (auto simp: v3 fresh_objs_def)
  qed
  with r3 v4 i l m p a q show ?thesis by (auto simp: Load_def load_uplink_def)
qed

section \<open>Unload\<close>

lemma close_pinned_view:
  obtains A where "view (close_pinned lapi p k) = (view k)\<lparr>VOpen := A\<rparr>" and "\<And>l. A l \<Longrightarrow> VOpen (view k) l"
proof (cases "LoadPinnedLink lapi p k")
  case (Pair r k')
  show thesis
  proof (cases r)
    case (Inl e)
    with Pair load_link(2) [of p k e k'] show thesis by (intro that [of "VOpen (view k)"]) (simp_all add: close_pinned_def)
  next
    case (Inr l)
    with Pair load_link(1) [of p k l k'] show thesis
      by (intro that [of "(VOpen (view k))(l := False)"]) (auto simp: close_pinned_def link_close split: if_splits)
  qed
qed

lemma remove_all_view:
  assumes "bpffs_works lapi view"
  shows "view (fold (\<lambda>p k. snd (RemovePath lapi p k)) ps k) =
    (view k)\<lparr>VPins := (\<lambda>p. if p \<in> set ps then None else VPins (view k) p)\<rparr>"
  by (induction ps arbitrary: k) (auto simp: remove_works [OF assms] fun_eq_iff intro!: sysview.equality)

lemma unload_view:
  assumes fs: "bpffs_works lapi view" and "Unload lapi ifaces name k = (Inr (), k')"
    and "\<And>l. \<not> VOpen (view k) l"
    and "\<And>p l. VPins (view k) p = Some (LinkObj l) \<Longrightarrow> p \<in> {PinProg, PinProgDownlink}"
  shows "\<forall>p \<in> set unload_paths. VPins (view k') p = None" and "\<not> runs (view k') i pr"
proof -
  obtain A where a: "view (close_pinned lapi PinProg k) = (view k)\<lparr>VOpen := A\<rparr>" "\<And>l. A l \<Longrightarrow> VOpen (view k) l"
    by (rule close_pinned_view [of PinProg k]) blast
  obtain B where b: "view (close_pinned lapi PinProgDownlink (close_pinned lapi PinProg k)) = (view k)\<lparr>VOpen := B\<rparr>"
    "\<And>l. B l \<Longrightarrow> A l"
    by (rule close_pinned_view [of PinProgDownlink "close_pinned lapi PinProg k"]) (simp add: a)
  have k': "view k' = (view k)\<lparr>VOpen := B, VPins := (\<lambda>p. if p \<in> set unload_paths then None else VPins (view k) p)\<rparr>"
    using assms(2) b(1) by (auto simp: Unload_def remove_all_view [OF fs] split: sum.splits cong: if_cong)
  then show "\<forall>p \<in> set unload_paths. VPins (view k') p = None" by simp
  have "{PinProg, PinProgDownlink} \<subseteq> set unload_paths" by (simp add: unload_paths_def)
  then have "\<not> alive (view k') l" for l
    using a(2) b(2) assms(3,4) unfolding alive_def k' by (auto split: if_splits) blast
  then show "\<not> runs (view k') i pr" by (simp add: runs_def)
qed

end

section \<open>The maps of a program\<close>

text \<open>
  A loaded program refers to the kernel's maps under the names they have in the object file; these
  references are fixed when it is loaded: \<open>uses pr name\<close>. \<open>LoadAndAssign\<close> gives each tagged field the map
  the new program uses under that tag, and the maps it creates are not those of a program in use.
\<close>

locale bpf_program = bpf_system lapi view
  for lapi :: "'k loader_api" and view :: "'k \<Rightarrow> sysview" +
  fixes uses :: "prog_fd \<Rightarrow> string \<Rightarrow> map_fd option"
  assumes load_uses: "LoadAndAssign lapi spec k = (Inr ob, k') \<Longrightarrow> (tag, sel) \<in> set GtpXdpMaps_tags \<Longrightarrow>
      uses (XdpGtpRouter ob) tag = Some (sel ob)"
    and load_fresh: "LoadAndAssign lapi spec k = (Inr ob, k') \<Longrightarrow> VTarget (view k) l = Some (i, pr) \<Longrightarrow>
      uses pr tag = Some m \<Longrightarrow> m \<notin> object_fds ob"
begin

lemma loaded_uses:
  assumes "LoadGtpXdpObjects lapi k = (Inr ob, k')"
  shows "(tag, sel) \<in> set GtpXdpMaps_tags \<Longrightarrow> uses (XdpGtpRouter ob) tag = Some (sel ob)"
    and "runs (view k) i pr \<Longrightarrow> m \<in> object_fds ob \<Longrightarrow> uses pr tag \<noteq> Some m"
  using assms load_uses load_fresh unfolding runs_def
  by (auto simp: LoadGtpXdpObjects_def split: sum.splits)

end

section \<open>The commands under the laws\<close>

lemma load_RunE_Inr:
  assumes "load_RunE lapi ifaces up mode dl dlmode k = (Inr (), k')"
  obtains um dm l k1 where "Load lapi ifaces up um dl dm k = (Inr l, k1)" and "k' = Loader_Close lapi l k1"
  using assms by (auto simp: load_RunE_def split: if_splits sum.splits prod.splits)

lemma load_RunE_Inl:
  assumes "load_RunE lapi ifaces up mode dl dlmode k = (Inl e, k')"
  shows "k' = k \<or> (\<exists>um dm e. Load lapi ifaces up um dl dm k = (Inl e, k'))"
  using assms by (auto simp: load_RunE_def split: if_splits sum.splits prod.splits)

context bpf_system
begin

lemma load_RunE_provides:
  assumes "bpffs_works lapi view" and "load_RunE lapi ifaces up mode dl dlmode k = (Inr (), k')"
  shows "\<exists>index ob k1. ifaces up = Inr index \<and> provided (view k') ob index
    \<and> LoadGtpXdpObjects lapi k = (Inr ob, k1)
    \<and> (\<exists>is. VEntries (view k') = port_cells ob is (VEntries (view k1))
        \<and> (dl = [] \<and> is = [index] \<or> dl \<noteq> [] \<and> (\<exists>j. ifaces dl = Inr j \<and> is = [index, j])))
    \<and> (dl \<noteq> [] \<longrightarrow> (\<exists>j. ifaces dl = Inr j \<and> provided (view k') ob j))
    \<and> (\<forall>(p, m) \<in> set (pin_list ob). VPins (view k') p = Some (MapObj m))"
proof -
  obtain um dm l k1 where l: "Load lapi ifaces up um dl dm k = (Inr l, k1)" "k' = Loader_Close lapi l k1"
    using assms(2) by (rule load_RunE_Inr)
  show ?thesis by (rule load_provides [OF assms(1) l(1)]) (use l(2) in blast)
qed

end

section \<open>A reference system\<close>

text \<open>
  The BPF file system as an association list of paths, the links with their interface and program,
  the open link handles, and the tables of \<open>ref_api\<close>; the program \<open>n\<close> uses the maps \<open>n\<close> to \<open>n + 4\<close>. With \<open>pinnable = False\<close> pinning a link fails,
  as it does for links the kernel cannot pin.
\<close>

record ref_sys =
  RPins :: "(string \<times> pinned_object) list"
  RLinks :: "(link_id \<times> int \<times> prog_fd) list"
  ROpen :: "link_id list"
  RKern :: ref_kernel

definition ref_view :: "ref_sys \<Rightarrow> sysview" where
  "ref_view k = \<lparr>VPins = map_of (RPins k), VTarget = map_of (RLinks k),
     VOpen = (\<lambda>l. l \<in> set (ROpen k)), VEntries = ref_entries (RKern k)\<rparr>"

fun object_id :: "pinned_object \<Rightarrow> nat" where
  "object_id (MapObj m) = m"
| "object_id (LinkObj l) = l"

definition used_ids :: "ref_sys \<Rightarrow> nat list" where
  "used_ids k = map (object_id \<circ> snd) (RPins k) @ map fst (RLinks k) @ map (snd \<circ> snd) (RLinks k) @ ROpen k"

definition fresh_id :: "ref_sys \<Rightarrow> nat" where
  "fresh_id k = sum_list (used_ids k) + 5"

definition lift_kern :: "(ref_kernel \<Rightarrow> 'r \<times> ref_kernel) \<Rightarrow> ref_sys \<Rightarrow> 'r \<times> ref_sys" where
  "lift_kern f k = (case f (RKern k) of (r, x) \<Rightarrow> (r, k\<lparr>RKern := x\<rparr>))"

definition ref_maps :: "ref_sys bpf_api" where
  "ref_maps =
     \<lparr>LoadPinnedMap = (\<lambda>p k. case map_of (RPins k) p of
                          Some (MapObj m) \<Rightarrow> Inr m
                        | _ \<Rightarrow> Inl (External ''no such file or directory'')),
      MapPut = (\<lambda>m x v. lift_kern (ref_put m x v)),
      MapDelete = (\<lambda>m x. lift_kern (ref_delete m x)),
      MapLookup = (\<lambda>m x k. MapLookup ref_api m x (RKern k)),
      MapIterate = (\<lambda>m k. MapIterate ref_api m (RKern k)),
      MapClose = (\<lambda>m k. k)\<rparr>"

definition busy :: "ref_sys \<Rightarrow> int \<Rightarrow> bool" where
  "busy k i \<longleftrightarrow> (\<exists>(l, j, pr) \<in> set (RLinks k). j = i \<and> (l \<in> set (ROpen k) \<or> LinkObj l \<in> snd ` set (RPins k)))"

definition ref_load :: "ref_sys \<Rightarrow> (go_error + objs) \<times> ref_sys" where
  "ref_load k =
     (let n = fresh_id k;
          hash = \<lambda>size. \<lparr>Kind = HashOfRules, MaxEntries = size, Cells = Map.empty\<rparr>
      in (Inr \<lparr>XdpGtpRouter = n, NatFd = n, StatsFd = n + 1, TeidFd = n + 2, TxFd = n + 3, UeipFd = n + 4\<rparr>,
          k\<lparr>RKern := (RKern k)\<lparr>Tables := (Tables (RKern k))
            (n := hash 256,
             n + 1 := \<lparr>Kind = PercpuArray, MaxEntries = 4, Cells = Map.empty\<rparr>,
             n + 2 := hash 65536,
             n + 3 := \<lparr>Kind = DevMap, MaxEntries = 256, Cells = Map.empty\<rparr>,
             n + 4 := hash 65536)\<rparr>\<rparr>))"

definition add_pin :: "pinned_object \<Rightarrow> string \<Rightarrow> ref_sys \<Rightarrow> go_error option \<times> ref_sys" where
  "add_pin x p k =
     (if map_of (RPins k) p = None then (None, k\<lparr>RPins := (p, x) # RPins k\<rparr>)
      else (Some (External ''file exists''), k))"

definition ref_loader :: "bool \<Rightarrow> ref_sys loader_api" where
  "ref_loader pinnable =
     \<lparr>Maps = ref_maps,
      GtpXdpBytes = [], LoadCollectionSpecFromReader = (\<lambda>b. Inr 0),
      LoadAndAssign = (\<lambda>spec. ref_load),
      ProgClose = (\<lambda>pr k. (None, k)),
      MapFdClose = (\<lambda>m k. (None, k)),
      MkdirAll = (\<lambda>d k. (None, k)),
      RemovePath = (\<lambda>p k. if map_of (RPins k) p = None
                        then (Some (External ''no such file or directory''), k)
                        else (None, k\<lparr>RPins := AList.delete p (RPins k)\<rparr>)),
      PinMap = (\<lambda>m. add_pin (MapObj m)),
      AttachXDP = (\<lambda>pr i fl k.
        if busy k i then (Inl (External ''device or resource busy''), k)
        else (Inr (fresh_id k), k\<lparr>RLinks := (fresh_id k, i, pr) # RLinks k, ROpen := fresh_id k # ROpen k\<rparr>)),
      LinkPin = (\<lambda>l p k. if pinnable then add_pin (LinkObj l) p k
                        else (Some (External ''operation not supported''), k)),
      LinkUnpin = (\<lambda>l k. (None, k\<lparr>RPins := AList.restrict {p. map_of (RPins k) p \<noteq> Some (LinkObj l)} (RPins k)\<rparr>)),
      LinkClose = (\<lambda>l k. (None, k\<lparr>ROpen := removeAll l (ROpen k)\<rparr>)),
      LoadPinnedLink = (\<lambda>p k. case map_of (RPins k) p of
                          Some (LinkObj l) \<Rightarrow> (Inr l, k\<lparr>ROpen := l # ROpen k\<rparr>)
                        | _ \<Rightarrow> (Inl (External ''no such file or directory''), k))\<rparr>"

lemma used_less: "x \<in> set (used_ids k) \<Longrightarrow> x < fresh_id k"
  using member_le_sum_list [of x "used_ids k"] by (simp add: fresh_id_def)

lemma used_pins: "map_of (RPins k) p = Some x \<Longrightarrow> object_id x < fresh_id k"
  by (drule map_of_SomeD, rule used_less) (force simp: used_ids_def)

lemma used_links:
  "map_of (RLinks k) l = Some (i, pr) \<Longrightarrow> l < fresh_id k \<and> pr < fresh_id k"
  by (drule map_of_SomeD, intro conjI used_less) (force simp: used_ids_def)+

lemma used_open: "l \<in> set (ROpen k) \<Longrightarrow> l < fresh_id k"
  by (rule used_less) (simp add: used_ids_def)

lemma not_busy: "\<not> busy k i \<Longrightarrow> \<not> runs (ref_view k) i pr"
proof
  assume "\<not> busy k i" and "runs (ref_view k) i pr"
  then obtain l where l: "(l, i, pr) \<in> set (RLinks k)" "alive (ref_view k) l"
    by (auto simp: runs_def ref_view_def dest: map_of_SomeD)
  from l(2) have "l \<in> set (ROpen k) \<or> LinkObj l \<in> snd ` set (RPins k)"
    by (auto simp: alive_def ref_view_def dest!: map_of_SomeD intro: rev_image_eqI)
  with l(1) \<open>\<not> busy k i\<close> show False unfolding busy_def by blast
qed

lemma fresh_not_alive: "\<not> alive (ref_view k) (fresh_id k)"
  using used_open [of "fresh_id k" k] used_pins [of k _ "LinkObj (fresh_id k)"]
  by (auto simp: alive_def ref_view_def)

lemma ref_load_ob:
  "ref_load k = (Inr ob, k') \<Longrightarrow> ob = \<lparr>XdpGtpRouter = fresh_id k, NatFd = fresh_id k, StatsFd = fresh_id k + 1,
     TeidFd = fresh_id k + 2, TxFd = fresh_id k + 3, UeipFd = fresh_id k + 4\<rparr>"
  by (simp add: ref_load_def Let_def)

lemma ref_load_fresh: "ref_load k = (Inr ob, k') \<Longrightarrow> fresh_objs (ref_view k) ob"
proof -
  assume "ref_load k = (Inr ob, k')"
  note ob = ref_load_ob [OF this]
  have "m < fresh_id k" if "map_of (RPins k) p = Some (MapObj m)" for p m
    using used_pins [OF that] by simp
  moreover have "m \<in> object_fds ob \<Longrightarrow> fresh_id k \<le> m" for m by (auto simp: ob object_fds_def)
  ultimately have "m \<notin> object_fds ob" if "map_of (RPins k) p = Some (MapObj m)" for p m
    using that by fastforce
  moreover have "map_of (RLinks k) l \<noteq> Some (i, fresh_id k)" for l i
    using used_links [of k l i "fresh_id k"] by auto
  ultimately show ?thesis by (simp add: fresh_objs_def ref_view_def ob)
qed

lemma ref_view_simps [simp]:
  "VPins (ref_view k) = map_of (RPins k)" "VTarget (ref_view k) = map_of (RLinks k)"
  "VOpen (ref_view k) = (\<lambda>l. l \<in> set (ROpen k))" "VEntries (ref_view k) = ref_entries (RKern k)"
  by (simp_all add: ref_view_def)

lemma ref_maps_simps [simp]:
  "Maps (ref_loader b) = ref_maps"
  "MapPut ref_maps m x v = lift_kern (ref_put m x v)"
  "MapDelete ref_maps m x = lift_kern (ref_delete m x)"
  "MapLookup ref_maps m x k = MapLookup ref_api m x (RKern k)"
  "MapIterate ref_maps m k = MapIterate ref_api m (RKern k)"
  "MapClose ref_maps m k = k"
  by (simp_all add: ref_loader_def ref_maps_def)

lemma lift_kern_eq:
  "lift_kern f k = (r, k') \<longleftrightarrow> f (RKern k) = (r, RKern k') \<and> k' = k\<lparr>RKern := RKern k'\<rparr>"
  by (cases "f (RKern k)") (auto simp: lift_kern_def)

lemma ref_kern_ops [simp]:
  "ref_put m x v = MapPut ref_api m x v" "ref_delete m x = MapDelete ref_api m x"
  by (simp_all add: ref_api_def)

lemma ref_maps_laws: "bpf_maps ref_maps (\<lambda>k. map_pins (ref_view k)) (\<lambda>k. VEntries (ref_view k))"
proof (unfold_locales, goal_cases)
  case (1 p k m)
  then show ?case by (auto simp: ref_maps_def map_pins_def split: option.splits pinned_object.splits)
next
  case (2 m x v k k')
  then have f: "MapPut ref_api m x v (RKern k) = (None, RKern k')" "k' = k\<lparr>RKern := RKern k'\<rparr>"
    by (simp_all add: lift_kern_eq)
  have "RPins k' = RPins k" using arg_cong [OF f(2), of RPins] by simp
  with ref.put_ok [OF f(1)] show ?case by (simp add: map_pins_def [abs_def])
next
  case (3 m x v k e k')
  then have f: "MapPut ref_api m x v (RKern k) = (Some e, RKern k')" "k' = k\<lparr>RKern := RKern k'\<rparr>"
    by (simp_all add: lift_kern_eq)
  have "RPins k' = RPins k" using arg_cong [OF f(2), of RPins] by simp
  with ref.put_err [OF f(1)] show ?case by (simp add: map_pins_def [abs_def])
next
  case (4 m x k k')
  then have f: "MapDelete ref_api m x (RKern k) = (None, RKern k')" "k' = k\<lparr>RKern := RKern k'\<rparr>"
    by (simp_all add: lift_kern_eq)
  have "RPins k' = RPins k" using arg_cong [OF f(2), of RPins] by simp
  with ref.delete_ok [OF f(1)] show ?case by (simp add: map_pins_def [abs_def])
next
  case (5 m x k e k')
  then have f: "MapDelete ref_api m x (RKern k) = (Some e, RKern k')" "k' = k\<lparr>RKern := RKern k'\<rparr>"
    by (simp_all add: lift_kern_eq)
  have "RPins k' = RPins k" using arg_cong [OF f(2), of RPins] by simp
  with ref.delete_err [OF f(1)] show ?case by (simp add: map_pins_def [abs_def])
next
  case (6 k m x v)
  then show ?case using ref.lookup_present by simp
next
  case (7 k m x)
  then show ?case using ref.lookup_absent by simp
next
  case (8 m k xs)
  then show ?case using ref.iterate_ok by simp
next
  case (9 m k)
  then show ?case by simp
qed

lemma add_pin_eq:
  "add_pin x p k = (None, k') \<longleftrightarrow> map_of (RPins k) p = None \<and> k' = k\<lparr>RPins := (p, x) # RPins k\<rparr>"
  "add_pin x p k = (Some e, k') \<Longrightarrow> k' = k"
  by (auto simp: add_pin_def split: if_splits)

lemma ref_load_view:
  assumes "ref_load k = (Inr ob, k')"
  shows "RPins k' = RPins k" "RLinks k' = RLinks k" "ROpen k' = ROpen k"
    "\<forall>m. m \<notin> object_fds ob \<longrightarrow> ref_entries (RKern k') m = ref_entries (RKern k) m"
  using assms by (auto simp: ref_load_def Let_def object_fds_def ref_entries_def)

interpretation rs: bpf_system "ref_loader pinnable" ref_view for pinnable
proof (unfold_locales, goal_cases)
  case (10 m x v k r k')
  then have f: "k' = k\<lparr>RKern := RKern k'\<rparr>" by (simp add: lift_kern_eq)
  show ?case using arg_cong [OF f, of RPins] arg_cong [OF f, of RLinks] arg_cong [OF f, of ROpen]
    by (simp add: ref_view_def)
next
  case (11 spec k ob k')
  then have l: "ref_load k = (Inr ob, k')" by (simp add: ref_loader_def)
  show ?case using ref_load_fresh [OF l] ref_load_view [OF l] by (simp add: ref_view_def)
next
  case (12 spec k e k')
  then show ?case by (simp add: ref_loader_def ref_load_def Let_def)
next
  case (16 p k k')
  then show ?case by (auto simp: ref_loader_def ref_view_def delete_conv' split: if_splits)
next
  case (18 m p k k')
  then show ?case by (auto simp: ref_loader_def ref_view_def add_pin_eq)
next
  case (20 pr i fl k l k')
  then show ?case
    using not_busy [of k i] fresh_not_alive [of k]
    by (auto simp: ref_loader_def ref_view_def fun_eq_iff split: if_splits)
next
  case (22 l p k k')
  then show ?case by (auto simp: ref_loader_def ref_view_def add_pin_eq split: if_splits)
next
  case (24 l k k')
  then show ?case by (auto simp: ref_loader_def ref_view_def restr_conv restrict_map_def fun_eq_iff)
next
  case (26 l k)
  then show ?case by (auto simp: ref_loader_def ref_view_def fun_eq_iff)
next
  case (27 p k l k')
  then show ?case
    by (auto simp: ref_loader_def ref_view_def fun_eq_iff split: option.splits pinned_object.splits)
next
  case (28 p k e k')
  then show ?case by (auto simp: ref_loader_def split: option.splits pinned_object.splits)
qed (use bpf_maps.load_pinned [OF ref_maps_laws] bpf_maps.put_ok [OF ref_maps_laws]
    bpf_maps.put_err [OF ref_maps_laws] bpf_maps.delete_ok [OF ref_maps_laws]
    bpf_maps.delete_err [OF ref_maps_laws] bpf_maps.lookup_present [OF ref_maps_laws]
    bpf_maps.lookup_absent [OF ref_maps_laws] bpf_maps.iterate_ok [OF ref_maps_laws]
    bpf_maps.close_map [OF ref_maps_laws]
    in \<open>auto simp: ref_loader_def dest: add_pin_eq(2) split: if_splits\<close>)

definition ref_uses :: "prog_fd \<Rightarrow> string \<Rightarrow> map_fd option" where
  "ref_uses pr name = map_of [(''nat_map'', pr), (''stats_map'', pr + 1), (''teid_map'', pr + 2),
     (''tx_port'', pr + 3), (''ueip_map'', pr + 4)] name"

lemma ref_uses_tags:
  "ref_load k = (Inr ob, k') \<Longrightarrow> \<forall>(tag, sel) \<in> set GtpXdpMaps_tags. ref_uses (XdpGtpRouter ob) tag = Some (sel ob)"
  by (drule ref_load_ob) (simp add: GtpXdpMaps_tags_def ref_uses_def)

lemma ref_uses_less: "VTarget (ref_view k) l = Some (i, pr) \<Longrightarrow> ref_uses pr tag = Some m \<Longrightarrow> m < fresh_id k"
proof -
  assume "VTarget (ref_view k) l = Some (i, pr)"
  then have "(l, i, pr) \<in> set (RLinks k)" by (simp add: map_of_SomeD)
  then have "pr \<in> set (used_ids k)" by (force simp: used_ids_def)
  then have "pr + 4 < fresh_id k" using member_le_sum_list [of pr "used_ids k"] by (simp add: fresh_id_def)
  moreover assume "ref_uses pr tag = Some m"
  then have "m \<le> pr + 4" by (auto simp: ref_uses_def split: if_splits)
  ultimately show "m < fresh_id k" by simp
qed

interpretation rp: bpf_program "ref_loader pinnable" ref_view ref_uses for pinnable
proof (unfold_locales, goal_cases)
  case (1 spec k ob k' tag sel)
  then have "ref_load k = (Inr ob, k')" by (simp add: ref_loader_def)
  from ref_uses_tags [OF this] 1(2) show ?case by blast
next
  case (2 spec k ob k' l i pr tag m)
  then have "ref_load k = (Inr ob, k')" by (simp add: ref_loader_def)
  from ref_load_ob [OF this] ref_uses_less [OF 2(2,3)] show ?case by (simp add: object_fds_def)
qed

lemma ref_bpffs_works: "bpffs_works (ref_loader True) ref_view"
  by (auto simp: bpffs_works_def ref_loader_def add_pin_def)

section \<open>Concrete runs\<close>

definition empty_sys :: ref_sys where
  "empty_sys = \<lparr>RPins = [], RLinks = [], ROpen = [],
     RKern = \<lparr>Pins = Map.empty, Tables = (\<lambda>_. \<lparr>Kind = HashOfRules, MaxEntries = 0, Cells = Map.empty\<rparr>)\<rparr>\<rparr>"

lemmas load_eval = load_RunE_def parseMode_def Load_def load_uplink_def load_downlink_def pin_list_def
  ensure_port_def TxPortMap_Ensure_def replace_pin_def LoadGtpXdpObjects_def LoadGtpXdp_def ref_loader_def ref_load_def ref_maps_def add_pin_def
  busy_def fresh_id_def used_ids_def lift_kern_def empty_sys_def lab_ifaces_def pin_defs PinDir_def
  Let_def ref_put_def fits_def has_room_def set_cell_def

lemma lab_load:
  "\<exists>k'. load_RunE (ref_loader True) lab_ifaces ''veth-ran'' ''native'' ''eth0'' ''generic'' empty_sys = (Inr (), k')"
  by (simp add: load_eval del: ref_kern_ops ref_maps_simps)

lemma lab_load_unpinned:
  "\<exists>k'. load_RunE (ref_loader False) lab_ifaces ''veth-ran'' ''native'' ''eth0'' ''generic'' empty_sys = (Inr (), k')"
  by (simp add: load_eval del: ref_kern_ops ref_maps_simps)

lemma lab_load_fails:
  "\<exists>e k'. load_RunE (ref_loader True) lab_ifaces ''veth-ran'' ''native'' ''veth-high'' ''generic'' empty_sys = (Inl e, k')"
  by (simp add: load_eval del: ref_kern_ops ref_maps_simps)

section \<open>Properties\<close>

text \<open>C21: \<open>gtp-ctrl load\<close> that reports success on a working BPF file system leaves, after the process
  has closed its handles, one program running on the uplink (and on the downlink when one is named);
  behind each pin is the map that this program uses under the name of the pin, and its devmap has the
  entries of the two interfaces.\<close>
theorem load_installs:
  assumes "bpf_program lapi view uses" and "bpffs_works lapi view"
    and "load_RunE lapi ifaces up mode dl dlmode k = (Inr (), k')"
  shows "\<exists>index pr tx. ifaces up = Inr index \<and> runs (view k') index pr
    \<and> (dl \<noteq> [] \<longrightarrow> (\<exists>j. ifaces dl = Inr j \<and> runs (view k') j pr
        \<and> VEntries (view k') tx (word_of_int j) = Some (PortV (word_of_int j))))
    \<and> uses pr ''tx_port'' = Some tx \<and> VEntries (view k') tx (word_of_int index) = Some (PortV (word_of_int index))
    \<and> (\<forall>(pin, name) \<in> {(PinTeidMap, ''teid_map''), (PinUeipMap, ''ueip_map''), (PinNatMap, ''nat_map''),
          (PinStatsMap, ''stats_map''), (PinTxPort, ''tx_port'')}.
        \<exists>m. uses pr name = Some m \<and> map_pins (view k') pin = Some m)"
proof -
  obtain index ob k1 where o: "ifaces up = Inr index" "provided (view k') ob index"
    "LoadGtpXdpObjects lapi k = (Inr ob, k1)"
    "dl \<noteq> [] \<longrightarrow> (\<exists>j. ifaces dl = Inr j \<and> provided (view k') ob j)"
    "\<forall>(p, m) \<in> set (pin_list ob). VPins (view k') p = Some (MapObj m)"
    using bpf_system.load_RunE_provides [OF bpf_program.axioms(1) [OF assms(1)] assms(2,3)] by blast
  have u: "uses (XdpGtpRouter ob) tag = Some (sel ob)" if "(tag, sel) \<in> set GtpXdpMaps_tags" for tag sel
    by (rule bpf_program.loaded_uses(1) [OF assms(1) o(3) that])
  show ?thesis
    by (rule exI [of _ index], rule exI [of _ "XdpGtpRouter ob"], rule exI [of _ "TxFd ob"])
      (use o u in \<open>auto simp: provided_def map_pins_Some pin_list_def GtpXdpMaps_tags_def\<close>)
qed

lemma load_installs_witness:
  "\<exists>k' pr. load_RunE (ref_loader True) lab_ifaces ''veth-ran'' ''native'' ''eth0'' ''generic'' empty_sys = (Inr (), k')
     \<and> runs (ref_view k') 5 pr \<and> runs (ref_view k') 2 pr
     \<and> map_pins (ref_view k') PinTeidMap = ref_uses pr ''teid_map''"
proof -
  obtain k' where r: "load_RunE (ref_loader True) lab_ifaces ''veth-ran'' ''native'' ''eth0'' ''generic'' empty_sys = (Inr (), k')"
    using lab_load by blast
  then show ?thesis
    using load_installs [OF rp.bpf_program_axioms ref_bpffs_works r] by (auto simp: lab_ifaces_def)
qed

text \<open>C22: a \<open>gtp-ctrl load\<close> that fails, at whatever step, leaves no program attached that was not
  attached before, provided unpinning a link succeeds: no failure path leaks a pinned link.\<close>
theorem failed_load_leaks_nothing:
  assumes "bpf_system lapi view" and "\<forall>l k. fst (LinkUnpin lapi l k) = None"
    and "load_RunE lapi ifaces up mode dl dlmode k = (Inl e, k')" and "runs (view k') i pr"
  shows "runs (view k) i pr"
  using load_RunE_Inl [OF assms(3)] assms(4)
    bpf_system.load_sheds [OF assms(1), of ifaces up _ dl _ k _ k'] assms(2) sheds_runs by blast

lemma failed_load_leaks_nothing_witness:
  "\<exists>e k'. load_RunE (ref_loader True) lab_ifaces ''veth-ran'' ''native'' ''veth-high'' ''generic'' empty_sys = (Inl e, k')
     \<and> (\<forall>i pr. \<not> runs (ref_view k') i pr)"
proof -
  obtain e k' where r: "load_RunE (ref_loader True) lab_ifaces ''veth-ran'' ''native'' ''veth-high'' ''generic'' empty_sys = (Inl e, k')"
    using lab_load_fails by blast
  have u: "\<forall>l k. fst (LinkUnpin (ref_loader True) l k) = None" by (simp add: ref_loader_def)
  have "\<not> runs (ref_view empty_sys) i pr" for i pr by (simp add: runs_def empty_sys_def)
  with r failed_load_leaks_nothing [OF rs.bpf_system_axioms u r] show ?thesis by blast
qed

text \<open>C33: when the file system works and the new objects load, loading again on an interface a program already
  runs on fails at the attachment; the running program stays, but by then each of the five map pins
  refers to a new map, one that the running program does not use: from then on the rule commands write
  where no packet is looked up, and the counters they read are not those of the running program.\<close>
theorem busy_load_orphans_maps:
  assumes "bpf_program lapi view uses" and "bpffs_works lapi view" and "ifaces up = Inr index"
    and "runs (view k) index pr" and "LoadGtpXdpObjects lapi k = (Inr ob, k1)"
    and "\<forall>p \<in> {PinTeidMap, PinUeipMap, PinNatMap, PinStatsMap, PinTxPort}. \<forall>l. VPins (view k) p \<noteq> Some (LinkObj l)"
  shows "\<exists>e k'. Load lapi ifaces up um dl dm k = (Inl (Wrapped (''attach XDP to '' @ up) e), k')
    \<and> runs (view k') index pr
    \<and> (\<forall>(pin, m) \<in> {(PinTeidMap, TeidFd ob), (PinUeipMap, UeipFd ob), (PinNatMap, NatFd ob),
          (PinStatsMap, StatsFd ob), (PinTxPort, TxFd ob)}.
        map_pins (view k') pin = Some m \<and> map_pins (view k) pin \<noteq> Some m \<and> (\<forall>name. uses pr name \<noteq> Some m))"
proof -
  have "VPins (view k) p \<noteq> Some (LinkObj l)" if "p \<in> fst ` set (pin_list ob)" for p l
    using assms(6) that by (auto simp: pin_list_def)
  from bpf_system.busy_load [where lapi = lapi and view = view and ifaces = ifaces and up = up and index = index and k = k and pr = pr,
      OF bpf_program.axioms(1) [OF assms(1)] assms(2,3,5,4) this, of um dl dm]
  obtain e k' where l: "Load lapi ifaces up um dl dm k = (Inl (Wrapped (''attach XDP to '' @ up) e), k')"
    "runs (view k') index pr"
    and m: "\<forall>(p, m) \<in> set (pin_list ob). map_pins (view k') p = Some m \<and> map_pins (view k) p \<noteq> Some m"
    unfolding map_pins_Some by blast
  have "uses pr name \<noteq> Some m" if "m \<in> object_fds ob" for name m
    using bpf_program.loaded_uses(2) [OF assms(1,5,4) that] by simp
  with l m show ?thesis
    by (intro exI [of _ e] exI [of _ k']) (simp add: pin_list_def object_fds_def)
qed

lemma busy_load_orphans_maps_witness:
  "\<exists>k ob. runs (ref_view k) 5 1 \<and> fst (ref_load k) = Inr ob
     \<and> (\<exists>e k'. Load (ref_loader True) lab_ifaces ''veth-ran'' XDPDriverMode [] XDPNoFlags k = (Inl e, k')
       \<and> runs (ref_view k') 5 1 \<and> map_pins (ref_view k') PinTeidMap = Some (TeidFd ob)
       \<and> ref_uses 1 ''teid_map'' \<noteq> Some (TeidFd ob))"
proof -
  let ?k = "empty_sys\<lparr>RPins := [(PinProg, LinkObj 1)], RLinks := [(1, 5, 1)]\<rparr>"
  obtain ob k1 where l: "LoadGtpXdpObjects (ref_loader True) ?k = (Inr ob, k1)"
    by (simp add: LoadGtpXdpObjects_def LoadGtpXdp_def ref_loader_def ref_load_def Let_def)
  have r: "runs (ref_view ?k) 5 1" by (auto simp: runs_def alive_def)
  have i: "lab_ifaces ''veth-ran'' = Inr 5" by (simp add: lab_ifaces_def)
  have p: "\<forall>p \<in> {PinTeidMap, PinUeipMap, PinNatMap, PinStatsMap, PinTxPort}. \<forall>l.
      VPins (ref_view ?k) p \<noteq> Some (LinkObj l)"
    by (simp add: pin_defs)
  have "fst (ref_load ?k) = Inr ob" using l by (simp add: LoadGtpXdpObjects_def LoadGtpXdp_def ref_loader_def)
  with r busy_load_orphans_maps [where lapi = "ref_loader True" and view = ref_view and ifaces = lab_ifaces and up = "''veth-ran''" and k = ?k and index = 5 and pr = 1,
      OF rp.bpf_program_axioms ref_bpffs_works i r l p] show ?thesis by fast
qed

text \<open>C34: when no link can be pinned and every other step of a load succeeds, \<open>gtp-ctrl load\<close> reports
  success, but closing its handles on the way out detaches the program: nothing runs on the uplink,
  nor on the downlink when one is named. The warning is the only trace.\<close>
theorem unpinned_load_detaches:
  assumes "bpf_system lapi view" and "\<forall>l p k. fst (LinkPin lapi l p k) \<noteq> None"
    and "up \<noteq> []" and "parseMode mode = Inr um" and "ifaces up = Inr index"
    and "LoadGtpXdpObjects lapi k = (Inr ob, k1)" and "MkdirAll lapi PinDir k1 = (None, k2)"
    and "pin_maps lapi (pin_list ob) k2 = (None, k3)"
    and "AttachXDP lapi (XdpGtpRouter ob) index um k3 = (Inr x, k4)"
    and "ensure_port lapi ob index up (replace_pin lapi x PinProg k4) = (None, k5)"
    and "dl = [] \<or> dl \<noteq> [] \<and> parseMode dlmode = Inr dm \<and> (\<exists>j k6 xd k7. ifaces dl = Inr j
      \<and> ensure_port lapi ob j dl k5 = (None, k6) \<and> AttachXDP lapi (XdpGtpRouter ob) j dm k6 = (Inr xd, k7))"
  shows "\<exists>k'. load_RunE lapi ifaces up mode dl dlmode k = (Inr (), k')
    \<and> (\<forall>i pr. ifaces up = Inr i \<or> dl \<noteq> [] \<and> ifaces dl = Inr i \<longrightarrow> \<not> runs (view k') i pr)"
proof -
  define dlm where "dlm = (if dl = [] then XDPNoFlags else dm)"
  have "dl = [] \<or> dl \<noteq> [] \<and> (\<exists>j k6 xd k7. ifaces dl = Inr j
      \<and> ensure_port lapi ob j dl k5 = (None, k6) \<and> AttachXDP lapi (XdpGtpRouter ob) j dlm k6 = (Inr xd, k7))"
    and m: "(if dl \<noteq> [] then parseMode dlmode else Inr XDPNoFlags) = Inr dlm"
    using assms(11) by (auto simp: dlm_def)
  from bpf_system.load_unpinned [where dl = dl and dm = dlm and ifaces = ifaces and lapi = lapi and view = view, OF assms(1) _ assms(9,10) this(1)]
    assms(2)
  obtain l k' where u: "load_uplink lapi ifaces ob index up um dl dlm k3 = (Inr l, k')"
    "\<forall>i pr. i = index \<or> dl \<noteq> [] \<and> ifaces dl = Inr i \<longrightarrow> \<not> runs (view (Loader_Close lapi l k')) i pr"
    by blast
  have "load_RunE lapi ifaces up mode dl dlmode k = (Inr (), Loader_Close lapi l k')"
    using assms(3-8) u(1) m by (simp add: load_RunE_def Load_def)
  with u(2) assms(5) show ?thesis by auto
qed

lemma unpinned_load_detaches_witness:
  "\<exists>k'. load_RunE (ref_loader False) lab_ifaces ''veth-ran'' ''native'' ''eth0'' ''generic'' empty_sys = (Inr (), k')
     \<and> (\<forall>pr. \<not> runs (ref_view k') 5 pr \<and> \<not> runs (ref_view k') 2 pr)"
proof -
  let ?api = "ref_loader False"
  obtain l k' where "Load ?api lab_ifaces ''veth-ran'' XDPDriverMode ''eth0'' XDPGenericMode empty_sys = (Inr l, k')"
    using lab_load_unpinned by (auto simp: load_RunE_def parseMode_def split: sum.splits prod.splits)
  then obtain index ob k1 k2 k3 where o: "lab_ifaces ''veth-ran'' = Inr index"
    "LoadGtpXdpObjects ?api empty_sys = (Inr ob, k1)" "MkdirAll ?api PinDir k1 = (None, k2)"
    "pin_maps ?api (pin_list ob) k2 = (None, k3)"
    "load_uplink ?api lab_ifaces ob index ''veth-ran'' XDPDriverMode ''eth0'' XDPGenericMode k3 = (Inr l, k')"
    by (rule rs.load_run)
  from o(5) obtain x k4 k5 where u: "AttachXDP ?api (XdpGtpRouter ob) index XDPDriverMode k3 = (Inr x, k4)"
    "ensure_port ?api ob index ''veth-ran'' (replace_pin ?api x PinProg k4) = (None, k5)"
    "\<exists>j k6 xd k7. lab_ifaces ''eth0'' = Inr j \<and> ensure_port ?api ob j ''eth0'' k5 = (None, k6)
      \<and> AttachXDP ?api (XdpGtpRouter ob) j XDPGenericMode k6 = (Inr xd, k7)"
    by (rule rs.load_uplink_run) auto
  have m: "parseMode ''native'' = Inr XDPDriverMode" "parseMode ''generic'' = Inr XDPGenericMode"
    and p: "\<forall>l p k. fst (LinkPin ?api l p k) \<noteq> None"
    by (simp_all add: parseMode_def ref_loader_def)
  have d: "''eth0'' = [] \<or> ''eth0'' \<noteq> [] \<and> parseMode ''generic'' = Inr XDPGenericMode
      \<and> (\<exists>j k6 xd k7. lab_ifaces ''eth0'' = Inr j \<and> ensure_port ?api ob j ''eth0'' k5 = (None, k6)
        \<and> AttachXDP ?api (XdpGtpRouter ob) j XDPGenericMode k6 = (Inr xd, k7))"
    using m(2) u(3) by simp
  have "''veth-ran'' \<noteq> []" by simp
  from unpinned_load_detaches [OF rs.bpf_system_axioms p this m(1) o(1-4) u(1,2) d]
  obtain k' where "load_RunE ?api lab_ifaces ''veth-ran'' ''native'' ''eth0'' ''generic'' empty_sys = (Inr (), k')"
    "\<forall>i pr. lab_ifaces ''veth-ran'' = Inr i \<or> ''eth0'' \<noteq> [] \<and> lab_ifaces ''eth0'' = Inr i \<longrightarrow> \<not> runs (ref_view k') i pr"
    by blast
  moreover have "lab_ifaces ''veth-ran'' = Inr 5" "lab_ifaces ''eth0'' = Inr 2" by (simp_all add: lab_ifaces_def)
  ultimately show ?thesis by (intro exI [of _ k']) simp
qed

text \<open>C36: \<open>gtp-ctrl unload\<close> removes all seven pins and, when no process holds a link open, detaches the
  program from every interface, whichever existing interface it is given.\<close>
theorem unload_detaches_everything:
  assumes "bpf_system lapi view" and "bpffs_works lapi view"
    and "unload_RunE lapi ifaces name k = (Inr (), k')" and "\<forall>l. \<not> VOpen (view k) l"
    and "\<forall>p l. VPins (view k) p = Some (LinkObj l) \<longrightarrow> p \<in> {PinProg, PinProgDownlink}"
  shows "(\<forall>p \<in> set unload_paths. VPins (view k') p = None) \<and> (\<forall>i pr. \<not> runs (view k') i pr)"
proof -
  have u: "Unload lapi ifaces name k = (Inr (), k')"
    using assms(3) by (simp add: unload_RunE_def split: if_splits)
  show ?thesis using bpf_system.unload_view [OF assms(1,2) u] assms(4,5) by blast
qed

lemma unload_detaches_everything_witness:
  "\<exists>k k'. unload_RunE (ref_loader True) lab_ifaces ''eth0'' k = (Inr (), k')
     \<and> runs (ref_view k) 5 1 \<and> (\<forall>i pr. \<not> runs (ref_view k') i pr)"
proof -
  let ?k = "empty_sys\<lparr>RPins := [(PinProg, LinkObj 1)], RLinks := [(1, 5, 1)]\<rparr>"
  obtain k' where r: "unload_RunE (ref_loader True) lab_ifaces ''eth0'' ?k = (Inr (), k')"
    by (simp add: unload_RunE_def Unload_def lab_ifaces_def)
  have "\<forall>l. \<not> VOpen (ref_view ?k) l" "\<forall>p l. VPins (ref_view ?k) p = Some (LinkObj l) \<longrightarrow> p \<in> {PinProg, PinProgDownlink}"
    by (simp_all add: empty_sys_def)
  moreover have "runs (ref_view ?k) 5 1" by (auto simp: runs_def alive_def)
  ultimately show ?thesis
    using r unload_detaches_everything [OF rs.bpf_system_axioms ref_bpffs_works r] by blast
qed

end
