(* ===== verification/ListView.thy ===== *)
theory ListView
  imports CommandRuns
begin

text \<open>
  \<open>control/cmd/list.go\<close>, \<open>control/stats/stats.go\<close> and the printing of \<open>control/cmd/stats.go\<close>: what
  the operator sees of the maps. A line handed to the \<open>tabwriter\<close> is its list of cells;
  \<open>now\<close> is \<open>maps.MonotonicNowNs()\<close>. \<open>render\<close> is the shape of a line the \<open>tabwriter\<close> produces (every
  cell but the last followed by blanks up to its column's width plus the padding), and
  \<open>awk_fields\<close> the split on blanks the verification scripts apply to it.
\<close>

section \<open>Cells\<close>

definition formatRateCap :: "u32 \<Rightarrow> string" where
  "formatRateCap ratePPS = (if ratePPS = 0 then ''-'' else fmt_d (unat ratePPS) @ ''/s'')"

definition quarantineStatus :: "u64 \<Rightarrow> fwd_rule \<Rightarrow> string" where
  "quarantineStatus now r =
     (if QuarantineUntilNs r = 0 then ''-''
      else if QuarantineUntilNs r \<le> now then ''pending-release''
      else let remaining = (QuarantineUntilNs r - now) div 1000000000
           in ''YES('' @ fmt_d (unat remaining) @ ''s)'')"

definition rule_cells :: "u64 \<Rightarrow> string \<Rightarrow> fwd_rule \<Rightarrow> string list" where
  "rule_cells now key r =
     [key, ActionString (Action r), fmt_d (unat (OutIfindex r)), MACString (DMac r),
      MACString (SMac r), fmt_d (unat (PktCount r)), FormatBytes (ByteCount r),
      formatRateCap (RatePPS r), fmt_d (unat (RateDropCount r)), quarantineStatus now r]"

definition teid_cells :: "u64 \<Rightarrow> u32 \<Rightarrow> fwd_rule \<Rightarrow> string list" where
  "teid_cells now teid r = rule_cells now (''0x'' @ fmt_08X teid) r"

definition ueip_cells :: "u64 \<Rightarrow> u32 \<Rightarrow> fwd_rule \<Rightarrow> string list" where
  "ueip_cells now key r = rule_cells now (IP4_String (Uint32ToIP key)) r"

definition nat_cells :: "u32 \<Rightarrow> fwd_rule \<Rightarrow> string list" where
  "nat_cells key r =
     [IP4_String (Uint32ToIP key), IP4_String (Uint32ToIP (NatIP r)), fmt_d (unat (OutIfindex r)),
      MACString (DMac r), MACString (SMac r), ''0x'' @ fmt_08X (TeidOut r),
      fmt_d (unat (PktCount r)), FormatBytes (ByteCount r)]"

definition rule_heading :: "string \<Rightarrow> string list" where
  "rule_heading key =
     [key, ''ACTION'', ''IFINDEX'', ''DST-MAC'', ''SRC-MAC'', ''PACKETS'', ''BYTES'', ''RATE-CAP'',
      ''RATE-DROPS'', ''QUARANTINE'']"

definition nat_heading :: "string list" where
  "nat_heading =
     [''NAT-IP'', ''UE-IP'', ''IFINDEX'', ''DST-MAC'', ''SRC-MAC'', ''TEID-OUT'', ''PACKETS'', ''BYTES'']"

definition dashes :: "nat list \<Rightarrow> string list" where
  "dashes = map (\<lambda>n. replicate n CHR ''-'')"

section \<open>Sections\<close>

text \<open>The keys are sorted, so the random iteration order of a Go map does not show.\<close>

definition sorted_rows ::
  "(u32 \<Rightarrow> fwd_rule \<Rightarrow> string list) \<Rightarrow> rule_table \<Rightarrow> string list list" where
  "sorted_rows cells entries =
     map (\<lambda>key. cells key (the (map_of entries key))) (sort (map fst entries))"

definition list_section ::
  "string \<Rightarrow> string list \<Rightarrow> string list \<Rightarrow> (u32 \<Rightarrow> fwd_rule \<Rightarrow> string list) \<Rightarrow> rule_table
     \<Rightarrow> string list list" where
  "list_section name heading rule_line cells entries =
     [''=== '' @ name @ '' ('' @ fmt_d (length entries) @ '' entries) ===''] #
     (if entries \<noteq> [] then heading # rule_line # sorted_rows cells entries else [[''(empty)'']])"

definition list_RunE :: "'k bpf_api \<Rightarrow> u64 \<Rightarrow> ('k, string list list) run" where
  "list_RunE api now =
     with_map api (OpenTeidMap api) (\<lambda>tm k.
       case TeidMap_List api tm k of
         Inl e \<Rightarrow> (Inl e, k)
       | Inr teidEntries \<Rightarrow>
           with_map api (OpenUeipMap api) (\<lambda>um k.
             case UeipMap_List api um k of
               Inl e \<Rightarrow> (Inl e, k)
             | Inr ueipEntries \<Rightarrow>
                 with_map api (OpenNatMap api) (\<lambda>nm k.
                   case NatMap_List api nm k of
                     Inl e \<Rightarrow> (Inl e, k)
                   | Inr natEntries \<Rightarrow>
                       (Inr (list_section ''teid_map'' (rule_heading ''TEID'')
                               (dashes [4, 6, 7, 7, 7, 7, 5, 8, 10, 10]) (teid_cells now) teidEntries @
                             [[]] @
                             list_section ''ueip_map'' (rule_heading ''UE-IP'')
                               (dashes [5, 6, 7, 7, 7, 7, 5, 8, 10, 10]) (ueip_cells now) ueipEntries @
                             [[]] @
                             list_section ''nat_map'' nat_heading
                               (dashes [6, 5, 7, 7, 7, 8, 7, 5]) nat_cells natEntries), k)) k) k)"

section \<open>Rendering and splitting\<close>

fun render :: "nat list \<Rightarrow> string list \<Rightarrow> string" where
  "render ns [] = []"
| "render ns [c] = c"
| "render (n # ns) (c # cs) = c @ replicate n CHR '' '' @ render ns cs"
| "render [] (c # cs) = c @ render [] cs"

definition blank :: "char \<Rightarrow> bool" where
  "blank c \<longleftrightarrow> c = CHR '' ''"

lemma drop_field_shorter:
  assumes "dropWhile blank s \<noteq> []"
  shows "length (dropWhile (\<lambda>c. \<not> blank c) (dropWhile blank s)) < length s"
proof -
  obtain c t where t: "dropWhile blank s = c # t" using assms by (cases "dropWhile blank s") auto
  then have "\<not> blank c" using hd_dropWhile [OF assms] by simp
  then have "length (dropWhile (\<lambda>c. \<not> blank c) (c # t)) < length (c # t)"
    by (simp add: le_imp_less_Suc length_dropWhile_le)
  also have "length (c # t) \<le> length s" using length_dropWhile_le [of blank s] by (simp add: t)
  finally show ?thesis by (simp only: t)
qed

function awk_fields :: "string \<Rightarrow> string list" where
  "awk_fields s =
     (let t = dropWhile blank s
      in if t = [] then [] else takeWhile (\<lambda>c. \<not> blank c) t # awk_fields (dropWhile (\<lambda>c. \<not> blank c) t))"
  by pat_completeness auto
termination
  by (relation "measure length") (auto intro: drop_field_shorter)

declare awk_fields.simps [simp del]

lemma token_not_blank: "token s \<Longrightarrow> \<forall>c \<in> set s. \<not> blank c"
  by (auto simp: token_def list_all_iff visible_def blank_def code_def)

lemma awk_fields_last: "token c \<Longrightarrow> awk_fields c = [c]"
proof -
  assume c: "token c"
  then have nb: "\<forall>x \<in> set c. \<not> blank x" and ne: "c \<noteq> []"
    using token_not_blank by (auto simp: token_def)
  then have "dropWhile blank c = c" by (cases c) auto
  moreover have "takeWhile (\<lambda>x. \<not> blank x) c = c" "dropWhile (\<lambda>x. \<not> blank x) c = []"
    using nb by (auto simp: takeWhile_eq_all_conv dropWhile_eq_Nil_conv)
  moreover have "awk_fields [] = []" by (simp add: awk_fields.simps)
  ultimately show ?thesis
    using ne by (simp add: awk_fields.simps [of c] del: dropWhile_eq_Nil_conv)
qed

lemma awk_fields_blanks: "awk_fields (replicate n CHR '' '' @ s) = awk_fields s"
proof -
  have "dropWhile blank (replicate n CHR '' '' @ s) = dropWhile blank s"
    by (induction n) (simp_all add: blank_def)
  then show ?thesis by (simp add: awk_fields.simps [of "replicate n _ @ s"] awk_fields.simps [of s])
qed

lemma awk_fields_cell:
  assumes "token c" and "0 < n"
  shows "awk_fields (c @ replicate n CHR '' '' @ s) = c # awk_fields s"
proof -
  obtain m where n: "n = Suc m" using assms(2) by (cases n) auto
  have nb: "\<forall>x \<in> set c. \<not> blank x" and ne: "c \<noteq> []"
    using assms(1) token_not_blank by (auto simp: token_def)
  let ?s = "c @ replicate n CHR '' '' @ s"
  have "dropWhile blank ?s = ?s" using nb ne by (cases c) auto
  moreover have "takeWhile (\<lambda>x. \<not> blank x) ?s = c"
    using nb by (simp add: takeWhile_append n blank_def)
  moreover have "dropWhile (\<lambda>x. \<not> blank x) ?s = replicate n CHR '' '' @ s"
    using nb by (simp add: dropWhile_append n blank_def)
  ultimately show ?thesis
    using ne by (simp add: awk_fields.simps [of ?s] awk_fields_blanks del: replicate.simps)
qed

lemma awk_fields_render:
  assumes "list_all token cs" and "list_all (\<lambda>n. 0 < n) ns" and "length cs \<le> Suc (length ns)"
  shows "awk_fields (render ns cs) = cs"
  using assms
proof (induction ns cs rule: render.induct)
  case (1 ns)
  then show ?case by (simp add: awk_fields.simps)
next
  case (2 ns c)
  then show ?case by (simp add: awk_fields_last)
next
  case (3 n ns c d cs)
  then show ?case by (simp add: awk_fields_cell)
qed simp_all

section \<open>Every cell is one field\<close>

lemma visible_lits:
  "list_all visible ''0x''" "list_all visible ''/s''" "list_all visible ''YES(''"
  "list_all visible ''s)''" "list_all visible ''pending-release''"
  by (simp_all add: visible_def code_def)

lemma token_formatRateCap: "token (formatRateCap n)"
  by (auto simp: formatRateCap_def visible_lits visible_def code_def
      intro!: token_append token_fmt_d)

lemma token_quarantineStatus: "token (quarantineStatus now r)"
proof -
  have "token (''YES('' @ fmt_d n @ ''s)'')" for n
    by (intro token_append2 [OF visible_lits(3)] token_append token_fmt_d visible_lits)
  moreover have "token ''pending-release''" "token ''-''"
    using visible_lits by (simp_all add: token_def visible_def code_def)
  ultimately show ?thesis by (simp add: quarantineStatus_def Let_def)
qed

lemma token_teid: "token (''0x'' @ fmt_08X n)"
  by (intro token_append2 [OF visible_lits(1)] token_fmt_08X)

lemmas cell_tokens = token_teid token_IP4_String token_ActionString token_fmt_d token_MACString
  token_FormatBytes token_formatRateCap token_quarantineStatus

lemma rule_cells_tokens: "token key \<Longrightarrow> list_all token (rule_cells now key r)"
  by (simp add: rule_cells_def cell_tokens del: token_simps)

lemma all_cells_tokens:
  "list_all token (teid_cells now x r)" "list_all token (ueip_cells now x r)"
  "list_all token (nat_cells x r)"
proof -
  show "list_all token (teid_cells now x r)"
    unfolding teid_cells_def by (intro rule_cells_tokens token_teid)
  show "list_all token (ueip_cells now x r)"
    unfolding ueip_cells_def by (intro rule_cells_tokens token_IP4_String)
  show "list_all token (nat_cells x r)"
    using token_teid [of "TeidOut r"] by (simp add: nat_cells_def cell_tokens del: token_simps)
qed

section \<open>stats\<close>

definition stats_FormatBytes :: "u64 \<Rightarrow> string" where
  "stats_FormatBytes b =
     (if 2 ^ 30 \<le> b then fmt_scaled b 30 @ '' GB''
      else if 2 ^ 20 \<le> b then fmt_scaled b 20 @ '' MB''
      else if 2 ^ 10 \<le> b then fmt_scaled b 10 @ '' KB''
      else fmt_d (unat b) @ '' B'')"

record verdict_stat =
  Packets :: u64
  Bytes :: u64

record counters =
  CPass :: verdict_stat
  CDrop :: verdict_stat
  CRedirect :: verdict_stat

text \<open>\<open>m.Lookup(key, &perCPU)\<close> and the sum over the CPUs.\<close>

definition lookup_percpu :: "'k bpf_api \<Rightarrow> map_fd \<Rightarrow> u32 \<Rightarrow> 'k \<Rightarrow> go_error + (u64 \<times> u64) list" where
  "lookup_percpu api m key k =
     (let label = ''stats_map lookup key='' @ fmt_d (unat key) in
      case MapLookup api m key k of
        Inl e \<Rightarrow> Inl (Wrapped label e)
      | Inr (StatsV cpus) \<Rightarrow> Inr cpus
      | Inr _ \<Rightarrow> Inl (Wrapped label (External ''unmarshal'')))"

definition sum_percpu :: "(u64 \<times> u64) list \<Rightarrow> verdict_stat" where
  "sum_percpu cpus =
     fold (\<lambda>(packets, octets) t. t\<lparr>Packets := Packets t + packets, Bytes := Bytes t + octets\<rparr>) cpus
       \<lparr>Packets = 0, Bytes = 0\<rparr>"

definition ReadFromMap :: "'k bpf_api \<Rightarrow> map_fd \<Rightarrow> 'k \<Rightarrow> go_error + counters" where
  "ReadFromMap api m k =
     check (lookup_percpu api m 0 k) (\<lambda>ps.
     check (lookup_percpu api m 1 k) (\<lambda>ds.
     check (lookup_percpu api m 3 k) (\<lambda>rs.
     Inr \<lparr>CPass = sum_percpu ps, CDrop = sum_percpu ds, CRedirect = sum_percpu rs\<rparr>)))"

definition stats_Read :: "'k bpf_api \<Rightarrow> string \<Rightarrow> ('k, counters) run" where
  "stats_Read api pinPath =
     with_map api (open_pinned api pinPath ''open stats_map'') (\<lambda>m k. (ReadFromMap api m k, k))"

text \<open>\<open>%-12s\<close> and \<open>%12s\<close>: padded to the width, never cut.\<close>

definition pad_right :: "nat \<Rightarrow> string \<Rightarrow> string" where
  "pad_right n s = s @ replicate (n - length s) CHR '' ''"

definition pad_left :: "nat \<Rightarrow> string \<Rightarrow> string" where
  "pad_left n s = replicate (n - length s) CHR '' '' @ s"

definition counter_line :: "string \<Rightarrow> verdict_stat \<Rightarrow> string" where
  "counter_line name v =
     pad_right 12 name @ ''  '' @ pad_left 12 (fmt_d (unat (Packets v))) @ ''  '' @
     pad_left 12 (stats_FormatBytes (Bytes v))"

definition printCounters :: "counters \<Rightarrow> string list" where
  "printCounters c =
     [pad_right 12 ''VERDICT'' @ ''  '' @ pad_left 12 ''PACKETS'' @ ''  '' @ pad_left 12 ''BYTES'',
      pad_right 12 ''-------'' @ ''  '' @ pad_left 12 ''-------'' @ ''  '' @ pad_left 12 ''-----'',
      counter_line ''PASS'' (CPass c), counter_line ''DROP'' (CDrop c),
      counter_line ''REDIRECT'' (CRedirect c)]"

definition printStats :: "'k bpf_api \<Rightarrow> ('k, string list) run" where
  "printStats api =
     andThen (stats_Read api PinStatsMap) (\<lambda>c k. (Inr (printCounters c), k))"

lemma sum_percpu_fold:
  "fold (\<lambda>(packets, octets) t. t\<lparr>Packets := Packets t + packets, Bytes := Bytes t + octets\<rparr>) cpus t =
     t\<lparr>Packets := Packets t + sum_list (map fst cpus), Bytes := Bytes t + sum_list (map snd cpus)\<rparr>"
  by (induction cpus arbitrary: t) (auto simp: add.assoc)

lemma sum_percpu_totals:
  "sum_percpu cpus = \<lparr>Packets = sum_list (map fst cpus), Bytes = sum_list (map snd cpus)\<rparr>"
  by (simp add: sum_percpu_def sum_percpu_fold)

section \<open>The listing under the laws of the maps\<close>

text \<open>The view of one map: heading and rows in the order of the keys.\<close>

definition table_view ::
  "string \<Rightarrow> string list \<Rightarrow> string list \<Rightarrow> (u32 \<Rightarrow> fwd_rule \<Rightarrow> string list)
     \<Rightarrow> (u32 \<Rightarrow> map_value option) \<Rightarrow> string list list" where
  "table_view name heading line cells E =
     (let keys = {x. rule_of (E x) \<noteq> None} in
      [''=== '' @ name @ '' ('' @ fmt_d (card keys) @ '' entries) ===''] #
      (if keys \<noteq> {}
       then heading # line # map (\<lambda>x. cells x (the (rule_of (E x)))) (sorted_list_of_set keys)
       else [[''(empty)'']]))"

context bpf_maps
begin

lemma list_rules_keys:
  assumes "list_rules api m label k = Inr out"
  shows "sort (map fst out) = sorted_list_of_set {x. rule_of (entries k m x) \<noteq> None}"
proof -
  have d: "distinct (map fst out)" and e: "map_of out x = rule_of (entries k m x)" for x
    using list_rules_entries [OF assms] by auto
  have "set (map fst out) = {x. map_of out x \<noteq> None}"
    by (auto simp: map_of_eq_None_iff)
  then have "set (map fst out) = {x. rule_of (entries k m x) \<noteq> None}" by (simp add: e)
  then show ?thesis using d by (metis sorted_list_of_set_sort_remdups distinct_remdups_id)
qed

lemma sorted_rows_contents:
  assumes "list_rules api m label k = Inr out"
  shows "sorted_rows cells out = map (\<lambda>x. cells x (the (rule_of (entries k m x))))
    (sorted_list_of_set {x. rule_of (entries k m x) \<noteq> None})"
  using list_rules_keys [OF assms] list_rules_entries(1) [OF assms]
  by (simp add: sorted_rows_def)

lemma list_section_contents:
  assumes "list_rules api m label k = Inr out"
  shows "list_section name heading line cells out = table_view name heading line cells (entries k m)"
proof -
  let ?D = "{x. rule_of (entries k m x) \<noteq> None}"
  have s: "sort (map fst out) = sorted_list_of_set ?D" by (rule list_rules_keys [OF assms])
  have "finite ?D" by (rule finite_subset [of _ UNIV]) simp_all
  then have "length out = card ?D" using arg_cong [OF s, of length] by simp
  moreover from this have "out \<noteq> [] \<longleftrightarrow> ?D \<noteq> {}"
    using \<open>finite ?D\<close> by (metis card_0_eq length_0_conv)
  ultimately have "length out = card ?D" "out \<noteq> [] \<longleftrightarrow> ?D \<noteq> {}" by blast+
  then show ?thesis
    by (simp add: list_section_def table_view_def Let_def sorted_rows_contents [OF assms])
qed

lemma list_run:
  assumes "list_RunE api now k = (Inr lines, k')"
  shows "\<exists>t u n. pinned k PinTeidMap = Some t \<and> pinned k PinUeipMap = Some u
    \<and> pinned k PinNatMap = Some n \<and> entries k' = entries k
    \<and> lines = table_view ''teid_map'' (rule_heading ''TEID'')
          (dashes [4, 6, 7, 7, 7, 7, 5, 8, 10, 10]) (teid_cells now) (entries k t) @ [[]] @
        table_view ''ueip_map'' (rule_heading ''UE-IP'')
          (dashes [5, 6, 7, 7, 7, 7, 5, 8, 10, 10]) (ueip_cells now) (entries k u) @ [[]] @
        table_view ''nat_map'' nat_heading (dashes [6, 5, 7, 7, 7, 8, 7, 5]) nat_cells (entries k n)"
proof -
  note run = assms [unfolded list_RunE_def OpenTeidMap_def OpenUeipMap_def OpenNatMap_def]
  obtain t k1 te where t: "pinned k PinTeidMap = Some t" "TeidMap_List api t k = Inr te"
    and r1: "with_map api (open_pinned api PinUeipMap ''open ueip_map'') (\<lambda>um k.
      case UeipMap_List api um k of Inl e \<Rightarrow> (Inl e, k)
      | Inr ue \<Rightarrow> with_map api (open_pinned api PinNatMap ''open nat_map'') (\<lambda>nm k.
          case NatMap_List api nm k of Inl e \<Rightarrow> (Inl e, k)
          | Inr ne \<Rightarrow> (Inr (list_section ''teid_map'' (rule_heading ''TEID'')
                (dashes [4, 6, 7, 7, 7, 7, 5, 8, 10, 10]) (teid_cells now) te @ [[]] @
              list_section ''ueip_map'' (rule_heading ''UE-IP'')
                (dashes [5, 6, 7, 7, 7, 7, 5, 8, 10, 10]) (ueip_cells now) ue @ [[]] @
              list_section ''nat_map'' nat_heading (dashes [6, 5, 7, 7, 7, 8, 7, 5]) nat_cells ne),
              k)) k) k = (Inr lines, k1)"
    and e1: "entries k' = entries k1" "pinned k' = pinned k1"
    using run by (rule with_map_pinned) (auto split: sum.splits)
  obtain u k2 ue where u: "pinned k PinUeipMap = Some u" "UeipMap_List api u k = Inr ue"
    and r2: "with_map api (open_pinned api PinNatMap ''open nat_map'') (\<lambda>nm k.
          case NatMap_List api nm k of Inl e \<Rightarrow> (Inl e, k)
          | Inr ne \<Rightarrow> (Inr (list_section ''teid_map'' (rule_heading ''TEID'')
                (dashes [4, 6, 7, 7, 7, 7, 5, 8, 10, 10]) (teid_cells now) te @ [[]] @
              list_section ''ueip_map'' (rule_heading ''UE-IP'')
                (dashes [5, 6, 7, 7, 7, 7, 5, 8, 10, 10]) (ueip_cells now) ue @ [[]] @
              list_section ''nat_map'' nat_heading (dashes [6, 5, 7, 7, 7, 8, 7, 5]) nat_cells ne),
              k)) k = (Inr lines, k2)"
    and e2: "entries k1 = entries k2" "pinned k1 = pinned k2"
    using r1 by (rule with_map_pinned) (auto split: sum.splits)
  obtain n k3 ne where n: "pinned k PinNatMap = Some n" "NatMap_List api n k = Inr ne"
    and r3: "lines = list_section ''teid_map'' (rule_heading ''TEID'')
                (dashes [4, 6, 7, 7, 7, 7, 5, 8, 10, 10]) (teid_cells now) te @ [[]] @
              list_section ''ueip_map'' (rule_heading ''UE-IP'')
                (dashes [5, 6, 7, 7, 7, 7, 5, 8, 10, 10]) (ueip_cells now) ue @ [[]] @
              list_section ''nat_map'' nat_heading (dashes [6, 5, 7, 7, 7, 8, 7, 5]) nat_cells ne"
    and e3: "k3 = k" "entries k2 = entries k3" "pinned k2 = pinned k3"
    using r2 by (rule with_map_pinned) (auto split: sum.splits)
  show ?thesis
    using t u n e1 e2 e3
      list_section_contents [OF t(2) [unfolded TeidMap_List_def]]
      list_section_contents [OF u(2) [unfolded UeipMap_List_def]]
      list_section_contents [OF n(2) [unfolded NatMap_List_def]]
    unfolding r3 by (intro exI [of _ t] exI [of _ u] exI [of _ n]) simp
qed

lemma lookup_percpu_entries:
  "entries k m x = Some (StatsV cpus) \<Longrightarrow> lookup_percpu api m x k = Inr cpus"
  using lookup_present [of k m x] by (simp add: lookup_percpu_def Let_def)

end

lemma lab_list_run: "\<exists>lines k'. list_RunE ref_api now loaded_kernel = (Inr lines, k')"
  by (simp add: list_RunE_def run_eval TeidMap_List_def UeipMap_List_def NatMap_List_def
      list_rules_def ref_api_def loaded_kernel_def pin_defs)

section \<open>Properties\<close>

text \<open>C29: a listing that succeeds shows exactly the rules of the three maps, in the order of their keys
  whatever order the kernel iterates in, and leaves the maps as they are.\<close>
theorem list_shows_maps:
  assumes "bpf_maps api pinned entries" and "list_RunE api now k = (Inr lines, k')"
  shows "\<exists>t u n. pinned k PinTeidMap = Some t \<and> pinned k PinUeipMap = Some u
    \<and> pinned k PinNatMap = Some n \<and> entries k' = entries k
    \<and> lines = table_view ''teid_map'' (rule_heading ''TEID'')
          (dashes [4, 6, 7, 7, 7, 7, 5, 8, 10, 10]) (teid_cells now) (entries k t) @ [[]] @
        table_view ''ueip_map'' (rule_heading ''UE-IP'')
          (dashes [5, 6, 7, 7, 7, 7, 5, 8, 10, 10]) (ueip_cells now) (entries k u) @ [[]] @
        table_view ''nat_map'' nat_heading (dashes [6, 5, 7, 7, 7, 8, 7, 5]) nat_cells (entries k n)"
  using assms(2) by (rule bpf_maps.list_run [OF assms(1)])

lemma list_shows_maps_witness:
  "\<exists>k'. list_RunE ref_api 0 loaded_kernel = (Inr
     [[''=== teid_map (0 entries) ===''], [''(empty)''], [], [''=== ueip_map (0 entries) ===''],
      [''(empty)''], [], [''=== nat_map (0 entries) ===''], [''(empty)'']], k')"
proof -
  have zero: "fmt_d 0 = ''0''" by code_simp
  obtain lines k' where run: "list_RunE ref_api 0 loaded_kernel = (Inr lines, k')"
    using lab_list_run by blast
  have "ref_entries loaded_kernel m = Map.empty" for m
    by (simp add: ref_entries_def loaded_kernel_def)
  with run list_shows_maps [OF ref.bpf_maps_axioms run] show ?thesis
    by (simp add: table_view_def zero)
qed

text \<open>Every data line of the three tables splits on blanks into exactly its columns, whatever the
  widths of the columns: no cell is empty and none contains a blank.\<close>
theorem listing_columns:
  assumes "\<forall>n \<in> set ns. 0 < n" and "9 \<le> length ns"
  shows "awk_fields (render ns (teid_cells now x r)) = teid_cells now x r
    \<and> awk_fields (render ns (ueip_cells now x r)) = ueip_cells now x r
    \<and> awk_fields (render ns (nat_cells x r)) = nat_cells x r"
proof -
  have p: "list_all (\<lambda>n. 0 < n) ns" using assms(1) by (simp add: list_all_iff)
  have "length (teid_cells now x r) = 10" "length (ueip_cells now x r) = 10"
    "length (nat_cells x r) = 8"
    by (simp_all add: teid_cells_def ueip_cells_def rule_cells_def nat_cells_def)
  then show ?thesis
    using assms(2) by (intro conjI awk_fields_render all_cells_tokens p) simp_all
qed

lemma listing_columns_witness:
  "awk_fields (render (replicate 9 3) (nat_cells 1 zero_rule)) = nat_cells 1 zero_rule"
  using listing_columns [of "replicate 9 3"] by simp

text \<open>The counters shown are, for each verdict, the sum of the per-CPU packets and bytes modulo
  \<open>2 ^ 64\<close>, read from the slots the XDP program writes.\<close>
theorem stats_are_sums:
  assumes "bpf_maps api pinned entries" and "stats_Read api PinStatsMap k = (Inr c, k')"
    and "pinned k PinStatsMap = Some m"
    and "entries k m 0 = Some (StatsV ps)" and "entries k m 1 = Some (StatsV ds)"
    and "entries k m 3 = Some (StatsV rs)"
  shows "c = \<lparr>CPass = \<lparr>Packets = sum_list (map fst ps), Bytes = sum_list (map snd ps)\<rparr>,
      CDrop = \<lparr>Packets = sum_list (map fst ds), Bytes = sum_list (map snd ds)\<rparr>,
      CRedirect = \<lparr>Packets = sum_list (map fst rs), Bytes = sum_list (map snd rs)\<rparr>\<rparr>
    \<and> entries k' = entries k"
proof -
  obtain m' k1 where m: "pinned k PinStatsMap = Some m'" "(ReadFromMap api m' k, k) = (Inr c, k1)"
    and e: "entries k' = entries k1"
    using bpf_maps.with_map_pinned [OF assms(1) assms(2) [unfolded stats_Read_def]] by metis
  then have "m' = m" "ReadFromMap api m k = Inr c" "k1 = k" using assms(3) by auto
  with e assms(4-6) bpf_maps.lookup_percpu_entries [OF assms(1)] show ?thesis
    by (simp add: ReadFromMap_def sum_percpu_totals)
qed

definition counted_kernel :: ref_kernel where
  "counted_kernel = fold (\<lambda>(x, v) k. set_cell 3 x (Some (StatsV v)) k)
     [(0, [(1, 60), (2, 120)]), (1, [(0, 0), (0, 0)]), (3, [(5, 500), (6, 600)])] loaded_kernel"

lemma counted_kernel_read:
  "\<exists>c k'. stats_Read ref_api PinStatsMap counted_kernel = (Inr c, k')"
  by (simp add: stats_Read_def with_map_def andThen_def open_pinned_def ref_api_def counted_kernel_def
      loaded_kernel_def set_cell_def pin_defs ReadFromMap_def lookup_percpu_def)

lemma stats_are_sums_witness:
  "\<exists>c k'. stats_Read ref_api PinStatsMap counted_kernel = (Inr c, k')
     \<and> Packets (CRedirect c) = 11 \<and> Bytes (CPass c) = 180"
proof -
  obtain c k' where r: "stats_Read ref_api PinStatsMap counted_kernel = (Inr c, k')"
    using counted_kernel_read by blast
  have e: "Pins counted_kernel PinStatsMap = Some 3"
    "ref_entries counted_kernel 3 0 = Some (StatsV [(1, 60), (2, 120)])"
    "ref_entries counted_kernel 3 1 = Some (StatsV [(0, 0), (0, 0)])"
    "ref_entries counted_kernel 3 3 = Some (StatsV [(5, 500), (6, 600)])"
    by (simp_all add: counted_kernel_def loaded_kernel_def set_cell_def ref_entries_def pin_defs)
  show ?thesis using r stats_are_sums [OF ref.bpf_maps_axioms r e] by simp
qed

end
