(* ===== verification/StatsWatch.thy ===== *)
theory StatsWatch
  imports ListView
begin

text \<open>
  \<open>watchStats\<close> of \<open>control/cmd/stats.go\<close>: the loop over its two channels. An event comes with the
  kernel state it finds; the result is the text written so far and what the command returned, \<open>None\<close>
  while it still waits.
\<close>

datatype watch_event = Signal | SecondTick

definition escape :: "string \<Rightarrow> string" where
  "escape s = char_of (27 :: nat) # s"

definition watch_screen :: "counters \<Rightarrow> string" where
  "watch_screen c =
     escape ''[H'' @ ''GTP-U XDP Router - stats  (Ctrl-C to stop)'' @ newline @ newline @
     concat (map (\<lambda>l. l @ newline) (printCounters c))"

fun watch_loop :: "'k bpf_api \<Rightarrow> (watch_event \<times> 'k) list \<Rightarrow> string \<times> (go_error + unit) option" where
  "watch_loop api [] = ([], None)"
| "watch_loop api ((Signal, k) # evs) = (newline @ ''stopped'' @ newline, Some (Inr ()))"
| "watch_loop api ((SecondTick, k) # evs) =
     (case fst (stats_Read api PinStatsMap k) of
        Inl e \<Rightarrow> ([], Some (Inl e))
      | Inr c \<Rightarrow> (case watch_loop api evs of (out, r) \<Rightarrow> (watch_screen c @ out, r)))"

definition watchStats :: "'k bpf_api \<Rightarrow> (watch_event \<times> 'k) list \<Rightarrow> string \<times> (go_error + unit) option" where
  "watchStats api evs =
     (case watch_loop api evs of (out, r) \<Rightarrow> (escape ''[H'' @ escape ''[2J'' @ out, r))"

text \<open>\<open>statsCmd.RunE\<close>; without \<open>--watch\<close> the counters are printed once.\<close>

definition stats_RunE ::
  "'k bpf_api \<Rightarrow> bool \<Rightarrow> (watch_event \<times> 'k) list \<Rightarrow> 'k \<Rightarrow> string \<times> (go_error + unit) option" where
  "stats_RunE api statsWatch evs k =
     (if statsWatch then watchStats api evs
      else case fst (printStats api k) of
             Inl e \<Rightarrow> ([], Some (Inl e))
           | Inr ls \<Rightarrow> (concat (map (\<lambda>l. l @ newline) ls), Some (Inr ())))"

text \<open>The loop ends at the first signal or failed read, and only there.\<close>

definition ends_watch :: "'k bpf_api \<Rightarrow> watch_event \<times> 'k \<Rightarrow> bool" where
  "ends_watch api ev = (case ev of (Signal, k) \<Rightarrow> True
     | (SecondTick, k) \<Rightarrow> isl (fst (stats_Read api PinStatsMap k)))"

lemma watch_loop_ends: "snd (watch_loop api evs) \<noteq> None \<longleftrightarrow> (\<exists>ev \<in> set evs. ends_watch api ev)"
proof (induction api evs rule: watch_loop.induct)
  case (3 api k evs)
  then show ?case
    by (cases "fst (stats_Read api PinStatsMap k)"; cases "watch_loop api evs") (simp_all add: ends_watch_def)
qed (simp_all add: ends_watch_def)

lemma watchStats_ends: "snd (watchStats api evs) \<noteq> None \<longleftrightarrow> (\<exists>ev \<in> set evs. ends_watch api ev)"
  using watch_loop_ends [of api evs] by (cases "watch_loop api evs") (simp add: watchStats_def)

text \<open>What comes after the end of the loop is not looked at.\<close>

lemma watch_loop_prefix: "snd (watch_loop api evs) \<noteq> None \<Longrightarrow> watch_loop api (evs @ rest) = watch_loop api evs"
proof (induction api evs rule: watch_loop.induct)
  case (3 api k evs)
  then show ?case
    by (cases "fst (stats_Read api PinStatsMap k)") (simp_all split: prod.splits)
qed simp_all

end
