(* ===== verification/Cli.thy ===== *)
theory Cli
  imports Loader StatsWatch
begin

text \<open>
  The command line of \<open>gtp-ctrl\<close>: \<open>control/cmd/root.go\<close>, \<open>control/main.go\<close>, the \<open>init\<close> functions
  of \<open>control/cmd\<close> that register the commands and their flags, and \<open>control/maps/clock.go\<close>. The
  library cobra, which parses the arguments against the registered commands, is the record \<open>cobra\<close>:
  it reports an error, prints a help text and runs nothing, or names a command and the flags that
  were set. The rest is the program's: the variables take the value set or the default registered,
  the root check comes first, then the required flags, then \<open>RunE\<close>.
\<close>

section \<open>Commands and flags\<close>

datatype subcommand =
    LoadCmd | UnloadCmd | AddTeidCmd | DelTeidCmd | AddUeipCmd | DelUeipCmd | AddNatCmd | DelNatCmd
  | ListCmd | StatsCmd | DashboardCmd

text \<open>The commands in the order \<open>init\<close> of \<open>root.go\<close> adds them, and their \<open>Use\<close>.\<close>

definition subcommands :: "subcommand list" where
  "subcommands =
     [LoadCmd, UnloadCmd, AddTeidCmd, DelTeidCmd, AddUeipCmd, DelUeipCmd, AddNatCmd, DelNatCmd, ListCmd,
      StatsCmd, DashboardCmd]"

fun Use :: "subcommand \<Rightarrow> string" where
  "Use LoadCmd = ''load''"
| "Use UnloadCmd = ''unload''"
| "Use AddTeidCmd = ''add-teid''"
| "Use DelTeidCmd = ''del-teid''"
| "Use AddUeipCmd = ''add-ueip''"
| "Use DelUeipCmd = ''del-ueip''"
| "Use AddNatCmd = ''add-nat''"
| "Use DelNatCmd = ''del-nat''"
| "Use ListCmd = ''list''"
| "Use StatsCmd = ''stats''"
| "Use DashboardCmd = ''dashboard''"

datatype flag_value =
    StringFlag string | Uint32Flag u32 | Uint16Flag u16 | BoolFlag bool | DurationFlag int

text \<open>A flag set: the name and the default of each \<open>StringVar\<close>, \<open>Uint32Var\<close>, \dots\<close>

type_synonym flag_set = "(string \<times> flag_value) list"

definition load_flag_set :: flag_set where
  "load_flag_set =
     [(''iface'', StringFlag ''''), (''mode'', StringFlag ''native''), (''dl-iface'', StringFlag ''''),
      (''dl-mode'', StringFlag ''generic'')]"

definition unload_flag_set :: flag_set where
  "unload_flag_set = [(''iface'', StringFlag '''')]"

definition add_teid_flag_set :: flag_set where
  "add_teid_flag_set =
     [(''teid'', StringFlag ''''), (''action'', StringFlag ''decap''), (''out-iface'', StringFlag ''''),
      (''dmac'', StringFlag ''''), (''smac'', StringFlag ''''), (''dst-ip'', StringFlag ''''),
      (''src-ip'', StringFlag ''''), (''teid-out'', Uint32Flag 0), (''dst-port'', Uint16Flag 2152),
      (''nat-ip'', StringFlag ''''), (''rate-pps'', Uint32Flag 0),
      (''quarantine-threshold'', Uint32Flag 0), (''quarantine-seconds'', Uint32Flag 0)]"

definition del_teid_flag_set :: flag_set where
  "del_teid_flag_set = [(''teid'', StringFlag '''')]"

definition add_ueip_flag_set :: flag_set where
  "add_ueip_flag_set =
     [(''ip'', StringFlag ''''), (''action'', StringFlag ''decap''), (''out-iface'', StringFlag ''''),
      (''dmac'', StringFlag ''''), (''smac'', StringFlag ''''), (''teid-out'', Uint32Flag 0),
      (''dst-ip'', StringFlag ''''), (''src-ip'', StringFlag ''''), (''rate-pps'', Uint32Flag 0),
      (''quarantine-threshold'', Uint32Flag 0), (''quarantine-seconds'', Uint32Flag 0)]"

definition del_ueip_flag_set :: flag_set where
  "del_ueip_flag_set = [(''ip'', StringFlag '''')]"

definition add_nat_flag_set :: flag_set where
  "add_nat_flag_set =
     [(''nat-ip'', StringFlag ''''), (''ue-ip'', StringFlag ''''), (''out-iface'', StringFlag ''''),
      (''dmac'', StringFlag ''''), (''smac'', StringFlag ''''), (''teid-out'', Uint32Flag 0),
      (''dst-ip'', StringFlag ''''), (''src-ip'', StringFlag '''')]"

definition del_nat_flag_set :: flag_set where
  "del_nat_flag_set = [(''nat-ip'', StringFlag '''')]"

definition stats_flag_set :: flag_set where
  "stats_flag_set = [(''watch'', BoolFlag False)]"

definition dashboard_flag_set :: flag_set where
  "dashboard_flag_set = [(''interval'', DurationFlag 1000000000)]"

fun flag_set_of :: "subcommand \<Rightarrow> flag_set" where
  "flag_set_of LoadCmd = load_flag_set"
| "flag_set_of UnloadCmd = unload_flag_set"
| "flag_set_of AddTeidCmd = add_teid_flag_set"
| "flag_set_of DelTeidCmd = del_teid_flag_set"
| "flag_set_of AddUeipCmd = add_ueip_flag_set"
| "flag_set_of DelUeipCmd = del_ueip_flag_set"
| "flag_set_of AddNatCmd = add_nat_flag_set"
| "flag_set_of DelNatCmd = del_nat_flag_set"
| "flag_set_of ListCmd = []"
| "flag_set_of StatsCmd = stats_flag_set"
| "flag_set_of DashboardCmd = dashboard_flag_set"

text \<open>\<open>MarkFlagRequired\<close>.\<close>

fun required_flags :: "subcommand \<Rightarrow> string list" where
  "required_flags AddTeidCmd = [''teid'']"
| "required_flags DelTeidCmd = [''teid'']"
| "required_flags AddUeipCmd = [''ip'']"
| "required_flags DelUeipCmd = [''ip'']"
| "required_flags AddNatCmd = [''nat-ip'', ''ue-ip'']"
| "required_flags DelNatCmd = [''nat-ip'']"
| "required_flags _ = []"

section \<open>The flag variables\<close>

text \<open>The flags set on the command line, in order; a later setting of a flag replaces an earlier one.\<close>

type_synonym settings = "(string \<times> flag_value) list"

definition flag_var :: "flag_set \<Rightarrow> settings \<Rightarrow> string \<Rightarrow> flag_value option" where
  "flag_var fs given name =
     (case map_of (rev given) name of Some v \<Rightarrow> Some v | None \<Rightarrow> map_of fs name)"

definition string_var :: "flag_set \<Rightarrow> settings \<Rightarrow> string \<Rightarrow> string" where
  "string_var fs given name = (case flag_var fs given name of Some (StringFlag s) \<Rightarrow> s | _ \<Rightarrow> [])"

definition uint32_var :: "flag_set \<Rightarrow> settings \<Rightarrow> string \<Rightarrow> u32" where
  "uint32_var fs given name = (case flag_var fs given name of Some (Uint32Flag n) \<Rightarrow> n | _ \<Rightarrow> 0)"

definition uint16_var :: "flag_set \<Rightarrow> settings \<Rightarrow> string \<Rightarrow> u16" where
  "uint16_var fs given name = (case flag_var fs given name of Some (Uint16Flag n) \<Rightarrow> n | _ \<Rightarrow> 0)"

definition bool_var :: "flag_set \<Rightarrow> settings \<Rightarrow> string \<Rightarrow> bool" where
  "bool_var fs given name = (case flag_var fs given name of Some (BoolFlag b) \<Rightarrow> b | _ \<Rightarrow> False)"

definition duration_var :: "flag_set \<Rightarrow> settings \<Rightarrow> string \<Rightarrow> int" where
  "duration_var fs given name = (case flag_var fs given name of Some (DurationFlag d) \<Rightarrow> d | _ \<Rightarrow> 0)"

definition add_teid_vars :: "settings \<Rightarrow> add_teid_flags" where
  "add_teid_vars given =
     (let str = string_var add_teid_flag_set given; num = uint32_var add_teid_flag_set given
      in \<lparr>addTeidTeid = str ''teid'', addTeidAction = str ''action'',
          addTeidOutIface = str ''out-iface'', addTeidDMac = str ''dmac'', addTeidSMac = str ''smac'',
          addTeidDstIP = str ''dst-ip'', addTeidSrcIP = str ''src-ip'',
          addTeidTeidOut = num ''teid-out'',
          addTeidDstPort = uint16_var add_teid_flag_set given ''dst-port'',
          addTeidNatIP = str ''nat-ip'', addTeidRatePPS = num ''rate-pps'',
          addTeidQuarantineThreshold = num ''quarantine-threshold'',
          addTeidQuarantineSeconds = num ''quarantine-seconds''\<rparr>)"

definition add_ueip_vars :: "settings \<Rightarrow> add_ueip_flags" where
  "add_ueip_vars given =
     (let str = string_var add_ueip_flag_set given; num = uint32_var add_ueip_flag_set given
      in \<lparr>addUeipIP = str ''ip'', addUeipAction = str ''action'',
          addUeipOutIface = str ''out-iface'', addUeipDMac = str ''dmac'', addUeipSMac = str ''smac'',
          addUeipTeidOut = num ''teid-out'', addUeipDstIP = str ''dst-ip'',
          addUeipSrcIP = str ''src-ip'', addUeipRatePPS = num ''rate-pps'',
          addUeipQuarantineThreshold = num ''quarantine-threshold'',
          addUeipQuarantineSeconds = num ''quarantine-seconds''\<rparr>)"

definition add_nat_vars :: "settings \<Rightarrow> add_nat_flags" where
  "add_nat_vars given =
     (let str = string_var add_nat_flag_set given
      in \<lparr>addNatNatIP = str ''nat-ip'', addNatUeIP = str ''ue-ip'',
          addNatOutIface = str ''out-iface'', addNatDMac = str ''dmac'', addNatSMac = str ''smac'',
          addNatTeidOut = uint32_var add_nat_flag_set given ''teid-out'',
          addNatDstIP = str ''dst-ip'', addNatSrcIP = str ''src-ip''\<rparr>)"

section \<open>clock.go\<close>

text \<open>
  \<open>clock_gettime(CLOCK_MONOTONIC)\<close> yields seconds and nanoseconds; \<open>Nano\<close> is their sum in 64 bits.
\<close>

definition MonotonicNowNs :: "go_error + (u64 \<times> u64) \<Rightarrow> u64" where
  "MonotonicNowNs ts = (case ts of Inl e \<Rightarrow> 0 | Inr (sec, nsec) \<Rightarrow> sec * 1000000000 + nsec)"

section \<open>RunE\<close>

text \<open>The host: the kernel, its interfaces, the user and the clock; \<open>TuiRun\<close> is the run of the dashboard.\<close>

record 'k cli_host =
  KernelApi :: "'k loader_api"
  Interfaces :: interfaces
  Getuid :: int
  ClockGettime :: "go_error + (u64 \<times> u64)"
  TuiRun :: "int \<Rightarrow> ('k, unit) run"

datatype cli_result =
    Printed "string list"
  | Listing "string list list"
  | Failed go_error
  | Waiting
  | HelpText

definition load_output :: "string \<Rightarrow> string \<Rightarrow> string \<Rightarrow> string \<Rightarrow> string list" where
  "load_output loadIface loadMode loadDLIface loadDLMode =
     [''OK  XDP program loaded on '' @ loadIface @ '' (mode: '' @ loadMode @ '')'' @ newline] @
     (if loadDLIface \<noteq> []
      then [''OK  XDP program loaded on '' @ loadDLIface @ '' (mode: '' @ loadDLMode @ '')'' @ newline]
      else []) @
     [''    Maps pinned under /sys/fs/bpf/gtp_router/'' @ newline,
      ''    Add rules with: gtp-ctrl add-teid / add-ueip / add-nat'' @ newline]"

definition result_of :: "('a \<Rightarrow> cli_result) \<Rightarrow> (go_error + 'a) \<times> 'k \<Rightarrow> cli_result \<times> 'k" where
  "result_of f x = (case x of (Inl e, k) \<Rightarrow> (Failed e, k) | (Inr y, k) \<Rightarrow> (f y, k))"

definition one_line :: "string \<Rightarrow> cli_result" where
  "one_line s = Printed [s]"

definition watch_result :: "string \<times> (go_error + unit) option \<Rightarrow> cli_result" where
  "watch_result x =
     (case x of (out, None) \<Rightarrow> Waiting | (out, Some (Inl e)) \<Rightarrow> Failed e
      | (out, Some (Inr u)) \<Rightarrow> Printed [out])"

text \<open>\<open>evs\<close> is what \<open>stats --watch\<close> meets while it waits; it does not write to the kernel itself.\<close>

definition RunE ::
  "'k cli_host \<Rightarrow> (watch_event \<times> 'k) list \<Rightarrow> subcommand \<Rightarrow> settings \<Rightarrow> 'k \<Rightarrow> cli_result \<times> 'k" where
  "RunE h evs c given k =
     (let lapi = KernelApi h; api = Maps lapi; str = string_var (flag_set_of c) given
      in case c of
        LoadCmd \<Rightarrow>
          result_of (\<lambda>_. Printed (load_output (str ''iface'') (str ''mode'') (str ''dl-iface'') (str ''dl-mode'')))
            (load_RunE lapi (Interfaces h) (str ''iface'') (str ''mode'') (str ''dl-iface'')
               (str ''dl-mode'') k)
      | UnloadCmd \<Rightarrow>
          result_of (\<lambda>_. one_line (''OK  XDP program detached from '' @ str ''iface'' @ newline))
            (unload_RunE lapi (Interfaces h) (str ''iface'') k)
      | AddTeidCmd \<Rightarrow> result_of one_line (add_teid_RunE api (Interfaces h) (add_teid_vars given) k)
      | DelTeidCmd \<Rightarrow> result_of one_line (del_teid_RunE api (str ''teid'') k)
      | AddUeipCmd \<Rightarrow> result_of one_line (add_ueip_RunE api (Interfaces h) (add_ueip_vars given) k)
      | DelUeipCmd \<Rightarrow> result_of one_line (del_ueip_RunE api (str ''ip'') k)
      | AddNatCmd \<Rightarrow> result_of one_line (add_nat_RunE api (Interfaces h) (add_nat_vars given) k)
      | DelNatCmd \<Rightarrow> result_of one_line (del_nat_RunE api (str ''nat-ip'') k)
      | ListCmd \<Rightarrow> result_of Listing (list_RunE api (MonotonicNowNs (ClockGettime h)) k)
      | StatsCmd \<Rightarrow>
          (watch_result (stats_RunE api (bool_var stats_flag_set given ''watch'') evs k), k)
      | DashboardCmd \<Rightarrow>
          result_of (\<lambda>_. Printed []) (TuiRun h (duration_var dashboard_flag_set given ''interval'') k))"

section \<open>Execute\<close>

text \<open>
  \<open>Parse\<close> gets the registered commands with their flags and the arguments; \<open>None\<close> is a request for
  help. \<open>RequiredError\<close> is cobra's complaint about required flags that were not set.
\<close>

record cobra =
  Parse :: "(string \<times> flag_set) list \<Rightarrow> string list \<Rightarrow> go_error + (string \<times> settings) option"
  RequiredError :: "string list \<Rightarrow> go_error"

definition registered :: "(string \<times> flag_set) list" where
  "registered = map (\<lambda>c. (Use c, flag_set_of c)) subcommands"

definition command_named :: "string \<Rightarrow> subcommand option" where
  "command_named name = List.find (\<lambda>c. Use c = name) subcommands"

definition missing_flags :: "subcommand \<Rightarrow> settings \<Rightarrow> string list" where
  "missing_flags c given = filter (\<lambda>n. n \<notin> fst ` set given) (required_flags c)"

definition rootCmd_Execute ::
  "cobra \<Rightarrow> 'k cli_host \<Rightarrow> (watch_event \<times> 'k) list \<Rightarrow> string list \<Rightarrow> 'k \<Rightarrow> cli_result \<times> 'k" where
  "rootCmd_Execute cb h evs args k =
     (case Parse cb registered args of
        Inl e \<Rightarrow> (Failed e, k)
      | Inr None \<Rightarrow> (HelpText, k)
      | Inr (Some (name, given)) \<Rightarrow>
          (case command_named name of
             None \<Rightarrow> (Failed (Message (''unknown command '' @ name)), k)
           | Some c \<Rightarrow>
               (case PersistentPreRunE (Getuid h) of
                  Inl e \<Rightarrow> (Failed e, k)
                | Inr _ \<Rightarrow>
                    if missing_flags c given \<noteq> [] then (Failed (RequiredError cb (missing_flags c given)), k)
                    else RunE h evs c given k)))"

text \<open>\<open>Execute\<close>: an error goes to the standard error and the process exits with 1.\<close>

definition Execute ::
  "cobra \<Rightarrow> 'k cli_host \<Rightarrow> (watch_event \<times> 'k) list \<Rightarrow> string list \<Rightarrow> 'k
     \<Rightarrow> nat \<times> go_error option \<times> 'k" where
  "Execute cb h evs args k =
     (case rootCmd_Execute cb h evs args k of
        (Failed e, k') \<Rightarrow> (1, Some e, k')
      | (r, k') \<Rightarrow> (0, None, k'))"

section \<open>The registered flags\<close>

text \<open>Without settings the variables have the defaults of the models of the commands.\<close>

lemma vars_defaults:
  "add_teid_vars [] = add_teid_defaults" "add_ueip_vars [] = add_ueip_defaults"
  "add_nat_vars [] = add_nat_defaults"
  by (simp_all add: add_teid_vars_def add_teid_defaults_def add_ueip_vars_def add_ueip_defaults_def
      add_nat_vars_def add_nat_defaults_def string_var_def uint32_var_def uint16_var_def flag_var_def
      add_teid_flag_set_def add_ueip_flag_set_def add_nat_flag_set_def)

text \<open>The commands and the flags of each have different names, and a required flag is registered.\<close>

lemma registered_wf:
  "distinct (map fst registered)"
  "\<forall>c. distinct (map fst (flag_set_of c)) \<and> set (required_flags c) \<subseteq> fst ` set (flag_set_of c)"
proof -
  show "distinct (map fst registered)" by code_simp
  have "list_all (\<lambda>c. distinct (map fst (flag_set_of c))
      \<and> list_all (\<lambda>n. n \<in> fst ` set (flag_set_of c)) (required_flags c)) subcommands"
    by code_simp
  moreover have "c \<in> set subcommands" for c by (cases c) (simp_all add: subcommands_def)
  ultimately show "\<forall>c. distinct (map fst (flag_set_of c))
      \<and> set (required_flags c) \<subseteq> fst ` set (flag_set_of c)"
    unfolding list_all_iff by blast
qed

lemma command_named_Use: "command_named (Use c) = Some c"
  by (cases c) (simp_all add: command_named_def subcommands_def)

lemma MonotonicNowNs_range:
  assumes "unat sec * 1000000000 + unat nsec < 18446744073709551616"
  shows "unat (MonotonicNowNs (Inr (sec, nsec))) = unat sec * 1000000000 + unat nsec"
  using assms by (simp add: MonotonicNowNs_def unat_word_ariths)

section \<open>The documented examples\<close>

text \<open>The \<open>Example\<close> texts of the commands, each as the flags its command line sets.\<close>

definition dead_to_eth1 :: settings where
  "dead_to_eth1 =
     [(''teid'', StringFlag ''0xDEAD''), (''action'', StringFlag ''decap''),
      (''out-iface'', StringFlag ''eth1''), (''dmac'', StringFlag ''aa:bb:cc:dd:ee:ff''),
      (''smac'', StringFlag ''11:22:33:44:55:66'')]"

definition add_teid_examples :: "settings list" where
  "add_teid_examples =
     [dead_to_eth1,
      [(''teid'', StringFlag ''0x1234''), (''action'', StringFlag ''drop'')],
      dead_to_eth1 @ [(''rate-pps'', Uint32Flag 100)],
      dead_to_eth1 @ [(''rate-pps'', Uint32Flag 100), (''quarantine-threshold'', Uint32Flag 3),
        (''quarantine-seconds'', Uint32Flag 30)]]"

definition add_ueip_examples :: "settings list" where
  "add_ueip_examples =
     [[(''ip'', StringFlag ''10.1.0.50''), (''action'', StringFlag ''decap''),
       (''out-iface'', StringFlag ''eth1''), (''dmac'', StringFlag ''aa:bb:cc:dd:ee:ff''),
       (''smac'', StringFlag ''11:22:33:44:55:66'')],
      [(''ip'', StringFlag ''10.1.0.99''), (''action'', StringFlag ''drop'')],
      [(''ip'', StringFlag ''10.1.0.2''), (''action'', StringFlag ''encap''),
       (''teid-out'', Uint32Flag 0xBEEF), (''src-ip'', StringFlag ''10.0.0.2''),
       (''dst-ip'', StringFlag ''10.0.0.1''), (''out-iface'', StringFlag ''veth-core0''),
       (''dmac'', StringFlag ''aa:bb:cc:dd:ee:ff''), (''smac'', StringFlag ''11:22:33:44:55:66'')],
      [(''ip'', StringFlag ''10.1.0.50''), (''action'', StringFlag ''decap''),
       (''out-iface'', StringFlag ''eth1''), (''dmac'', StringFlag ''aa:bb:cc:dd:ee:ff''),
       (''smac'', StringFlag ''11:22:33:44:55:66''), (''rate-pps'', Uint32Flag 50)]]"

definition add_nat_examples :: "settings list" where
  "add_nat_examples =
     [[(''nat-ip'', StringFlag ''192.168.10.73''), (''ue-ip'', StringFlag ''10.45.0.2''),
       (''teid-out'', Uint32Flag 1), (''src-ip'', StringFlag ''10.201.0.1''),
       (''dst-ip'', StringFlag ''10.201.0.2''), (''out-iface'', StringFlag ''veth-ran''),
       (''dmac'', StringFlag ''1a:d2:ab:7b:7e:43''), (''smac'', StringFlag ''ea:84:c9:05:be:86'')]]"

definition load_examples :: "settings list" where
  "load_examples =
     [[(''iface'', StringFlag ''veth-ran''), (''mode'', StringFlag ''native'')],
      [(''iface'', StringFlag ''veth-ran''), (''mode'', StringFlag ''native''),
       (''dl-iface'', StringFlag ''eth0''), (''dl-mode'', StringFlag ''generic'')]]"

definition del_examples :: "(subcommand \<times> settings) list" where
  "del_examples =
     [(DelTeidCmd, [(''teid'', StringFlag ''0xDEAD'')]), (DelUeipCmd, [(''ip'', StringFlag ''10.1.0.50'')]),
      (DelNatCmd, [(''nat-ip'', StringFlag ''192.168.10.73'')])]"

lemma example_tokens:
  "ParseMAC ''aa:bb:cc:dd:ee:ff'' = Inr (0xaa, 0xbb, 0xcc, 0xdd, 0xee, 0xff)"
  "ParseMAC ''11:22:33:44:55:66'' = Inr (0x11, 0x22, 0x33, 0x44, 0x55, 0x66)"
  "ParseMAC ''1a:d2:ab:7b:7e:43'' = Inr (0x1a, 0xd2, 0xab, 0x7b, 0x7e, 0x43)"
  "ParseMAC ''ea:84:c9:05:be:86'' = Inr (0xea, 0x84, 0xc9, 0x05, 0xbe, 0x86)"
  "ParseIP ''10.1.0.50'' = v4_in_v6_prefix @ [10, 1, 0, 50]"
  "ParseIP ''10.1.0.99'' = v4_in_v6_prefix @ [10, 1, 0, 99]"
  "ParseIP ''10.0.0.1'' = v4_in_v6_prefix @ [10, 0, 0, 1]"
  "ParseIP ''10.0.0.2'' = v4_in_v6_prefix @ [10, 0, 0, 2]"
  "ParseIP ''192.168.10.73'' = v4_in_v6_prefix @ [192, 168, 10, 73]"
  "ParseIP ''10.45.0.2'' = v4_in_v6_prefix @ [10, 45, 0, 2]"
  "ParseIP ''10.201.0.1'' = v4_in_v6_prefix @ [10, 201, 0, 1]"
  "ParseIP ''10.201.0.2'' = v4_in_v6_prefix @ [10, 201, 0, 2]"
  by code_simp+

lemma example_teids: "parseTEID ''0xDEAD'' = Inr 0xDEAD" "parseTEID ''0x1234'' = Inr 0x1234"
  by (simp_all add: parseTEID_def TrimSpace_token visible_def code_def HasPrefix_def ParseUint_def
      digit_val_def)

lemma add_teid_examples_vars:
  "map add_teid_vars add_teid_examples =
     (let x = add_teid_defaults\<lparr>addTeidTeid := ''0xDEAD'', addTeidOutIface := ''eth1'',
            addTeidDMac := ''aa:bb:cc:dd:ee:ff'', addTeidSMac := ''11:22:33:44:55:66''\<rparr>
      in [x, add_teid_defaults\<lparr>addTeidTeid := ''0x1234'', addTeidAction := ''drop''\<rparr>,
          x\<lparr>addTeidRatePPS := 100\<rparr>,
          x\<lparr>addTeidRatePPS := 100, addTeidQuarantineThreshold := 3, addTeidQuarantineSeconds := 30\<rparr>])"
  by code_simp

lemma add_ueip_examples_vars:
  "map add_ueip_vars add_ueip_examples =
     (let x = add_ueip_defaults\<lparr>addUeipIP := ''10.1.0.50'', addUeipOutIface := ''eth1'',
            addUeipDMac := ''aa:bb:cc:dd:ee:ff'', addUeipSMac := ''11:22:33:44:55:66''\<rparr>
      in [x, add_ueip_defaults\<lparr>addUeipIP := ''10.1.0.99'', addUeipAction := ''drop''\<rparr>,
          x\<lparr>addUeipIP := ''10.1.0.2'', addUeipAction := ''encap'', addUeipOutIface := ''veth-core0'',
            addUeipTeidOut := 0xBEEF, addUeipSrcIP := ''10.0.0.2'', addUeipDstIP := ''10.0.0.1''\<rparr>,
          x\<lparr>addUeipRatePPS := 50\<rparr>])"
  by code_simp

lemma add_nat_examples_vars:
  "map add_nat_vars add_nat_examples =
     [\<lparr>addNatNatIP = ''192.168.10.73'', addNatUeIP = ''10.45.0.2'', addNatOutIface = ''veth-ran'',
       addNatDMac = ''1a:d2:ab:7b:7e:43'', addNatSMac = ''ea:84:c9:05:be:86'', addNatTeidOut = 1,
       addNatDstIP = ''10.201.0.2'', addNatSrcIP = ''10.201.0.1''\<rparr>]"
  by code_simp

lemmas examples_eval = example_tokens example_teids forward_flags_def opt_flag_def egress_flag_def
  mac_flag_def ip_flag_def dst_port_flag_def ParseAction_def ValidateRule_def action_codes
  zero_rule_def zero_mac_def lab_parsed add_teid_defaults_def add_ueip_defaults_def

lemma all_map: "list_all P (map f xs) \<Longrightarrow> \<forall>x \<in> set xs. P (f x)"
  by (simp add: list_all_iff)

lemma add_teid_examples_build:
  assumes "ifaces ''eth1'' = Inr a" and "word_of_int a \<noteq> (0 :: u32)"
  shows "\<forall>x \<in> set add_teid_examples. \<exists>y. add_teid_build ifaces (add_teid_vars x) = Inr y"
proof (rule all_map [of "\<lambda>v. \<exists>y. add_teid_build ifaces v = Inr y" add_teid_vars])
  show "list_all (\<lambda>v. \<exists>y. add_teid_build ifaces v = Inr y) (map add_teid_vars add_teid_examples)"
    unfolding add_teid_examples_vars
    using assms by (simp add: add_teid_build_def examples_eval)
qed

lemma add_ueip_examples_build:
  assumes "ifaces ''eth1'' = Inr a" and "word_of_int a \<noteq> (0 :: u32)"
    and "ifaces ''veth-core0'' = Inr b" and "word_of_int b \<noteq> (0 :: u32)"
  shows "\<forall>x \<in> set add_ueip_examples. \<exists>y. add_ueip_build ifaces (add_ueip_vars x) = Inr y"
proof (rule all_map [of "\<lambda>v. \<exists>y. add_ueip_build ifaces v = Inr y" add_ueip_vars])
  show "list_all (\<lambda>v. \<exists>y. add_ueip_build ifaces v = Inr y) (map add_ueip_vars add_ueip_examples)"
    unfolding add_ueip_examples_vars
    using assms by (simp add: add_ueip_build_def examples_eval be32_def)
qed

lemma add_nat_examples_build:
  assumes "ifaces ''veth-ran'' = Inr a" and "word_of_int a \<noteq> (0 :: u32)"
  shows "\<forall>x \<in> set add_nat_examples. \<exists>y. add_nat_build ifaces (add_nat_vars x) = Inr y"
proof (rule all_map [of "\<lambda>v. \<exists>y. add_nat_build ifaces v = Inr y" add_nat_vars])
  show "list_all (\<lambda>v. \<exists>y. add_nat_build ifaces v = Inr y) (map add_nat_vars add_nat_examples)"
    unfolding add_nat_examples_vars
    using assms by (simp add: add_nat_build_def examples_eval not_ipv4_def be32_def)
qed

section \<open>A reference parser\<close>

text \<open>Enough of a command-line parser to run the commands whose flags are texts.\<close>

fun ref_flags :: "flag_set \<Rightarrow> string list \<Rightarrow> go_error + settings" where
  "ref_flags fs [] = Inr []"
| "ref_flags fs [x] = Inl (Message (''flag needs an argument: '' @ x))"
| "ref_flags fs (x # v # rest) =
     (case map_of fs (drop 2 x) of
        Some (StringFlag _) \<Rightarrow> check (ref_flags fs rest) (\<lambda>s. Inr ((drop 2 x, StringFlag v) # s))
      | _ \<Rightarrow> Inl (Message (''unknown flag: '' @ x)))"

definition ref_cobra :: cobra where
  "ref_cobra =
     \<lparr>Parse = (\<lambda>commands args. case args of
          [] \<Rightarrow> Inr None
        | name # rest \<Rightarrow>
            (case map_of commands name of
               None \<Rightarrow> Inl (Message (''unknown command '' @ name))
             | Some fs \<Rightarrow> check (ref_flags fs rest) (\<lambda>s. Inr (Some (name, s))))),
      RequiredError = (\<lambda>names. Required (hd names))\<rparr>"

definition ref_host :: "int \<Rightarrow> ref_sys cli_host" where
  "ref_host uid =
     \<lparr>KernelApi = ref_loader True, Interfaces = lab_ifaces, Getuid = uid, ClockGettime = Inr (5, 0),
      TuiRun = (\<lambda>d k. (Inr (), k))\<rparr>"

definition load_args :: "string list" where
  "load_args = [''load'', ''--iface'', ''veth-ran'', ''--dl-iface'', ''eth0'']"

lemma parse_load_args:
  "Parse ref_cobra registered load_args =
     Inr (Some (''load'', [(''iface'', StringFlag ''veth-ran''), (''dl-iface'', StringFlag ''eth0'')]))"
  by code_simp

lemma run_load_args:
  "\<exists>out k'. rootCmd_Execute ref_cobra (ref_host 0) [] load_args empty_sys = (Printed out, k')
     \<and> load_RunE (ref_loader True) lab_ifaces ''veth-ran'' ''native'' ''eth0'' ''generic'' empty_sys = (Inr (), k')"
proof -
  obtain k' where r: "load_RunE (ref_loader True) lab_ifaces ''veth-ran'' ''native'' ''eth0'' ''generic'' empty_sys = (Inr (), k')"
    using lab_load by blast
  have v: "map (string_var load_flag_set [(''iface'', StringFlag ''veth-ran''), (''dl-iface'', StringFlag ''eth0'')])
      [''iface'', ''mode'', ''dl-iface'', ''dl-mode''] = [''veth-ran'', ''native'', ''eth0'', ''generic'']"
    by code_simp
  have c: "command_named ''load'' = Some LoadCmd" using command_named_Use [of LoadCmd] by simp
  show ?thesis
    using r v
    by (simp add: rootCmd_Execute_def parse_load_args c ref_host_def PersistentPreRunE_def
        missing_flags_def RunE_def result_of_def)
qed

section \<open>Properties\<close>

text \<open>An invocation by another user than root, or without one of the flags its command requires, changes
  nothing and runs nothing: unless it only asked for help it exits with status 1 and an error.\<close>
theorem refused_invocation:
  assumes "Getuid h \<noteq> 0 \<or> (\<forall>name given c. Parse cb registered args = Inr (Some (name, given)) \<longrightarrow>
    command_named name = Some c \<longrightarrow> missing_flags c given \<noteq> [])"
  shows "\<exists>code err. Execute cb h evs args k = (code, err, k)
    \<and> (Parse cb registered args \<noteq> Inr None \<longrightarrow> code = 1 \<and> err \<noteq> None)"
  using assms
  by (auto simp: Execute_def rootCmd_Execute_def PersistentPreRunE_def split: sum.splits option.splits)

lemma refused_invocation_witness:
  "\<exists>err. Execute ref_cobra (ref_host 1000) [] load_args empty_sys = (1, err, empty_sys) \<and> err \<noteq> None
     \<and> fst (Execute ref_cobra (ref_host 0) [] load_args empty_sys) = 0"
proof -
  have "fst (Execute ref_cobra (ref_host 0) [] load_args empty_sys) = 0"
    using run_load_args by (auto simp: Execute_def)
  then show ?thesis
    using refused_invocation [of "ref_host 1000" ref_cobra load_args "[]" empty_sys]
    by (auto simp: parse_load_args ref_host_def)
qed

lemma not_isl: "\<not> isl x \<longleftrightarrow> (\<exists>y. x = Inr y)"
  by (cases x) auto

text \<open>The examples in the help texts work: on a host that has the interfaces they name, the flags of
  every example of the rule commands pass the required-flag check and build a valid rule, and those of
  \<open>load\<close>, \<open>del-teid\<close>, \<open>del-ueip\<close> and \<open>del-nat\<close> are accepted.\<close>
theorem documented_examples_accepted:
  assumes "ifaces ''eth1'' = Inr a" and "word_of_int a \<noteq> (0 :: u32)"
    and "ifaces ''veth-core0'' = Inr b" and "word_of_int b \<noteq> (0 :: u32)"
    and "ifaces ''veth-ran'' = Inr c" and "word_of_int c \<noteq> (0 :: u32)"
  shows "(\<forall>x \<in> set add_teid_examples. missing_flags AddTeidCmd x = []
      \<and> (\<exists>y. add_teid_build ifaces (add_teid_vars x) = Inr y))
    \<and> (\<forall>x \<in> set add_ueip_examples. missing_flags AddUeipCmd x = []
      \<and> (\<exists>y. add_ueip_build ifaces (add_ueip_vars x) = Inr y))
    \<and> (\<forall>x \<in> set add_nat_examples. missing_flags AddNatCmd x = []
      \<and> (\<exists>y. add_nat_build ifaces (add_nat_vars x) = Inr y))
    \<and> (\<forall>x \<in> set load_examples. string_var load_flag_set x ''iface'' \<noteq> []
      \<and> (\<exists>m. parseMode (string_var load_flag_set x ''mode'') = Inr m)
      \<and> (\<exists>m. parseMode (string_var load_flag_set x ''dl-mode'') = Inr m))
    \<and> (\<forall>(c, x) \<in> set del_examples. missing_flags c x = [])"
proof -
  have m: "list_all (\<lambda>x. missing_flags AddTeidCmd x = []) add_teid_examples"
    "list_all (\<lambda>x. missing_flags AddUeipCmd x = []) add_ueip_examples"
    "list_all (\<lambda>x. missing_flags AddNatCmd x = []) add_nat_examples"
    "list_all (\<lambda>(c, x). missing_flags c x = []) del_examples"
    "list_all (\<lambda>x. string_var load_flag_set x ''iface'' \<noteq> []
      \<and> \<not> isl (parseMode (string_var load_flag_set x ''mode''))
      \<and> \<not> isl (parseMode (string_var load_flag_set x ''dl-mode''))) load_examples"
    by code_simp+
  show ?thesis
    using m add_teid_examples_build [of ifaces a] add_ueip_examples_build [of ifaces a b]
      add_nat_examples_build [of ifaces c] assms
    by (simp add: list_all_iff not_isl)
qed

lemma documented_examples_accepted_witness:
  "\<exists>y. add_ueip_build (\<lambda>name. Inr (int (length name)))
     (add_ueip_vars [(''ip'', StringFlag ''10.1.0.99''), (''action'', StringFlag ''drop'')]) = Inr y"
  using documented_examples_accepted [of "\<lambda>name. Inr (int (length name))" 4 10 8]
  by (simp add: add_ueip_examples_def)

end
