(* ===== verification/Sessions.thy ===== *)
theory Sessions
  imports Cli
begin

text \<open>
  Sessions of the command line: what any sequence of invocations, successful or not, does to the maps.
  Every rule command is a list of writes (\<open>writes_of\<close>); a run carries out a prefix of it, all of it
  when it succeeds (\<open>performs\<close>, proved command by command from the rules for opening a map and for
  sequencing). The tables of rules are the abstract state (\<open>rule_tables\<close>), on which a write is an
  operation (\<open>apply_write\<close>).
\<close>

section \<open>Writes\<close>

datatype map_write =
    PutTeid u32 fwd_rule | PutUeip u32 fwd_rule | PutNat u32 fwd_rule
  | DelTeid u32 | DelUeip u32 | DelNat u32
  | AddPort u32

type_synonym pins = "string \<Rightarrow> map_fd option"
type_synonym contents = "map_fd \<Rightarrow> u32 \<Rightarrow> map_value option"

fun write_map :: "pins \<Rightarrow> map_write \<Rightarrow> contents \<Rightarrow> contents" where
  "write_map pins (PutTeid x r) E = cell_set E (the (pins PinTeidMap)) x (Some (RuleV r))"
| "write_map pins (PutUeip x r) E = cell_set E (the (pins PinUeipMap)) x (Some (RuleV r))"
| "write_map pins (PutNat x r) E = cell_set E (the (pins PinNatMap)) x (Some (RuleV r))"
| "write_map pins (DelTeid x) E = cell_set E (the (pins PinTeidMap)) x None"
| "write_map pins (DelUeip x) E = cell_set E (the (pins PinUeipMap)) x None"
| "write_map pins (DelNat x) E = cell_set E (the (pins PinNatMap)) x None"
| "write_map pins (AddPort i) E = cell_set E (the (pins PinTxPort)) i (Some (PortV i))"

text \<open>The pin of the map a write goes to.\<close>

fun pin_of :: "map_write \<Rightarrow> string" where
  "pin_of (PutTeid x r) = PinTeidMap"
| "pin_of (PutUeip x r) = PinUeipMap"
| "pin_of (PutNat x r) = PinNatMap"
| "pin_of (DelTeid x) = PinTeidMap"
| "pin_of (DelUeip x) = PinUeipMap"
| "pin_of (DelNat x) = PinNatMap"
| "pin_of (AddPort i) = PinTxPort"

text \<open>Writes to maps that are pinned lead from \<open>E\<close> to \<open>E'\<close>.\<close>

definition written :: "pins \<Rightarrow> map_write list \<Rightarrow> contents \<Rightarrow> contents \<Rightarrow> bool" where
  "written ps ws E E' \<longleftrightarrow> (\<forall>w \<in> set ws. ps (pin_of w) \<noteq> None) \<and> E' = fold (write_map ps) ws E"

lemma written_append: "written ps ws E E' \<Longrightarrow> written ps vs E' E'' \<Longrightarrow> written ps (ws @ vs) E E''"
  by (auto simp: written_def)

lemma written_Nil [simp]: "written ps [] E E' \<longleftrightarrow> E' = E"
  by (simp add: written_def)

text \<open>What the command line asks for: nothing if the command refuses its flags.\<close>

definition port_writes :: "u32 \<Rightarrow> map_write list" where
  "port_writes i = (if i = 0 then [] else [AddPort i])"

definition key_write :: "(u32 \<Rightarrow> map_write) \<Rightarrow> go_IP \<Rightarrow> map_write list" where
  "key_write f ip = (case ipKey ip of Inl e \<Rightarrow> [] | Inr key \<Rightarrow> [f key])"

definition writes_of :: "interfaces \<Rightarrow> subcommand \<Rightarrow> settings \<Rightarrow> map_write list" where
  "writes_of ifaces c given =
     (case c of
        AddTeidCmd \<Rightarrow>
          (case add_teid_build ifaces (add_teid_vars given) of Inl e \<Rightarrow> []
           | Inr (teid, rule) \<Rightarrow> PutTeid teid rule # port_writes (OutIfindex rule))
      | AddUeipCmd \<Rightarrow>
          (case add_ueip_build ifaces (add_ueip_vars given) of Inl e \<Rightarrow> []
           | Inr (ip, rule) \<Rightarrow> key_write (\<lambda>x. PutUeip x rule) ip)
      | AddNatCmd \<Rightarrow>
          (case add_nat_build ifaces (add_nat_vars given) of Inl e \<Rightarrow> []
           | Inr (ip, rule) \<Rightarrow> key_write (\<lambda>x. PutNat x rule) ip @ port_writes (OutIfindex rule))
      | DelTeidCmd \<Rightarrow>
          (case parseTEID (string_var del_teid_flag_set given ''teid'') of Inl e \<Rightarrow> []
           | Inr teid \<Rightarrow> [DelTeid teid])
      | DelUeipCmd \<Rightarrow> key_write DelUeip (ParseIP (string_var del_ueip_flag_set given ''ip''))
      | DelNatCmd \<Rightarrow> key_write DelNat (ParseIP (string_var del_nat_flag_set given ''nat-ip''))
      | _ \<Rightarrow> [])"

section \<open>A command is a prefix of its writes\<close>

context bpf_maps
begin

text \<open>With the pins \<open>ps\<close> the run \<open>m\<close> carries out a prefix of \<open>ws\<close>, all of it if it succeeds.\<close>

definition performs :: "pins \<Rightarrow> ('k, 'a) run \<Rightarrow> map_write list \<Rightarrow> bool" where
  "performs ps m ws \<longleftrightarrow> (\<forall>k r k'. pinned k = ps \<longrightarrow> m k = (r, k') \<longrightarrow> pinned k' = ps
     \<and> (\<exists>n. written ps (take n ws) (entries k) (entries k') \<and> (isl r \<or> n = length ws)))"

lemma performs_one:
  assumes "ps (pin_of w) \<noteq> None"
    and "\<And>k r k'. pinned k = ps \<Longrightarrow> m k = (r, k') \<Longrightarrow> pinned k' = ps
      \<and> entries k' = (if isl r then entries k else write_map ps w (entries k))"
  shows "performs ps m [w]"
  unfolding performs_def
proof (intro allI impI)
  fix k r k' assume p: "pinned k = ps" and m: "m k = (r, k')"
  show "pinned k' = ps \<and>
      (\<exists>n. written ps (take n [w]) (entries k) (entries k') \<and> (isl r \<or> n = length [w]))"
  proof (cases "isl r")
    case True
    then show ?thesis using assms(2) [OF p m] by (intro conjI exI [of _ 0]) auto
  next
    case False
    then show ?thesis using assms(2) [OF p m] assms(1)
      by (intro conjI exI [of _ 1]) (auto simp: written_def)
  qed
qed

lemma performs_fails: "performs ps (\<lambda>k. (Inl e, k)) ws"
  unfolding performs_def by (auto intro: exI [of _ 0])

lemma performs_returns: "performs ps (\<lambda>k. (Inr x, k)) []"
  unfolding performs_def by auto

lemma performs_andThen:
  assumes "performs ps m ws" and "\<And>x. performs ps (f x) vs"
  shows "performs ps (andThen m f) (ws @ vs)"
  unfolding performs_def
proof (intro allI impI)
  fix k r k' assume p: "pinned k = ps" and run: "andThen m f k = (r, k')"
  obtain r1 k1 where m: "m k = (r1, k1)" by fastforce
  from assms(1) p m obtain n where n: "pinned k1 = ps"
    "written ps (take n ws) (entries k) (entries k1)" "isl r1 \<or> n = length ws"
    unfolding performs_def by blast
  show "pinned k' = ps \<and> (\<exists>n. written ps (take n (ws @ vs)) (entries k) (entries k')
      \<and> (isl r \<or> n = length (ws @ vs)))"
  proof (cases r1)
    case (Inl e)
    then have "r = Inl e" "k' = k1" using run m by (auto simp: andThen_def)
    with n show ?thesis by (intro conjI exI [of _ "min n (length ws)"]) (auto simp: min_def)
  next
    case (Inr x)
    then have f: "f x k1 = (r, k')" and nl: "n = length ws" using run m n(3) by (auto simp: andThen_def)
    from assms(2) [of x] f n(1) obtain j where j: "pinned k' = ps"
      "written ps (take j vs) (entries k1) (entries k')" "isl r \<or> j = length vs"
      unfolding performs_def by blast
    with n(2) nl show ?thesis
      by (intro conjI exI [of _ "length ws + j"]) (auto intro: written_append)
  qed
qed

lemma performs_with_map:
  assumes "\<And>m. ps p = Some m \<Longrightarrow> performs ps (body m) ws"
  shows "performs ps (with_map api (open_pinned api p label) body) ws"
  unfolding performs_def
proof (intro allI impI)
  fix k r k' assume p: "pinned k = ps"
    and run: "with_map api (open_pinned api p label) body k = (r, k')"
  show "pinned k' = ps \<and> (\<exists>n. written ps (take n ws) (entries k) (entries k')
      \<and> (isl r \<or> n = length ws))"
  proof (cases "LoadPinnedMap api p k")
    case (Inl e)
    with run p show ?thesis
      by (auto simp: with_map_def andThen_def open_pinned_def intro: exI [of _ 0])
  next
    case (Inr m)
    then have m: "ps p = Some m" using load_pinned p by auto
    obtain r1 k1 where b: "body m k = (r1, k1)" by fastforce
    with run Inr have "r = r1" "k' = MapClose api m k1"
      by (auto simp: with_map_def andThen_def open_pinned_def)
    with assms [OF m] b p close_map show ?thesis unfolding performs_def by auto
  qed
qed

lemma performs_put_teid: "ps PinTeidMap = Some m \<Longrightarrow> performs ps (TeidMap_Put api m x r) [PutTeid x r]"
  by (rule performs_one)
    (auto simp: TeidMap_Put_def cell_set_def split: prod.splits option.splits dest: put_ok put_err)

lemma performs_put_ueip:
  assumes "ps PinUeipMap = Some m"
  shows "performs ps (UeipMap_Put api m ip r) (key_write (\<lambda>x. PutUeip x r) ip)"
proof (cases "ipKey ip")
  case (Inl e)
  then show ?thesis
    using performs_fails [of ps e "[]"] by (simp add: UeipMap_Put_def [abs_def] key_write_def)
next
  case (Inr x)
  have "performs ps (UeipMap_Put api m ip r) [PutUeip x r]"
    by (rule performs_one) (use Inr assms in \<open>auto simp: UeipMap_Put_def cell_set_def
        split: prod.splits option.splits dest: put_ok put_err\<close>)
  with Inr show ?thesis by (simp add: key_write_def)
qed

lemma performs_put_nat:
  assumes "ps PinNatMap = Some m"
  shows "performs ps (NatMap_Put api m ip r) (key_write (\<lambda>x. PutNat x r) ip)"
proof (cases "ipKey ip")
  case (Inl e)
  then show ?thesis
    using performs_fails [of ps e "[]"] by (simp add: NatMap_Put_def [abs_def] key_write_def)
next
  case (Inr x)
  have "performs ps (NatMap_Put api m ip r) [PutNat x r]"
    by (rule performs_one) (use Inr assms in \<open>auto simp: NatMap_Put_def cell_set_def
        split: prod.splits option.splits dest: put_ok put_err\<close>)
  with Inr show ?thesis by (simp add: key_write_def)
qed

text \<open>The two address maps delete as \<open>teid_map\<close> does, under the key of the address.\<close>

lemma address_delete:
  assumes "ipKey ip = Inr x"
  shows "UeipMap_Delete api m ip k = (r, k') \<Longrightarrow>
      \<exists>r'. TeidMap_Delete api m x k = (r', k') \<and> isl r' = isl r"
    and "NatMap_Delete api m ip k = (r, k') \<Longrightarrow>
      \<exists>r'. TeidMap_Delete api m x k = (r', k') \<and> isl r' = isl r"
  using assms
  by (auto simp: UeipMap_Delete_def NatMap_Delete_def TeidMap_Delete_def split: prod.splits option.splits)

lemma delete_effect:
  assumes "TeidMap_Delete api m x k = (r, k')"
  shows "pinned k' = pinned k \<and> entries k' = (if isl r then entries k else cell_set (entries k) m x None)"
proof (cases r)
  case (Inl e)
  then show ?thesis
    using assms by (auto simp: TeidMap_Delete_def split: prod.splits option.splits if_splits dest: delete_err)
next
  case (Inr u)
  with teid_delete_entries [of m x k k'] assms show ?thesis by (simp add: cell_set_def)
qed

lemma performs_del_teid:
  assumes "ps PinTeidMap = Some m"
  shows "performs ps (TeidMap_Delete api m x) [DelTeid x]"
  by (rule performs_one) (use assms in \<open>auto dest: delete_effect\<close>)

lemma performs_del_ueip:
  assumes "ps PinUeipMap = Some m"
  shows "performs ps (UeipMap_Delete api m ip) (key_write DelUeip ip)"
proof (cases "ipKey ip")
  case (Inl e)
  then show ?thesis
    using performs_fails [of ps e "[]"] by (simp add: UeipMap_Delete_def [abs_def] key_write_def)
next
  case (Inr x)
  have "performs ps (UeipMap_Delete api m ip) [DelUeip x]"
  proof (rule performs_one)
    fix k r k' assume p: "pinned k = ps" and "UeipMap_Delete api m ip k = (r, k')"
    from address_delete(1) [OF Inr this(2)] obtain r'
      where "TeidMap_Delete api m x k = (r', k')" "isl r' = isl r" by blast
    from delete_effect [OF this(1)] this(2) p assms
    show "pinned k' = ps \<and> entries k' = (if isl r then entries k else write_map ps (DelUeip x) (entries k))"
      by simp
  qed (use assms in simp)
  with Inr show ?thesis by (simp add: key_write_def)
qed

lemma performs_del_nat:
  assumes "ps PinNatMap = Some m"
  shows "performs ps (NatMap_Delete api m ip) (key_write DelNat ip)"
proof (cases "ipKey ip")
  case (Inl e)
  then show ?thesis
    using performs_fails [of ps e "[]"] by (simp add: NatMap_Delete_def [abs_def] key_write_def)
next
  case (Inr x)
  have "performs ps (NatMap_Delete api m ip) [DelNat x]"
  proof (rule performs_one)
    fix k r k' assume p: "pinned k = ps" and "NatMap_Delete api m ip k = (r, k')"
    from address_delete(2) [OF Inr this(2)] obtain r'
      where "TeidMap_Delete api m x k = (r', k')" "isl r' = isl r" by blast
    from delete_effect [OF this(1)] this(2) p assms
    show "pinned k' = ps \<and> entries k' = (if isl r then entries k else write_map ps (DelNat x) (entries k))"
      by simp
  qed (use assms in simp)
  with Inr show ?thesis by (simp add: key_write_def)
qed

lemma performs_ensure: "performs ps (EnsureTxPort api i) (port_writes i)"
proof (cases "i = 0")
  case True
  then show ?thesis
    using performs_returns [of ps "()"] by (simp add: EnsureTxPort_def [abs_def] port_writes_def)
next
  case False
  have "performs ps (TxPortMap_Ensure api t i) [AddPort i]" if "ps PinTxPort = Some t" for t
    by (rule performs_one) (use that in \<open>auto simp: TxPortMap_Ensure_def cell_set_def
        split: prod.splits option.splits dest: put_ok put_err\<close>)
  then have "performs ps (with_map api (OpenTxPortMap api) (\<lambda>t. TxPortMap_Ensure api t i)) [AddPort i]"
    unfolding OpenTxPortMap_def by (rule performs_with_map)
  with False show ?thesis by (simp add: EnsureTxPort_def [abs_def] port_writes_def)
qed

lemma performs_read:
  assumes "\<And>x. performs ps (f x) ws"
  shows "performs ps (\<lambda>k. case g k of Inl e \<Rightarrow> (Inl e, k) | Inr x \<Rightarrow> f x k) ws"
  unfolding performs_def
proof (intro allI impI)
  fix k r k' assume p: "pinned k = ps"
    and run: "(case g k of Inl e \<Rightarrow> (Inl e, k) | Inr x \<Rightarrow> f x k) = (r, k')"
  show "pinned k' = ps \<and> (\<exists>n. written ps (take n ws) (entries k) (entries k')
      \<and> (isl r \<or> n = length ws))"
  proof (cases "g k")
    case (Inl e)
    with run p show ?thesis by (auto intro: exI [of _ 0])
  next
    case (Inr x)
    with run p assms [of x] show ?thesis unfolding performs_def by auto
  qed
qed

lemma performs_last:
  assumes "performs ps m ws" shows "performs ps (andThen m (\<lambda>x k. (Inr (f x), k))) ws"
proof -
  have "performs ps (andThen m (\<lambda>x k. (Inr (f x), k))) (ws @ [])"
    by (intro performs_andThen assms performs_returns)
  then show ?thesis by simp
qed

text \<open>The commands.\<close>

lemma performs_add_teid:
  "performs ps (add_teid_RunE api ifaces (add_teid_vars given)) (writes_of ifaces AddTeidCmd given)"
proof (cases "add_teid_build ifaces (add_teid_vars given)")
  case (Inl e)
  then show ?thesis
    using performs_fails by (simp add: add_teid_RunE_def [abs_def] writes_of_def)
next
  case (Inr y)
  obtain x rule where y: "y = (x, rule)" by fastforce
  have "performs ps (andThen (TeidMap_Put api m x rule) (\<lambda>_. andThen (EnsureTxPort api i)
      (\<lambda>_ k. (Inr out, k)))) ([PutTeid x rule] @ port_writes i)" if "ps PinTeidMap = Some m" for m i out
    by (intro performs_andThen performs_put_teid that performs_last performs_ensure)
  from performs_with_map [OF this] show ?thesis
    using Inr y by (simp add: add_teid_RunE_def [abs_def] OpenTeidMap_def writes_of_def)
qed

lemma performs_add_nat:
  "performs ps (add_nat_RunE api ifaces (add_nat_vars given)) (writes_of ifaces AddNatCmd given)"
proof (cases "add_nat_build ifaces (add_nat_vars given)")
  case (Inl e)
  then show ?thesis
    using performs_fails by (simp add: add_nat_RunE_def [abs_def] writes_of_def)
next
  case (Inr y)
  obtain ip rule where y: "y = (ip, rule)" by fastforce
  have "performs ps (andThen (NatMap_Put api m ip rule) (\<lambda>_. andThen (EnsureTxPort api i)
      (\<lambda>_ k. (Inr out, k)))) (key_write (\<lambda>x. PutNat x rule) ip @ port_writes i)"
    if "ps PinNatMap = Some m" for m i out
    by (intro performs_andThen performs_put_nat that performs_last performs_ensure)
  from performs_with_map [OF this] show ?thesis
    using Inr y by (simp add: add_nat_RunE_def [abs_def] OpenNatMap_def writes_of_def)
qed

lemma performs_add_ueip:
  "performs ps (add_ueip_RunE api ifaces (add_ueip_vars given)) (writes_of ifaces AddUeipCmd given)"
proof (cases "add_ueip_build ifaces (add_ueip_vars given)")
  case (Inl e)
  then show ?thesis
    using performs_fails by (simp add: add_ueip_RunE_def [abs_def] writes_of_def)
next
  case (Inr y)
  obtain ip rule where y: "y = (ip, rule)" by fastforce
  have "performs ps (andThen (UeipMap_Put api m ip rule) (\<lambda>_ k. (Inr out, k)))
      (key_write (\<lambda>x. PutUeip x rule) ip)" if "ps PinUeipMap = Some m" for m out
    by (intro performs_last performs_put_ueip that)
  from performs_with_map [OF this] show ?thesis
    using Inr y by (simp add: add_ueip_RunE_def [abs_def] OpenUeipMap_def writes_of_def)
qed

lemma performs_del:
  "performs ps (del_teid_RunE api (string_var del_teid_flag_set given ''teid''))
     (writes_of ifaces DelTeidCmd given)"
  "performs ps (del_ueip_RunE api (string_var del_ueip_flag_set given ''ip''))
     (writes_of ifaces DelUeipCmd given)"
  "performs ps (del_nat_RunE api (string_var del_nat_flag_set given ''nat-ip''))
     (writes_of ifaces DelNatCmd given)"
proof -
  show "performs ps (del_teid_RunE api (string_var del_teid_flag_set given ''teid''))
      (writes_of ifaces DelTeidCmd given)"
    by (cases "parseTEID (string_var del_teid_flag_set given ''teid'')")
      (auto simp: del_teid_RunE_def [abs_def] writes_of_def OpenTeidMap_def
        intro!: performs_fails performs_with_map performs_last performs_del_teid)
  show "performs ps (del_ueip_RunE api (string_var del_ueip_flag_set given ''ip''))
      (writes_of ifaces DelUeipCmd given)"
    by (cases "ParseIP (string_var del_ueip_flag_set given ''ip'') = []")
      (auto simp: del_ueip_RunE_def [abs_def] writes_of_def OpenUeipMap_def
        intro!: performs_fails performs_with_map performs_last performs_del_ueip)
  show "performs ps (del_nat_RunE api (string_var del_nat_flag_set given ''nat-ip''))
      (writes_of ifaces DelNatCmd given)"
    by (cases "not_ipv4 (ParseIP (string_var del_nat_flag_set given ''nat-ip''))")
      (auto simp: del_nat_RunE_def [abs_def] writes_of_def OpenNatMap_def
        intro!: performs_fails performs_with_map performs_last performs_del_nat)
qed

lemma performs_list: "performs ps (list_RunE api now) []"
  unfolding list_RunE_def OpenTeidMap_def OpenUeipMap_def OpenNatMap_def
  by (intro performs_with_map performs_read performs_returns)

end

text \<open>The commands other than \<open>load\<close>, \<open>unload\<close> and \<open>dashboard\<close>.\<close>

definition map_command :: "subcommand \<Rightarrow> bool" where
  "map_command c \<longleftrightarrow> c \<notin> {LoadCmd, UnloadCmd, DashboardCmd}"

definition failed :: "cli_result \<Rightarrow> bool" where
  "failed r \<longleftrightarrow> (\<exists>e. r = Failed e)"

text \<open>From \<open>v\<close> to \<open>v'\<close> a prefix of \<open>ws\<close> is written, all of it unless the result is an error.\<close>

definition wrote :: "map_write list \<Rightarrow> cli_result \<Rightarrow> sysview \<Rightarrow> sysview \<Rightarrow> bool" where
  "wrote ws r v v' \<longleftrightarrow> map_pins v' = map_pins v
     \<and> (\<exists>n. written (map_pins v) (take n ws) (VEntries v) (VEntries v')
        \<and> (failed r \<or> n = length ws))"

context bpf_system
begin

lemma wrote_result:
  assumes "performs (map_pins (view k)) m ws" and "result_of f (m k) = (r, k')"
    and "\<And>x. \<not> failed (f x)"
  shows "wrote ws r (view k) (view k')"
proof -
  obtain q k1 where m: "m k = (q, k1)" by fastforce
  from assms(1) m have p: "map_pins (view k1) = map_pins (view k)"
    "\<exists>n. written (map_pins (view k)) (take n ws) (VEntries (view k)) (VEntries (view k1))
      \<and> (isl q \<or> n = length ws)"
    unfolding performs_def by blast+
  moreover have "k' = k1" "isl q \<longrightarrow> failed r"
    using assms(2) m by (auto simp: result_of_def failed_def split: sum.splits)
  ultimately show ?thesis unfolding wrote_def by auto
qed

lemma RunE_wrote:
  assumes "KernelApi h = lapi" and "map_command c" and "RunE h evs c given k = (r, k')"
  shows "wrote (writes_of (Interfaces h) c given) r (view k) (view k')"
proof -
  have line: "\<not> failed (one_line x)" "\<not> failed (Listing y)" for x y
    by (simp_all add: failed_def one_line_def)
  show ?thesis
  proof (cases c)
    case ListCmd
    with assms(1,3) have "result_of Listing (list_RunE (Maps lapi) (MonotonicNowNs (ClockGettime h)) k) = (r, k')"
      by (simp add: RunE_def)
    from wrote_result [OF performs_list this line(2)] ListCmd show ?thesis by (simp add: writes_of_def)
  next
    case StatsCmd
    with assms show ?thesis by (auto simp: RunE_def wrote_def writes_of_def)
  next
    case AddTeidCmd
    with assms(1,3) show ?thesis
      by (auto simp: RunE_def intro: wrote_result [OF performs_add_teid _ line(1)])
  next
    case AddUeipCmd
    with assms(1,3) show ?thesis
      by (auto simp: RunE_def intro: wrote_result [OF performs_add_ueip _ line(1)])
  next
    case AddNatCmd
    with assms(1,3) show ?thesis
      by (auto simp: RunE_def intro: wrote_result [OF performs_add_nat _ line(1)])
  next
    case DelTeidCmd
    with assms(1,3) show ?thesis
      by (auto simp: RunE_def intro: wrote_result [OF performs_del(1) _ line(1)])
  next
    case DelUeipCmd
    with assms(1,3) show ?thesis
      by (auto simp: RunE_def intro: wrote_result [OF performs_del(2) _ line(1)])
  next
    case DelNatCmd
    with assms(1,3) show ?thesis
      by (auto simp: RunE_def intro: wrote_result [OF performs_del(3) _ line(1)])
  qed (use assms(2) in \<open>simp_all add: map_command_def\<close>)
qed

end

section \<open>The tables of rules\<close>

text \<open>The abstract state: the three tables and the provisioned interfaces.\<close>

record rule_tables =
  TTeid :: "u32 \<Rightarrow> fwd_rule option"
  TUeip :: "u32 \<Rightarrow> fwd_rule option"
  TNat :: "u32 \<Rightarrow> fwd_rule option"
  TPorts :: "u32 set"

fun apply_write :: "map_write \<Rightarrow> rule_tables \<Rightarrow> rule_tables" where
  "apply_write (PutTeid x r) t = t\<lparr>TTeid := (TTeid t)(x \<mapsto> r)\<rparr>"
| "apply_write (PutUeip x r) t = t\<lparr>TUeip := (TUeip t)(x \<mapsto> r)\<rparr>"
| "apply_write (PutNat x r) t = t\<lparr>TNat := (TNat t)(x \<mapsto> r)\<rparr>"
| "apply_write (DelTeid x) t = t\<lparr>TTeid := (TTeid t)(x := None)\<rparr>"
| "apply_write (DelUeip x) t = t\<lparr>TUeip := (TUeip t)(x := None)\<rparr>"
| "apply_write (DelNat x) t = t\<lparr>TNat := (TNat t)(x := None)\<rparr>"
| "apply_write (AddPort i) t = t\<lparr>TPorts := insert i (TPorts t)\<rparr>"

definition tables_of :: "pins \<Rightarrow> contents \<Rightarrow> rule_tables" where
  "tables_of ps E =
     \<lparr>TTeid = (\<lambda>x. rule_of (E (the (ps PinTeidMap)) x)), TUeip = (\<lambda>x. rule_of (E (the (ps PinUeipMap)) x)),
      TNat = (\<lambda>x. rule_of (E (the (ps PinNatMap)) x)),
      TPorts = {i. E (the (ps PinTxPort)) i \<noteq> None}\<rparr>"

text \<open>The five maps are pinned and different.\<close>

definition rule_pins :: "string list" where
  "rule_pins = [PinTeidMap, PinUeipMap, PinNatMap, PinTxPort]"

definition all_pinned :: "pins \<Rightarrow> bool" where
  "all_pinned ps \<longleftrightarrow> (\<forall>p \<in> set rule_pins. ps p \<noteq> None) \<and> distinct (map ps rule_pins)"

lemma all_pinnedD:
  assumes "all_pinned ps"
  shows "the (ps PinTeidMap) \<noteq> the (ps PinUeipMap)" "the (ps PinTeidMap) \<noteq> the (ps PinNatMap)"
    "the (ps PinTeidMap) \<noteq> the (ps PinTxPort)" "the (ps PinUeipMap) \<noteq> the (ps PinNatMap)"
    "the (ps PinUeipMap) \<noteq> the (ps PinTxPort)" "the (ps PinNatMap) \<noteq> the (ps PinTxPort)"
  using assms by (auto simp: all_pinned_def rule_pins_def)

lemma tables_of_write:
  assumes "all_pinned ps"
  shows "tables_of ps (write_map ps w E) = apply_write w (tables_of ps E)"
  using all_pinnedD [OF assms] all_pinnedD [OF assms, symmetric]
  by (cases w) (auto simp: tables_of_def cell_set_def fun_eq_iff)

lemma tables_of_writes:
  "all_pinned ps \<Longrightarrow> tables_of ps (fold (write_map ps) ws E) = fold apply_write ws (tables_of ps E)"
  by (induction ws arbitrary: E) (simp_all add: tables_of_write)

section \<open>Sessions of commands\<close>

definition parsed_command :: "cobra \<Rightarrow> string list \<Rightarrow> subcommand option" where
  "parsed_command cb args =
     (case Parse cb registered args of Inr (Some (name, given)) \<Rightarrow> command_named name | _ \<Rightarrow> None)"

lemma execute_runs:
  assumes "rootCmd_Execute cb h evs args k = (r, k')"
  shows "k' = k \<and> (failed r \<or> r = HelpText \<and> Parse cb registered args = Inr None)
    \<or> (\<exists>name given c. Parse cb registered args = Inr (Some (name, given)) \<and> command_named name = Some c
        \<and> RunE h evs c given k = (r, k'))"
  using assms
  by (auto simp: rootCmd_Execute_def failed_def split: sum.splits option.splits prod.splits if_splits)

fun run_session :: "cobra \<Rightarrow> 'k cli_host \<Rightarrow> string list list \<Rightarrow> 'k \<Rightarrow> cli_result list \<times> 'k" where
  "run_session cb h [] k = ([], k)"
| "run_session cb h (args # session) k =
     (case rootCmd_Execute cb h [] args k of (r, k1) \<Rightarrow>
        case run_session cb h session k1 of (rs, k2) \<Rightarrow> (r # rs, k2))"

text \<open>The writes an invocation asks for.\<close>

definition asked :: "cobra \<Rightarrow> 'k cli_host \<Rightarrow> string list \<Rightarrow> map_write list" where
  "asked cb h args =
     (case Parse cb registered args of
        Inr (Some (name, given)) \<Rightarrow>
          (case command_named name of Some c \<Rightarrow> writes_of (Interfaces h) c given | None \<Rightarrow> [])
      | _ \<Rightarrow> [])"

definition map_commands :: "cobra \<Rightarrow> string list list \<Rightarrow> bool" where
  "map_commands cb session \<longleftrightarrow>
     (\<forall>args \<in> set session. \<forall>c. parsed_command cb args = Some c \<longrightarrow> map_command c)"

context bpf_system
begin

lemma execute_wrote:
  assumes "KernelApi h = lapi" and "\<forall>c. parsed_command cb args = Some c \<longrightarrow> map_command c"
    and "rootCmd_Execute cb h evs args k = (r, k')"
  shows "wrote (asked cb h args) r (view k) (view k')"
  using execute_runs [OF assms(3)]
proof (elim disjE conjE exE)
  assume "k' = k" and "failed r"
  then show ?thesis by (auto simp: wrote_def intro: exI [of _ 0])
next
  assume "k' = k" and "Parse cb registered args = Inr None"
  then show ?thesis by (auto simp: wrote_def asked_def)
next
  fix name given c
  assume p: "Parse cb registered args = Inr (Some (name, given))" "command_named name = Some c"
    and r: "RunE h evs c given k = (r, k')"
  then have "map_command c" using assms(2) by (auto simp: parsed_command_def)
  from RunE_wrote [OF assms(1) this r] p show ?thesis by (simp add: asked_def)
qed

lemma session_wrote:
  assumes "KernelApi h = lapi" and "map_commands cb session" and "all_pinned (map_pins (view k))"
    and "run_session cb h session k = (rs, k')"
  shows "\<exists>wss. length wss = length session \<and> map_pins (view k') = map_pins (view k)
    \<and> tables_of (map_pins (view k)) (VEntries (view k')) =
        fold apply_write (concat wss) (tables_of (map_pins (view k)) (VEntries (view k)))
    \<and> (\<forall>(args, r, ws) \<in> set (zip session (zip rs wss)).
        (\<exists>n. ws = take n (asked cb h args)) \<and> (failed r \<or> ws = asked cb h args))"
  using assms(2-4)
proof (induction session arbitrary: k rs)
  case Nil
  then show ?case by simp
next
  case (Cons args session)
  obtain r k1 where x: "rootCmd_Execute cb h [] args k = (r, k1)" by fastforce
  obtain rs1 where rs: "run_session cb h session k1 = (rs1, k')" "rs = r # rs1"
    using Cons.prems(3) x by (auto split: prod.splits)
  have one: "\<forall>c. parsed_command cb args = Some c \<longrightarrow> map_command c" and rest: "map_commands cb session"
    using Cons.prems(1) by (auto simp: map_commands_def)
  let ?ps = "map_pins (view k)"
  obtain n where n: "map_pins (view k1) = ?ps"
    "written ?ps (take n (asked cb h args)) (VEntries (view k)) (VEntries (view k1))"
    "failed r \<or> n = length (asked cb h args)"
    using execute_wrote [OF assms(1) one x] by (auto simp: wrote_def)
  have t: "tables_of ?ps (VEntries (view k1)) =
      fold apply_write (take n (asked cb h args)) (tables_of ?ps (VEntries (view k)))"
    using n(2) tables_of_writes [OF Cons.prems(2)] by (simp add: written_def)
  obtain wss where w: "length wss = length session" "map_pins (view k') = ?ps"
    "tables_of ?ps (VEntries (view k')) = fold apply_write (concat wss) (tables_of ?ps (VEntries (view k1)))"
    "\<forall>(args, r, ws) \<in> set (zip session (zip rs1 wss)).
        (\<exists>n. ws = take n (asked cb h args)) \<and> (failed r \<or> ws = asked cb h args)"
    using Cons.IH [OF rest _ rs(1)] Cons.prems(2) n(1) by auto
  show ?case
    by (rule exI [of _ "take n (asked cb h args) # wss"]) (use w t n(3) rs(2) in auto)
qed

end

end
