(* ===== verification/Forwarding.thy ===== *)
theory Forwarding
  imports DataPlane
begin

text \<open>
  What the XDP program does with a frame. \<open>classify\<close> is the specification of its parser, a total
  function without accesses or continuations; \<open>router_dispatch\<close> shows that the program is the
  dispatch on it. The other theorems follow by cases: accounting, configuration, tunnel round trips
  and NAT.
\<close>

section \<open>Classification\<close>

datatype frame_class =
    Truncated
  | Other
  | Downlink u32
  | BadChain
  | Gpdu nat u32 u32 u32

text \<open>
  A G-PDU carries the number of bytes between the Ethernet header and the inner packet, the TEID and
  the inner source and destination. \<open>inner_class\<close> looks at the inner packet at \<open>cursor\<close>.
\<close>

definition inner_class :: "frame \<Rightarrow> u32 \<Rightarrow> nat \<Rightarrow> frame_class" where
  "inner_class p teid cursor =
     (if length p < cursor + 20 then Truncated
      else if drop_bit 4 (p ! cursor) \<noteq> 4 then Other
      else Gpdu (cursor - 14) teid
        (be32 (p ! (cursor + 12)) (p ! (cursor + 13)) (p ! (cursor + 14)) (p ! (cursor + 15)))
        (be32 (p ! (cursor + 16)) (p ! (cursor + 17)) (p ! (cursor + 18)) (p ! (cursor + 19))))"

text \<open>Extension headers: up to \<open>n\<close> of them; \<open>None\<close> for a chain that leaves the frame or has length 0.\<close>

fun skip_chain :: "nat \<Rightarrow> frame \<Rightarrow> nat \<Rightarrow> u8 \<Rightarrow> nat option" where
  "skip_chain 0 p cursor nx = Some cursor"
| "skip_chain (Suc n) p cursor nx =
     (if nx = 0 then Some cursor
      else if length p \<le> cursor \<or> p ! cursor = 0 \<or> length p < cursor + unat (p ! cursor) * 4
      then None
      else skip_chain n p (cursor + unat (p ! cursor) * 4)
        (p ! (cursor + unat (p ! cursor) * 4 - 1)))"

definition gtpu_class :: "frame \<Rightarrow> nat \<Rightarrow> frame_class" where
  "gtpu_class p g =
     (if p ! g AND 0xE0 \<noteq> 0x20 \<or> p ! g AND 0x10 = 0 \<or> p ! (g + 1) \<noteq> 0xFF then Other
      else let teid = be32 (p ! (g + 4)) (p ! (g + 5)) (p ! (g + 6)) (p ! (g + 7)) in
        if p ! g AND 7 = 0 then inner_class p teid (g + 8)
        else if length p < g + 12 then Truncated
        else case skip_chain 4 p (g + 12) (p ! (g + 11)) of
          None \<Rightarrow> BadChain
        | Some cursor \<Rightarrow> inner_class p teid cursor)"

definition classify :: "frame \<Rightarrow> frame_class" where
  "classify p =
     (if length p < 14 then Truncated
      else if be16 (p ! 12) (p ! 13) \<noteq> 0x0800 then Other
      else if length p < 34 then Truncated
      else let ihl = unat (p ! 14 AND 0xf) * 4;
               daddr = be32 (p ! 30) (p ! 31) (p ! 32) (p ! 33) in
        if drop_bit 4 (p ! 14) \<noteq> 4 \<or> ihl < 20 then Other
        else if p ! 23 \<noteq> 17 then Downlink daddr
        else if length p < 14 + ihl then Other
        else if length p < 22 + ihl then Truncated
        else if be16 (p ! (16 + ihl)) (p ! (17 + ihl)) \<noteq> 2152 then Downlink daddr
        else if length p < 30 + ihl then Truncated
        else gtpu_class p (22 + ihl))"

text \<open>The walk of the code computes \<open>skip_chain\<close> and the size of what it skipped.\<close>

lemma ext_walk_skip_chain:
  "ext_walk n p cursor nx opt =
     Some (case skip_chain n p cursor nx of
        None \<Rightarrow> None | Some c \<Rightarrow> Some (c, opt + (c - cursor)))
   \<and> (\<forall>c. skip_chain n p cursor nx = Some c \<longrightarrow> cursor \<le> c)"
proof (induction n arbitrary: cursor nx opt)
  case 0
  then show ?case by simp
next
  case (Suc n)
  show ?case
  proof (cases "nx = 0 \<or> length p \<le> cursor \<or> p ! cursor = 0")
    case True
    then show ?thesis by (auto simp: Let_def)
  next
    case False
    then have pos: "4 \<le> unat (p ! cursor) * 4"
      using unat_gt_0 [of "p ! cursor"] by linarith
    let ?c = "cursor + unat (p ! cursor) * 4"
    from Suc.IH [of ?c "p ! (?c - 1)" "opt + unat (p ! cursor) * 4"] show ?thesis
      using False pos by (auto simp: Let_def split: option.splits)
  qed
qed

text \<open>What is done with a frame of a class.\<close>

definition dispatch_class ::
  "adjust_head \<Rightarrow> u64 \<Rightarrow> u64 \<Rightarrow> frame \<Rightarrow> dp_state \<Rightarrow> frame_class \<Rightarrow> outcome" where
  "dispatch_class adj now n p st c =
     (case c of
        Truncated \<Rightarrow> Some (XDP_DROP, p, st)
      | Other \<Rightarrow> go_pass n p st
      | Downlink daddr \<Rightarrow> try_encap adj now daddr n p st
      | BadChain \<Rightarrow> go_drop n p st
      | Gpdu strip teid src dst \<Rightarrow> handle_gpdu adj now n strip teid src dst p st)"

lemma dispatch_class_simps [simp]:
  "dispatch_class adj now n p st Truncated = Some (XDP_DROP, p, st)"
  "dispatch_class adj now n p st Other = go_pass n p st"
  "dispatch_class adj now n p st (Downlink daddr) = try_encap adj now daddr n p st"
  "dispatch_class adj now n p st BadChain = go_drop n p st"
  "dispatch_class adj now n p st (Gpdu strip teid src dst) =
     handle_gpdu adj now n strip teid src dst p st"
  by (simp_all add: dispatch_class_def)

lemma inner_dispatch:
  "hl + 16 + opt_sz = cursor - 14 \<Longrightarrow>
     handle_inner adj now n hl teid p st cursor opt_sz =
       dispatch_class adj now n p st (inner_class p teid cursor)"
  by (simp add: handle_inner_def cursor_advance_def inner_class_def ac_simps)

lemma options_dispatch:
  assumes "g + 8 \<le> length p"
  shows "gtpu_options n p st flags (g + 8) k =
     (if flags AND 7 = 0 then k (g + 8) 0
      else if length p < g + 12 then Some (XDP_DROP, p, st)
      else case skip_chain 4 p (g + 12) (p ! (g + 11)) of
          None \<Rightarrow> go_drop n p st
        | Some c \<Rightarrow> k c (4 + (c - (g + 12))))"
proof -
  have "g + 8 + 4 = g + 12" "g + 12 - 1 = g + 11" by simp_all
  then show ?thesis
    using ext_walk_skip_chain [of 4 p "g + 12" "p ! (g + 11)" 4]
    by (auto simp: gtpu_options_def cursor_advance_def GTPU_OPT_FLAG_MASK_def ac_simps
          split: option.splits)
qed

lemma gtpu_dispatch:
  assumes "g + 8 \<le> length p" and "g = 22 + hl"
  shows "handle_gtpu adj now n hl p st (g + 8) =
    dispatch_class adj now n p st (gtpu_class p g)"
proof -
  have off: "g + 8 - 8 = g" "g + 8 - 7 = g + 1" "g + 8 - 4 = g + 4" by simp_all
  have in0: "handle_inner adj now n hl teid p st (g + 8) 0 =
      dispatch_class adj now n p st (inner_class p teid (g + 8))" for teid
    by (rule inner_dispatch) (simp add: assms)
  have in1: "handle_inner adj now n hl teid p st c (4 + (c - (g + 12))) =
      dispatch_class adj now n p st (inner_class p teid c)"
    if "skip_chain 4 p (g + 12) (p ! (g + 11)) = Some c" for teid c
    by (rule inner_dispatch)
       (use that ext_walk_skip_chain [of 4 p "g + 12" "p ! (g + 11)" 4] assms in simp)
  have ld: "load8 p g = Some (p ! g)" "load8 p (g + 1) = Some (p ! (g + 1))"
    "load32 p (g + 4) = Some (be32 (p ! (g + 4)) (p ! (g + 5)) (p ! (g + 6)) (p ! (g + 7)))"
    using assms(1) by (simp_all add: ac_simps)
  show ?thesis
    unfolding handle_gtpu_def off ld options_dispatch [OF assms(1)] gtpu_class_def Let_def in0
    using in1 by (simp add: GTP_VERSION_1_def GTP_PT_BIT_def GTPU_MSG_GPDU_def del: ext_walk.simps
        split: option.split)
qed

lemma router_dispatch:
  "xdp_gtp_router adj now p st =
     dispatch_class adj now (of_nat (length p)) p st (classify p)"
proof -
  have ihl: "v AND 0xf < 5 \<longleftrightarrow> unat (v AND 0xf) * 4 < 20" for v :: u8
    by (simp add: word_less_nat_alt)
  have g: "30 + h \<le> length p \<Longrightarrow> handle_gtpu adj now n h p st (30 + h) =
      dispatch_class adj now n p st (gtpu_class p (22 + h))" for n h
    using gtpu_dispatch [of "22 + h" p h adj now n st] by simp
  show ?thesis
    unfolding xdp_gtp_router_def classify_def ihl
    by (simp add: cursor_advance_def ETH_P_IP_def GTP_UDP_PORT_def Let_def g)
qed

section \<open>Configuration and accounting\<close>

lemma map_lookup_write [simp]:
  "map_lookup s' (map_write s r st) = (if s' = s then Some r else map_lookup s' st)"
  by (cases s; cases s') auto

lemma map_write_frame [simp]:
  "stats_map (map_write s r st) = stats_map st" "tx_port (map_write s r st) = tx_port st"
  by (cases s; simp)+

lemma bump_stats_frame [simp]:
  "map_lookup s (bump_stats k n st) = map_lookup s st" "tx_port (bump_stats k n st) = tx_port st"
  by (cases s; simp add: bump_stats_def split: option.splits)
     (simp add: bump_stats_def split: option.splits)

lemma bump_stats_cong:
  "stats_map st1 = stats_map st \<Longrightarrow> stats_map (bump_stats k n st1) = stats_map (bump_stats k n st)"
  by (simp add: bump_stats_def split: option.split)

text \<open>The part of a rule that only the control plane writes.\<close>

definition settings_of :: "fwd_rule \<Rightarrow> fwd_rule" where
  "settings_of rule = (config_of rule)\<lparr>PktCount := 0, ByteCount := 0\<rparr>"

lemma settings_bump [simp]: "settings_of (bump_rule n rule) = settings_of rule"
  by (simp add: settings_of_def bump_rule_def config_of_def)

lemma settings_enforce: "enforce_policy now rule = (d, rule1) \<Longrightarrow> settings_of rule1 = settings_of rule"
  using enforce_policy_config [of now rule] by (simp add: settings_of_def)

definition same_config :: "dp_state \<Rightarrow> dp_state \<Rightarrow> bool" where
  "same_config st st1 \<longleftrightarrow> tx_port st1 = tx_port st
     \<and> (\<forall>s. map_option settings_of (map_lookup s st1) = map_option settings_of (map_lookup s st))"

lemma same_config_refl [simp]: "same_config st st"
  by (simp add: same_config_def)

lemma same_config_bump [simp]: "same_config st (bump_stats k n st1) = same_config st st1"
  by (simp add: same_config_def)

lemma same_config_write:
  "same_config st st1 \<Longrightarrow> map_option settings_of (map_lookup s st) = Some (settings_of r) \<Longrightarrow>
     same_config st (map_write s r st1)"
  unfolding same_config_def by (auto simp del: map_option_eq_Some simp: map_lookup_write)

definition verdict_key :: "verdict \<Rightarrow> u32" where
  "verdict_key v =
     (case v of XDP_PASS \<Rightarrow> STAT_PASS | XDP_DROP \<Rightarrow> STAT_DROP
      | XDP_REDIRECT _ \<Rightarrow> STAT_REDIRECT | XDP_ABORTED \<Rightarrow> STAT_REDIRECT)"

text \<open>The configuration stays, one counter is bumped once, and a passed frame is not touched.\<close>

definition accounted :: "u64 \<Rightarrow> frame \<Rightarrow> dp_state \<Rightarrow> outcome \<Rightarrow> bool" where
  "accounted n p st r \<longleftrightarrow> (\<forall>v q st'. r = Some (v, q, st') \<longrightarrow> same_config st st'
     \<and> stats_map st' = stats_map (bump_stats (verdict_key v) n st) \<and> (v = XDP_PASS \<longrightarrow> q = p))"

lemma accounted_rules:
  "(\<And>x. m = Some x \<Longrightarrow> accounted n p st (f x)) \<Longrightarrow> accounted n p st (m \<bind> f)"
  "(b \<Longrightarrow> accounted n p st r) \<Longrightarrow> (\<not> b \<Longrightarrow> accounted n p st s) \<Longrightarrow>
     accounted n p st (if b then r else s)"
  "(opt = None \<Longrightarrow> accounted n p st r) \<Longrightarrow> (\<And>x. opt = Some x \<Longrightarrow> accounted n p st (g x)) \<Longrightarrow>
     accounted n p st (case opt of None \<Rightarrow> r | Some x \<Rightarrow> g x)"
  "(\<And>x y. pr = (x, y) \<Longrightarrow> accounted n p st (h x y)) \<Longrightarrow>
     accounted n p st (case pr of (x, y) \<Rightarrow> h x y)"
  by (auto simp: accounted_def bind_eq_Some_conv split: option.splits prod.splits if_splits)

lemma accounted_go:
  assumes "same_config st st1" and "stats_map st1 = stats_map st"
  shows "accounted n p st (go_pass n p st1)" and "accounted n p st (go_drop n q st1)"
    and "map_option settings_of (map_lookup s st) = Some (settings_of r) \<Longrightarrow>
      accounted n p st (go_redirect n s r q st1)"
    and "map_option settings_of (map_lookup s st) = Some (settings_of r) \<Longrightarrow>
      accounted n p st (go_drop_counted n s r q st1)"
proof -
  note b = bump_stats_cong [OF assms(2)]
  show "accounted n p st (go_pass n p st1)" and d: "accounted n p st (go_drop n q st1)" for q
    using assms(1) b by (simp_all add: accounted_def go_pass_def go_drop_def verdict_key_def)
  assume s: "map_option settings_of (map_lookup s st) = Some (settings_of r)"
  then have w: "same_config st (map_write s (bump_rule n r) st1)"
    using same_config_write [OF assms(1)] by simp
  show "accounted n p st (go_redirect n s r q st1)"
    using w b bump_stats_cong [of "map_write s (bump_rule n r) st1" st] assms(2)
    by (auto simp: accounted_def go_redirect_def Let_def verdict_key_def redirect_out_def
        split: option.splits)
  show "accounted n p st (go_drop_counted n s r q st1)"
    using w bump_stats_cong [of "map_write s (bump_rule n r) st1" st] assms(2)
    by (simp add: accounted_def go_drop_counted_def go_drop_def verdict_key_def)
qed

text \<open>The state after enforcement on the rule in a slot.\<close>

lemma enforced_state:
  assumes "map_lookup s st = Some rule" and "enforce_policy now rule = (d, rule1)"
  shows "same_config st (map_write s rule1 st)"
    and "stats_map (map_write s rule1 st) = stats_map st"
    and "map_option settings_of (map_lookup s st) = Some (settings_of rule1)"
  using assms by (auto simp: settings_enforce intro!: same_config_write)

lemma accounted_try_encap_ueip: "accounted n p st (try_encap_ueip adj now key n p st)"
  unfolding try_encap_ueip_def Let_def
  by (intro accounted_rules accounted_go enforced_state [where s = "UeipSlot key"])
     (simp_all add: enforced_state [where s = "UeipSlot key"])

lemma accounted_try_encap: "accounted n p st (try_encap adj now key n p st)"
  unfolding try_encap_def Let_def
  by (intro accounted_rules accounted_try_encap_ueip accounted_go
      enforced_state [where s = "NatSlot key"])
     (simp_all add: enforced_state [where s = "NatSlot key"])

lemma find_rule_slot: "find_rule st teid ue = Some (s, rule) \<Longrightarrow> map_lookup s st = Some rule"
  by (auto simp: find_rule_def split: option.splits)

lemma accounted_handle_gpdu:
  "accounted n p st (handle_gpdu adj now n strip teid src dst p st)"
proof -
  have "accounted n p st (apply_action adj n strip src s rule1 p (map_write s rule1 st))"
    if "map_lookup s st = Some rule" "enforce_policy now rule = (False, rule1)" for s rule rule1
    unfolding apply_action_def
    by (intro accounted_rules accounted_go enforced_state [OF that])
  then show ?thesis
    unfolding handle_gpdu_def Let_def
    by (intro accounted_rules accounted_go)
       (auto simp: enforced_state settings_enforce dest!: find_rule_slot)
qed

lemma accounted_dispatch:
  "c \<noteq> Truncated \<Longrightarrow> accounted n p st (dispatch_class adj now n p st c)"
  by (cases c) (simp_all add: accounted_go accounted_try_encap accounted_handle_gpdu)

section \<open>Encapsulation\<close>

lemma encap_with_result:
  assumes "xdp_head adj" and "encap_with n headers adj p = Some (True, q)"
    and "\<And>t. length (headers t) = 14 + n"
  shows "34 \<le> length p \<and> q = headers (be16 (p ! 16) (p ! 17)) @ drop 14 p"
proof -
  have len: "34 \<le> length p" using assms(2) by (auto simp: encap_with_def split: if_splits)
  with assms(2) obtain r where r: "adj (- int n) p = Some r"
    and "14 + n \<le> length r" "store r 0 (headers (be16 (p ! 16) (p ! 17))) = Some q"
    by (auto simp: encap_with_def bind_eq_Some_conv split: option.splits if_splits)
  moreover obtain fresh where "length fresh = n" "r = fresh @ p"
    using xdp_head.grow [OF assms(1) r] by blast
  ultimately show ?thesis using len assms(3) by (auto simp: store_def)
qed

lemma encap_result:
  "xdp_head adj \<Longrightarrow> encap_gtpu adj rule p = Some (True, q) \<Longrightarrow>
     34 \<le> length p \<and> q = encap_headers rule (be16 (p ! 16) (p ! 17)) @ drop 14 p"
  "xdp_head adj \<Longrightarrow> encap_gtpu_5g adj rule p = Some (True, q) \<Longrightarrow>
     34 \<le> length p \<and> q = encap_5g_headers rule (be16 (p ! 16) (p ! 17)) @ drop 14 p"
  unfolding encap_gtpu_def encap_gtpu_5g_def by (erule encap_with_result; simp)+

text \<open>The headers the encapsulation writes are recognised by the parser.\<close>

lemma mac_bytes_cases: obtains a b c d e f where "mac_bytes m = [a, b, c, d, e, f]"
  by (cases m) auto

lemma classify_encap:
  assumes "20 \<le> length inner" and "drop_bit 4 (inner ! 0) = 4"
  shows "classify (encap_headers rule t @ inner) = Gpdu 36 (TeidOut rule)
     (be32 (inner ! 12) (inner ! 13) (inner ! 14) (inner ! 15))
     (be32 (inner ! 16) (inner ! 17) (inner ! 18) (inner ! 19))"
proof -
  obtain d1 d2 d3 d4 d5 d6 where d: "mac_bytes (DMac rule) = [d1, d2, d3, d4, d5, d6]"
    by (rule mac_bytes_cases)
  obtain s1 s2 s3 s4 s5 s6 where s: "mac_bytes (SMac rule) = [s1, s2, s3, s4, s5, s6]"
    by (rule mac_bytes_cases)
  show ?thesis
    using assms
    by (simp add: classify_def gtpu_class_def inner_class_def encap_headers_def new_eth_def d s
        outer_ip_def outer_udp_def gtpu_header_def put_be16_def put_be32_def gtp_consts wire Let_def
        be16_def)
qed

lemma skip_chain_numeral [simp]:
  "skip_chain (numeral k) p cursor nx =
     (if nx = 0 then Some cursor
      else if length p \<le> cursor \<or> p ! cursor = 0 \<or> length p < cursor + unat (p ! cursor) * 4
      then None
      else skip_chain (pred_numeral k) p (cursor + unat (p ! cursor) * 4)
        (p ! (cursor + unat (p ! cursor) * 4 - 1)))"
  by (simp add: numeral_eq_Suc)

lemma classify_encap_5g:
  assumes "20 \<le> length inner" and "drop_bit 4 (inner ! 0) = 4"
  shows "classify (encap_5g_headers rule t @ inner) = Gpdu 44 (TeidOut rule)
     (be32 (inner ! 12) (inner ! 13) (inner ! 14) (inner ! 15))
     (be32 (inner ! 16) (inner ! 17) (inner ! 18) (inner ! 19))"
proof -
  obtain d1 d2 d3 d4 d5 d6 where d: "mac_bytes (DMac rule) = [d1, d2, d3, d4, d5, d6]"
    by (rule mac_bytes_cases)
  obtain s1 s2 s3 s4 s5 s6 where s: "mac_bytes (SMac rule) = [s1, s2, s3, s4, s5, s6]"
    by (rule mac_bytes_cases)
  have "skip_chain 4 (encap_5g_headers rule t @ inner) 54 0x85 = Some 58"
    using assms
    by (simp add: encap_5g_headers_def new_eth_def d s outer_ip_def outer_udp_def
        gtpu_header_def put_be16_def put_be32_def)
  then show ?thesis
    using assms
    by (simp add: classify_def gtpu_class_def inner_class_def encap_5g_headers_def new_eth_def d s
        outer_ip_def outer_udp_def gtpu_header_def put_be16_def put_be32_def gtp_consts wire Let_def
        be16_def del: skip_chain_numeral)
qed

text \<open>A successful decapsulation leaves the inner packet behind a new Ethernet header.\<close>

lemma decap_result:
  assumes "xdp_head adj" and "adj (int n) p \<noteq> None" and "34 + n \<le> length p"
  shows "decap_gtpu adj rule n p =
     Some (drop_bit 4 (p ! (14 + n)) = 4, new_eth rule @ drop (14 + n) p)"
proof -
  obtain q where q: "adj (int n) p = Some q" using assms(2) by blast
  then have "q = drop n p" using xdp_head.shrink [OF assms(1)] by blast
  moreover have "(new_eth rule @ drop (14 + n) p) ! 14 = p ! (14 + n)"
    using assms(3) by (simp add: nth_append)
  moreover have "\<not> length p - n < 34" "\<not> length p - n < 14" using assms(3) by simp_all
  ultimately show ?thesis
    using q by (simp add: decap_gtpu_def store_in add.commute)
qed


section \<open>NAT\<close>

lemma word_sum_split: "even i \<Longrightarrow> i \<le> length xs \<Longrightarrow> word_sum (take i xs) + word_sum (drop i xs) = word_sum xs"
  using word_sum_append [of "take i xs" "drop i xs"] by simp

lemma word_sum_replace:
  assumes "even i" and "even (length bs)" and "i + length bs \<le> length xs"
  shows "word_sum (take i xs @ bs @ drop (i + length bs) xs) + word_sum (take (length bs) (drop i xs)) =
    word_sum xs + word_sum bs"
proof -
  have "word_sum xs = word_sum (take i xs) + word_sum (take (length bs) (drop i xs))
      + word_sum (drop (i + length bs) xs)"
  proof -
    have "length bs \<le> length (drop i xs)" "i \<le> length xs" using assms(3) by simp_all
    then show ?thesis
      using word_sum_split [of i xs] word_sum_split [of "length bs" "drop i xs"] assms(1,2)
      by (simp add: add.commute [of i])
  qed
  moreover have "word_sum (take i xs @ bs @ drop (i + length bs) xs) =
      word_sum (take i xs) + word_sum bs + word_sum (drop (i + length bs) xs)"
    using assms by (simp add: word_sum_append)
  ultimately show ?thesis by simp
qed

text \<open>The bytes from \<open>off\<close> to \<open>off + n\<close> of a frame, before and after a store.\<close>

definition region :: "nat \<Rightarrow> nat \<Rightarrow> frame \<Rightarrow> u8 list" where
  "region off n p = take n (drop off p)"

lemma region_store_in:
  assumes "store p (off + j) bs = Some q" and "j + length bs \<le> n" and "off + n \<le> length p"
  shows "region off n q =
    take j (region off n p) @ bs @ drop (j + length bs) (region off n p)"
proof -
  obtain a r b where p: "p = a @ r @ b" and l: "length a = off" "length r = n"
    using assms(3) by (metis append_take_drop_id length_drop length_take min.absorb2
        add_leD1 le_diff_conv2 add.commute)
  have "q = a @ (take j r @ bs @ drop (j + length bs) r) @ b"
    using assms(1,2) l by (auto simp: store_def p split: if_splits)
  then show ?thesis using l assms(2) by (simp add: region_def p)
qed

lemma store_nth:
  "store p i bs = Some q \<Longrightarrow> k < length p \<Longrightarrow>
     q ! k = (if i \<le> k \<and> k < i + length bs then bs ! (k - i) else p ! k)"
  by (auto simp: store_def nth_append split: if_splits)

lemma region_store_out:
  assumes "store p i bs = Some q" and "off + n \<le> i \<or> i + length bs \<le> off"
  shows "region off n q = region off n p"
  unfolding region_def
  by (rule nth_equalityI) (use assms store_length [OF assms(1)] in \<open>auto simp: store_nth\<close>)

lemma region_2: "i + 1 < length p \<Longrightarrow> region i 2 p = [p ! i, p ! (i + 1)]"
  by (rule nth_equalityI) (auto simp: region_def less_2_cases_iff)

lemma region_length: "off + n \<le> length p \<Longrightarrow> length (region off n p) = n"
  by (simp add: region_def)

lemma region_region: "j + m \<le> n \<Longrightarrow> take m (drop j (region off n p)) = region (off + j) m p"
  by (simp add: region_def drop_take min_def add.commute)

lemma word_sum_be16: "word_sum [a, b] = unat (be16 a b)"
  using word_sum_put_be16 [of "be16 a b"] by (simp only: put_be16_be16)

lemma region_2_sum:
  "i + 1 < length p \<Longrightarrow> word_sum (region i 2 p) = unat (be16 (p ! i) (p ! (i + 1)))"
  by (simp only: region_2 word_sum_be16)

lemma region_store_sum:
  assumes "store p (off + j) bs = Some q" and "even j" and "even (length bs)"
    and "j + length bs \<le> n" and "off + n \<le> length p"
  shows "word_sum (region off n q) + word_sum (region (off + j) (length bs) p) =
    word_sum (region off n p) + word_sum bs"
  using word_sum_replace [of j bs "region off n p"] assms
  by (simp add: region_store_in region_length region_region)

lemma region_update_check:
  assumes "update_check p (off + j) a b = Some q" and "even j"
    and "j + 2 \<le> n" and "off + n \<le> length p"
  defines "c \<equiv> be16 (p ! (off + j)) (p ! (off + j + 1))"
  shows "word_sum (region off n q) + unat c =
    word_sum (region off n p) + unat (csum_update_u32 c a b)"
proof -
  have l: "off + j + 1 < length p" using assms(3,4) by simp
  with assms(1) have "store p (off + j) (put_be16 (csum_update_u32 c a b)) = Some q"
    by (simp add: update_check_def c_def)
  from region_store_sum [OF this assms(2)] assms(3,4) region_2_sum [OF l] show ?thesis
    by (simp add: c_def)
qed

lemma update_check_out:
  assumes "update_check p i a b = Some q" and "off + n \<le> i \<or> i + 2 \<le> off"
  shows "region off n q = region off n p"
  using assms by (auto simp: update_check_def bind_eq_Some_conv intro!: region_store_out)

lemma region_nth: "region off n q = region off n p \<Longrightarrow> off \<le> k \<Longrightarrow> k < off + n \<Longrightarrow>
    off + n \<le> length p \<Longrightarrow> length q = length p \<Longrightarrow> q ! k = p ! k"
  by (drule arg_cong [where f = "\<lambda>r. r ! (k - off)"]) (simp add: region_def)

lemma update_check_if_set_out:
  assumes "update_check_if_set p i a b = Some q" and "off + n \<le> i \<or> i + 2 \<le> off"
  shows "region off n q = region off n p"
  using assms update_check_out [of p i a b q off n]
  by (auto simp: update_check_if_set_def bind_eq_Some_conv split: if_splits)

lemma update_check_if_set_length: "update_check_if_set p i a b = Some q \<Longrightarrow> length q = length p"
  by (auto simp: update_check_if_set_def bind_eq_Some_conv dest: update_check_length split: if_splits)

text \<open>Where the layer 4 checksum is, by protocol: TCP at 16, UDP at 6.\<close>

definition l4_check :: "u8 \<Rightarrow> nat option" where
  "l4_check proto = (if proto = 6 then Some 16 else if proto = 17 then Some 6 else None)"

lemma rewrite_l4_result:
  assumes "rewrite_l4 p ihl a b = Some (True, q)" and "24 \<le> length p"
  shows "case l4_check (p ! 23) of None \<Rightarrow> q = p
    | Some j \<Rightarrow> 14 + ihl + j + 2 \<le> length p
        \<and> update_check_if_set p (14 + ihl + j) a b = Some q"
  using assms
  by (auto simp: rewrite_l4_def l4_check_def bind_eq_Some_conv split: if_splits)

text \<open>The steps of a successful rewrite.\<close>

lemma nat_rewrite_steps:
  assumes "nat_rewrite field p a b = Some (True, q)" and "field = 12 \<or> field = 16"
  defines "ihl \<equiv> unat (p ! 14 AND 0xf) * 4"
  obtains p1 p2 where "34 \<le> length p" "drop_bit 4 (p ! 14) = 4" "20 \<le> ihl"
    "store p (14 + field) (put_be32 b) = Some p1" "length p1 = length p"
    "update_check p1 24 a b = Some p2" "length p2 = length p"
    "rewrite_l4 p2 ihl a b = Some (True, q)" "p2 ! 23 = p ! 23" "length q = length p"
proof -
  from assms(1) have l: "34 \<le> length p" "drop_bit 4 (p ! 14) = 4"
    by (auto simp: nat_rewrite_def split: if_splits)
  from assms(1) l obtain p1 p2 where
    p1: "store p (14 + field) (put_be32 b) = Some p1" and p2: "update_check p1 24 a b = Some p2"
    and r: "do {vi \<leftarrow> load8 p2 14; let ihl = unat (vi AND 0xf) * 4;
        if ihl < 20 then Some (False, p2) else rewrite_l4 p2 ihl a b} = Some (True, q)"
    by (auto simp: nat_rewrite_def bind_eq_Some_conv)
  have len: "length p1 = length p" "length p2 = length p"
    using store_length [OF p1] update_check_length [OF p2] by simp_all
  have "region 14 10 p2 = region 14 10 p1"
    using update_check_out [OF p2] by simp
  also have "\<dots> = region 14 10 p" using region_store_out [OF p1] assms(2) by auto
  finally have same: "p2 ! 14 = p ! 14" "p2 ! 23 = p ! 23"
    using len l region_nth [of 14 10 p2 p] by simp_all
  from r len l have i: "20 \<le> ihl" and f: "rewrite_l4 p2 ihl a b = Some (True, q)"
    by (auto simp: Let_def same ihl_def split: if_splits)
  have "length q = length p2"
    using rewrite_l4_result [OF f] len l update_check_if_set_length
    by (auto split: option.splits)
  then show ?thesis using that [OF l i p1 len(1) p2 len(2) f same(2)] len by simp
qed

text \<open>A rewrite replaces the address and keeps the IPv4 header checksum valid.\<close>

lemma nat_rewrite_header:
  assumes "nat_rewrite field p old new = Some (True, q)" and f: "field = 12 \<or> field = 16"
    and old: "region (14 + field) 4 p = put_be32 old"
  defines "ihl \<equiv> unat (p ! 14 AND 0xf) * 4"
  assumes len: "14 + ihl \<le> length p" and v: "verifies (word_sum (region 14 ihl p))"
  shows "region (14 + field) 4 q = put_be32 new \<and> verifies (word_sum (region 14 ihl q))"
proof -
  obtain p1 p2 where s: "34 \<le> length p" "drop_bit 4 (p ! 14) = 4" "20 \<le> ihl"
    "store p (14 + field) (put_be32 new) = Some p1" "length p1 = length p"
    "update_check p1 24 old new = Some p2" "length p2 = length p"
    "rewrite_l4 p2 ihl old new = Some (True, q)" "length q = length p"
    using assms(1) f unfolding ihl_def by (rule nat_rewrite_steps)
  have keep: "region off n q = region off n p2" if "off + n \<le> 14 + ihl" for off n
  proof (cases "l4_check (p2 ! 23)")
    case None
    then show ?thesis using rewrite_l4_result [OF s(8)] s by simp
  next
    case (Some j)
    then have "update_check_if_set p2 (14 + ihl + j) old new = Some q"
      using rewrite_l4_result [OF s(8)] s by simp
    then show ?thesis using that by (intro update_check_if_set_out) auto
  qed
  have e: "even field" "field + 4 \<le> ihl" using f s(3) by auto
  define c where "c = be16 (p ! 24) (p ! 25)"
  have c1: "p1 ! 24 = p ! 24" "p1 ! 25 = p ! 25"
    using store_nth [OF s(4)] f s(1) by auto
  have h1: "word_sum (region 14 ihl p1) + halves old = word_sum (region 14 ihl p) + halves new"
    using region_store_sum [OF s(4) e(1) _ _ len] e old by simp
  have h2: "word_sum (region 14 ihl p2) + unat c =
      word_sum (region 14 ihl p1) + unat (csum_update_u32 c old new)"
    using region_update_check [of p1 14 10 old new p2 ihl] s(3,5,6) len c1 by (simp add: c_def)
  have split: "word_sum (region 14 ihl p) = word_sum (region 14 10 p) + unat c
      + word_sum (region 26 (ihl - 12) p)"
  proof -
    have l: "length (region 14 ihl p) = ihl" using len by (rule region_length)
    have "word_sum (region 14 ihl p) = word_sum (take 10 (region 14 ihl p))
        + (word_sum (take 2 (drop 10 (region 14 ihl p))) + word_sum (drop 12 (region 14 ihl p)))"
      using word_sum_split [of 10 "region 14 ihl p"]
        word_sum_split [of 2 "drop 10 (region 14 ihl p)"] l s(3) by simp
    moreover have "take 10 (region 14 ihl p) = region 14 10 p"
      using region_region [of 0 10 ihl 14 p] s(3) by simp
    moreover have "word_sum (take 2 (drop 10 (region 14 ihl p))) = unat c"
      using region_region [of 10 2 ihl 14 p] region_2_sum [of 24 p] s(1,3)
      by (simp add: c_def)
    moreover have "drop 12 (region 14 ihl p) = region 26 (ihl - 12) p"
      by (simp add: region_def drop_take)
    ultimately show ?thesis by simp
  qed
  have "p ! 14 \<noteq> 0" using s(2) by auto
  then have pos: "0 < word_sum (region 14 10 p)"
  proof -
    have "0 < word_sum [p ! 14, p ! 15]" using \<open>p ! 14 \<noteq> 0\<close> by (simp add: unat_gt_0)
    moreover have "take 2 (region 14 10 p) = [p ! 14, p ! 15]"
      using region_region [of 0 2 10 14 p] region_2 [of 14 p] s(1) by simp
    moreover have "word_sum (take 2 (region 14 10 p)) + word_sum (drop 2 (region 14 10 p)) =
        word_sum (region 14 10 p)"
      using s(1) by (intro word_sum_split) (simp_all add: region_length)
    ultimately show ?thesis by (metis add_gr_0)
  qed
  have addr: "\<exists>r. word_sum (region 26 (ihl - 12) p) = halves old + r"
  proof -
    have l: "length (region 26 (ihl - 12) p) = ihl - 12" using len s(3) by (intro region_length) simp
    have "word_sum (region 26 (ihl - 12) p) = word_sum (take (field - 12) (region 26 (ihl - 12) p))
        + (word_sum (take 4 (drop (field - 12) (region 26 (ihl - 12) p)))
           + word_sum (drop 4 (drop (field - 12) (region 26 (ihl - 12) p))))"
      using word_sum_split [of "field - 12" "region 26 (ihl - 12) p"]
        word_sum_split [of 4 "drop (field - 12) (region 26 (ihl - 12) p)"] l s(3) f by auto
    moreover have "take 4 (drop (field - 12) (region 26 (ihl - 12) p)) = put_be32 old"
      using region_region [of "field - 12" 4 "ihl - 12" 26 p] f s(3) old by auto
    ultimately show ?thesis by (simp add: ac_simps exI [of _ "_ + _"])
  qed
  then obtain r where r: "word_sum (region 26 (ihl - 12) p) = halves old + r" by blast
  let ?rest = "word_sum (region 14 10 p) + r"
  have "verifies (?rest + halves old + unat c)" using v split r by (simp add: ac_simps)
  from csum_update_verifies [OF this] pos
  have "verifies (?rest + halves new + unat (csum_update_u32 c old new))" by simp
  moreover have "word_sum (region 14 ihl p2) =
      ?rest + halves new + unat (csum_update_u32 c old new)"
    using h1 h2 split r by linarith
  moreover have "region (14 + field) 4 p2 = put_be32 new"
  proof -
    have "region (14 + field) 4 p1 = put_be32 new"
      using region_store_in [of p "14 + field" 0 "put_be32 new" p1 4] s(1,4) f
      by (auto simp: region_length)
    moreover have "region (14 + field) 4 p2 = region (14 + field) 4 p1"
      using update_check_out [OF s(6)] f by auto
    ultimately show ?thesis by simp
  qed
  ultimately show ?thesis using keep e by simp
qed

text \<open>
  The same for a TCP or UDP checksum that is set: \<open>rest\<close> is the sum of the other words of the
  pseudo-header (the other address, the protocol and the length), which the rewrite does not touch.
\<close>

lemma nat_rewrite_segment:
  assumes "nat_rewrite field p old new = Some (True, q)" and f: "field = 12 \<or> field = 16"
  defines "ihl \<equiv> unat (p ! 14 AND 0xf) * 4"
  assumes j: "l4_check (p ! 23) = Some j"
    and set: "be16 (p ! (14 + ihl + j)) (p ! (15 + ihl + j)) \<noteq> 0" and "0 < rest"
    and v: "verifies (rest + halves old + word_sum (drop (14 + ihl) p))"
  shows "verifies (rest + halves new + word_sum (drop (14 + ihl) q))"
proof -
  obtain p1 p2 where s: "34 \<le> length p" "drop_bit 4 (p ! 14) = 4" "20 \<le> ihl"
    "store p (14 + field) (put_be32 new) = Some p1" "length p1 = length p"
    "update_check p1 24 old new = Some p2" "length p2 = length p"
    "rewrite_l4 p2 ihl old new = Some (True, q)" "p2 ! 23 = p ! 23" "length q = length p"
    using assms(1) f unfolding ihl_def by (rule nat_rewrite_steps)
  let ?o = "14 + ihl" and ?n = "length p - (14 + ihl)"
  have u: "update_check_if_set p2 (?o + j) old new = Some q" and l: "?o + j + 2 \<le> length p"
    using rewrite_l4_result [OF s(8)] s(1,7,9) j by auto
  have seg: "drop ?o r = region ?o ?n r" if "length r = length p" for r
    using that by (simp add: region_def)
  have r: "region ?o ?n p2 = region ?o ?n p"
    using update_check_out [OF s(6)] region_store_out [OF s(4)] s(3) f by auto
  then have nth: "p2 ! k = p ! k" if "?o \<le> k" "k < length p" for k
    using that s(7) by (intro region_nth [of ?o ?n]) auto
  define c where "c = be16 (p2 ! (?o + j)) (p2 ! (?o + j + 1))"
  have "c \<noteq> 0" using set nth [of "?o + j"] nth [of "?o + j + 1"] l by (simp add: c_def ac_simps)
  then have u': "update_check p2 (?o + j) old new = Some q"
    using u l s(7) by (simp add: update_check_if_set_def c_def)
  have ej: "even j" using j by (auto simp: l4_check_def split: if_splits)
  have h: "word_sum (region ?o ?n q) + unat c =
      word_sum (region ?o ?n p) + unat (csum_update_u32 c old new)"
    using region_update_check [OF u' ej, of ?n] l s(7) r by (simp add: c_def)
  have "\<exists>others. word_sum (region ?o ?n p) = others + unat c"
  proof -
    have len: "length (region ?o ?n p2) = ?n" using s(7) by (simp add: region_def)
    have "word_sum (region ?o ?n p2) = word_sum (take j (region ?o ?n p2))
        + (word_sum (take 2 (drop j (region ?o ?n p2)))
           + word_sum (drop 2 (drop j (region ?o ?n p2))))"
      using word_sum_split [of j "region ?o ?n p2"] word_sum_split [of 2 "drop j (region ?o ?n p2)"]
        len l ej by simp
    moreover have "word_sum (take 2 (drop j (region ?o ?n p2))) = unat c"
      using region_region [of j 2 ?n ?o p2] region_2_sum [of "?o + j" p2] l s(7) by (simp add: c_def)
    ultimately have "word_sum (region ?o ?n p2) = (word_sum (take j (region ?o ?n p2))
        + word_sum (drop 2 (drop j (region ?o ?n p2)))) + unat c" by linarith
    then show ?thesis unfolding r by blast
  qed
  then obtain others where o: "word_sum (region ?o ?n p) = others + unat c" by blast
  have "verifies ((rest + others) + halves old + unat c)"
    using v o seg [of p] by (simp add: ac_simps)
  from csum_update_verifies [OF this, of new] \<open>0 < rest\<close>
  have "verifies ((rest + others) + halves new + unat (csum_update_u32 c old new))" by simp
  moreover have "word_sum (region ?o ?n q) = others + unat (csum_update_u32 c old new)"
    using h o by linarith
  ultimately show ?thesis using seg [OF s(10)] by (simp add: ac_simps)
qed

text \<open>
  What a rewrite may write: the address, the header checksum, and the layer 4 checksum, whose place
  follows from the protocol and the header length alone.
\<close>

definition nat_cells :: "nat \<Rightarrow> frame \<Rightarrow> nat set" where
  "nat_cells field p =
     {14 + field..<18 + field} \<union> {24, 25} \<union>
     (case l4_check (p ! 23) of None \<Rightarrow> {}
      | Some j \<Rightarrow> let i = 14 + unat (p ! 14 AND 0xf) * 4 + j
          in if be16 (p ! i) (p ! (i + 1)) = 0 then {} else {i, i + 1})"

lemma update_check_nth:
  "update_check p i a b = Some q \<Longrightarrow> k < length p \<Longrightarrow> k \<notin> {i, i + 1} \<Longrightarrow> q ! k = p ! k"
  by (auto simp: update_check_def bind_eq_Some_conv store_nth)

lemma nat_rewrite_frame:
  assumes "nat_rewrite field p old new = Some (True, q)" and "field = 12 \<or> field = 16"
  shows "length q = length p" and "k < length p \<Longrightarrow> k \<notin> nat_cells field p \<Longrightarrow> q ! k = p ! k"
proof -
  let ?ihl = "unat (p ! 14 AND 0xf) * 4"
  obtain p1 p2 where s: "34 \<le> length p" "20 \<le> ?ihl"
    "store p (14 + field) (put_be32 new) = Some p1" "length p1 = length p"
    "update_check p1 24 old new = Some p2" "length p2 = length p"
    "rewrite_l4 p2 ?ihl old new = Some (True, q)" "p2 ! 23 = p ! 23" "length q = length p"
    using assms by (rule nat_rewrite_steps)
  show "length q = length p" by (rule s(9))
  have p2: "p2 ! i = p ! i" if "i < length p" "i \<notin> {14 + field..<18 + field}" "i \<notin> {24, 25}" for i
    using that update_check_nth [OF s(5)] store_nth [OF s(3)] s(4) by auto
  show "q ! k = p ! k" if k: "k < length p" "k \<notin> nat_cells field p"
  proof (cases "l4_check (p ! 23)")
    case None
    then show ?thesis using rewrite_l4_result [OF s(7)] s(1,6,8) p2 [of k] k by (simp add: nat_cells_def)
  next
    case (Some j)
    let ?i = "14 + ?ihl + j"
    have u: "update_check_if_set p2 ?i old new = Some q" "?i + 2 \<le> length p"
      using rewrite_l4_result [OF s(7)] s(1,6,8) Some by auto
    have "p2 ! ?i = p ! ?i" "p2 ! (?i + 1) = p ! (?i + 1)"
      using p2 [of ?i] p2 [of "?i + 1"] u(2) s(2) assms(2) by auto
    then show ?thesis
      using u s(6) p2 [of k] k Some update_check_nth [of p2 ?i old new q k]
      by (auto simp: nat_cells_def update_check_if_set_def bind_eq_Some_conv Let_def split: if_splits)
  qed
qed

section \<open>The fast paths\<close>

lemma settings_fields:
  assumes "settings_of r1 = settings_of r"
  shows "Action r1 = Action r" "OutIfindex r1 = OutIfindex r" "DMac r1 = DMac r" "SMac r1 = SMac r"
    "NatIP r1 = NatIP r" "TeidOut r1 = TeidOut r" "DstIP r1 = DstIP r" "SrcIP r1 = SrcIP r"
    "RatePPS r1 = RatePPS r" "QuarantineThreshold r1 = QuarantineThreshold r"
    "QuarantineSeconds r1 = QuarantineSeconds r"
  using arg_cong [OF assms, of Action] arg_cong [OF assms, of OutIfindex]
    arg_cong [OF assms, of DMac] arg_cong [OF assms, of SMac] arg_cong [OF assms, of NatIP]
    arg_cong [OF assms, of TeidOut] arg_cong [OF assms, of DstIP] arg_cong [OF assms, of SrcIP]
    arg_cong [OF assms, of RatePPS] arg_cong [OF assms, of QuarantineThreshold]
    arg_cong [OF assms, of QuarantineSeconds]
  by (simp_all add: settings_of_def config_of_def)

lemma map_write_twice [simp]: "map_write s r (map_write s r' st) = map_write s r st"
  by (cases s) simp_all

lemma redirect_out_frame [simp]:
  "redirect_out (map_write s r st) i = redirect_out st i"
  "redirect_out (bump_stats k n st) i = redirect_out st i"
  by (simp_all add: redirect_out_def)

lemma go_redirect_result:
  "go_redirect n s r q (map_write s r st) = Some (redirect_out st (OutIfindex r), q,
     bump_stats STAT_REDIRECT n (map_write s (bump_rule n r) st))"
  by (simp add: go_redirect_def Let_def)

lemma inner_class_Gpdu:
  "inner_class p teid cursor = Gpdu strip t src dst \<Longrightarrow> 14 \<le> cursor \<Longrightarrow>
     34 + strip \<le> length p \<and> drop_bit 4 (p ! (14 + strip)) = 4"
  by (auto simp: inner_class_def split: if_splits)

lemma classify_Gpdu:
  assumes "classify p = Gpdu strip teid src dst"
  shows "34 + strip \<le> length p" and "drop_bit 4 (p ! (14 + strip)) = 4"
proof -
  have g: "gtpu_class p g = Gpdu strip teid src dst \<Longrightarrow> 14 \<le> g \<Longrightarrow>
      34 + strip \<le> length p \<and> drop_bit 4 (p ! (14 + strip)) = 4" for g
    using ext_walk_skip_chain [of 4 p "g + 12" "p ! (g + 11)" 0]
    by (auto simp: gtpu_class_def Let_def dest!: inner_class_Gpdu split: if_splits option.splits
        simp del: skip_chain_numeral)
  have "34 + strip \<le> length p \<and> drop_bit 4 (p ! (14 + strip)) = 4"
    using assms by (auto simp: classify_def Let_def dest!: g split: if_splits)
  then show "34 + strip \<le> length p" and "drop_bit 4 (p ! (14 + strip)) = 4" by auto
qed

lemma gpdu_admitted:
  assumes "classify p = Gpdu strip teid src dst" and "find_rule st teid dst = Some (s, rule)"
    and "enforce_policy now rule = (False, r1)"
  shows "xdp_gtp_router adj now p st =
    apply_action adj (of_nat (length p)) strip src s r1 p (map_write s r1 st)"
  using assms by (simp add: router_dispatch handle_gpdu_def Let_def)

lemma gpdu_decap:
  assumes "xdp_head adj" and c: "classify p = Gpdu strip teid src dst"
    and f: "find_rule st teid dst = Some (s, rule)" and e: "enforce_policy now rule = (False, r1)"
    and a: "Action rule = ActionDecapFwd" and "NatIP rule = 0" and "adj (int strip) p \<noteq> None"
  shows "xdp_gtp_router adj now p st = Some (redirect_out st (OutIfindex rule),
    new_eth rule @ drop (14 + strip) p,
    bump_stats STAT_REDIRECT (of_nat (length p))
      (map_write s (bump_rule (of_nat (length p)) r1) st))"
proof -
  note fl = settings_fields [OF settings_enforce [OF e]]
  have eth: "new_eth r1 = new_eth rule" by (simp add: new_eth_def fl)
  have d: "decap_gtpu adj r1 strip p = Some (True, new_eth rule @ drop (14 + strip) p)"
    using decap_result [OF assms(1,7), of r1] classify_Gpdu [OF c] by (simp add: eth)
  show ?thesis
    using assms(6) a
    by (simp add: gpdu_admitted [OF c f e] apply_action_def d fl go_redirect_result)
qed

section \<open>Properties\<close>

text \<open>C5: no input makes the program read or write outside the frame: for every behaviour of
  \<open>bpf_xdp_adjust_head\<close>, every frame and every contents of the maps, the run ends with a verdict.\<close>
theorem router_memory_safe:
  "\<exists>v q st'. xdp_gtp_router adj now p st = Some (v, q, st')"
  using safe_router [of adj now p st] by (auto simp: safe_def)

text \<open>C13: the program, with its nested cursor advances and its bounded walk over the extension headers,
  is the dispatch on the class of the frame: truncated frames are dropped, foreign ones passed,
  downlink candidates go to \<open>try_encap\<close> and G-PDUs to the rule of their TEID or UE address.\<close>
theorem router_is_dispatch:
  "xdp_gtp_router adj now p st =
     dispatch_class adj now (of_nat (length p)) p st (classify p)"
  by (rule router_dispatch)

text \<open>C14: a frame that is not truncated is counted exactly once, under the counter of its verdict (a
  redirect that finds no devmap entry and aborts is counted as a redirect); a truncated frame is
  dropped without being counted; no run changes the settings of a rule, adds or removes one or
  touches \<open>tx_port\<close>; and a frame that is passed is left as it arrived.\<close>
theorem router_accounting:
  assumes "xdp_gtp_router adj now p st = Some (v, q, st')"
  shows "if classify p = Truncated then v = XDP_DROP \<and> q = p \<and> st' = st
    else same_config st st' \<and> (v = XDP_PASS \<longrightarrow> q = p)
      \<and> stats_map st' = stats_map (bump_stats (verdict_key v) (of_nat (length p)) st)"
  using assms accounted_dispatch [of "classify p" "of_nat (length p)" p st adj now]
  by (auto simp: router_dispatch accounted_def)

text \<open>A downlink ping to a UE address without rules, and counters at 0.\<close>

definition demo_state :: dp_state where
  "demo_state = \<lparr>teid_map = Map.empty, ueip_map = Map.empty, nat_map = Map.empty,
     tx_port = [5 \<mapsto> 5], stats_map = (\<lambda>k. if k < 4 then Some (0, 0) else None)\<rparr>"

definition demo_ping :: frame where
  "demo_ping = replicate 12 0 @ [8, 0] @ [0x45, 0, 0, 28, 0, 0, 0, 0, 64, 1, 0, 0] @
     [8, 8, 8, 8] @ [10, 1, 0, 2] @ replicate 8 0"

lemma demo_ping_facts:
  "length demo_ping = 42" "drop_bit 4 (demo_ping ! 14) = 4"
  "unat (be16 (demo_ping ! 16) (demo_ping ! 17)) = 28"
  by code_simp+

lemma demo_ping_class: "classify demo_ping = Downlink (be32 10 1 0 2)"
  by code_simp

lemma router_accounting_witness:
  "\<exists>v q st'. xdp_gtp_router (ref_adjust 256) 0 demo_ping demo_state = Some (v, q, st')
     \<and> (v = XDP_PASS \<longrightarrow> q = demo_ping)
     \<and> stats_map st' = stats_map (bump_stats (verdict_key v) 42 demo_state)"
proof -
  obtain v q st' where r: "xdp_gtp_router (ref_adjust 256) 0 demo_ping demo_state = Some (v, q, st')"
    using safe_router [of "ref_adjust 256" 0 demo_ping demo_state] by (auto simp: safe_def)
  have "length demo_ping = 42" by (simp add: demo_ping_def)
  with r router_accounting [OF r] show ?thesis by (auto simp: demo_ping_class)
qed

text \<open>C7: an IPv4 packet wrapped by either encapsulation and received by a router whose rule for the TEID is
  a decapsulation without NAT that admits the packet (not quarantined, and a slot left under its cap)
  comes out, when the kernel can trim the headers, behind a fresh Ethernet header with every byte of
  the inner packet (from its IP header on) unchanged; it goes to the redirect for the rule's interface
  (which delivers it when the devmap has that interface) and is counted on the rule.\<close>
theorem tunnel_roundtrip:
  assumes "xdp_head adj" and "xdp_head adj'"
    and enc: "encap_gtpu adj rule p = Some (True, q) \<or> encap_gtpu_5g adj rule p = Some (True, q)"
    and "drop_bit 4 (p ! 14) = 4"
    and "teid_map st (TeidOut rule) = Some d"
    and "Action d = ActionDecapFwd" and "NatIP d = 0" and "enforce_policy now d = (False, d1)"
    and "\<forall>n \<in> {36, 44}. adj' (int n) q \<noteq> None"
  shows "xdp_gtp_router adj' now q st = Some (redirect_out st (OutIfindex d),
    new_eth d @ drop 14 p,
    bump_stats STAT_REDIRECT (of_nat (length q))
      (map_write (TeidSlot (TeidOut rule)) (bump_rule (of_nat (length q)) d1) st))"
proof -
  obtain hs strip where q: "q = hs @ drop 14 p" and len: "34 \<le> length p" "length hs = 14 + strip"
    and strip: "strip \<in> {36, 44}"
    and c: "\<exists>src dst. classify q = Gpdu strip (TeidOut rule) src dst"
    using enc encap_result [OF assms(1), of rule p q] assms(4)
      classify_encap [of "drop 14 p" rule] classify_encap_5g [of "drop 14 p" rule]
    by (auto simp: ENCAP_OVERHEAD_def ENCAP_5G_OVERHEAD_def)
  from c obtain src dst where c: "classify q = Gpdu strip (TeidOut rule) src dst" by blast
  have f: "find_rule st (TeidOut rule) dst = Some (TeidSlot (TeidOut rule), d)"
    by (simp add: find_rule_def assms(5))
  have "adj' (int strip) q \<noteq> None" using assms(9) strip by blast
  from gpdu_decap [OF assms(2) c f assms(8,6,7) this] show ?thesis
    using len by (simp add: q)
qed

definition demo_gnb :: fwd_rule where
  "demo_gnb = zero_rule\<lparr>Action := ActionEncapFwd, OutIfindex := 5, DMac := (2, 0, 0, 0, 0, 1),
     SMac := (2, 0, 0, 0, 0, 2), TeidOut := 0xBEEF, DstIP := be32 192 168 1 2,
     SrcIP := be32 192 168 1 1\<rparr>"

definition demo_decap :: fwd_rule where
  "demo_decap = zero_rule\<lparr>Action := ActionDecapFwd, OutIfindex := 5,
     DMac := (2, 0, 0, 0, 0, 3), SMac := (2, 0, 0, 0, 0, 4)\<rparr>"

lemma demo_encap:
  "encap_gtpu (ref_adjust 256) demo_gnb demo_ping = Some (True,
     encap_headers demo_gnb (be16 (demo_ping ! 16) (demo_ping ! 17)) @ drop 14 demo_ping)"
proof -
  have "length demo_ping = 42" by (simp add: demo_ping_def)
  moreover have "ref_adjust 256 (- int ENCAP_OVERHEAD) p = Some (replicate 36 0 @ p)" for p
    by (simp add: ref_adjust_def ENCAP_OVERHEAD_def)
  moreover have "length (encap_headers demo_gnb t) = 50" for t by (simp add: ENCAP_OVERHEAD_def)
  ultimately show ?thesis
    by (simp add: encap_gtpu_def encap_with_def store_def ENCAP_OVERHEAD_def del: replicate.simps
        length_encap_headers)
qed

lemma tunnel_roundtrip_witness:
  "\<exists>q v st'. encap_gtpu (ref_adjust 256) demo_gnb demo_ping = Some (True, q)
     \<and> xdp_gtp_router (ref_adjust 0) 7 q (demo_state\<lparr>teid_map := [0xBEEF \<mapsto> demo_decap]\<rparr>) =
         Some (XDP_REDIRECT 5, new_eth demo_decap @ drop 14 demo_ping, st')"
proof -
  let ?st = "demo_state\<lparr>teid_map := [0xBEEF \<mapsto> demo_decap]\<rparr>"
  let ?q = "encap_headers demo_gnb (be16 (demo_ping ! 16) (demo_ping ! 17)) @ drop 14 demo_ping"
  have p: "length demo_ping = 42" "drop_bit 4 (demo_ping ! 14) = 4"
    by (rule demo_ping_facts)+
  have len: "length ?q = 78" by (simp add: p ENCAP_OVERHEAD_def)
  have adj: "\<forall>n \<in> {36, 44}. ref_adjust 0 (int n) ?q \<noteq> None"
    by (simp add: ref_adjust_def p ENCAP_OVERHEAD_def)
  have e: "enforce_policy 7 demo_decap = (False, demo_decap)"
    by (simp add: policy_unlimited held_def self_release_def demo_decap_def zero_rule_def)
  have t: "teid_map ?st (TeidOut demo_gnb) = Some demo_decap"
    by (simp add: demo_gnb_def zero_rule_def)
  have d: "Action demo_decap = ActionDecapFwd" "NatIP demo_decap = 0" "OutIfindex demo_decap = 5"
    by (simp_all add: demo_decap_def zero_rule_def)
  have r: "redirect_out ?st 5 = XDP_REDIRECT 5" by (simp add: redirect_out_def demo_state_def)
  have enc: "encap_gtpu (ref_adjust 256) demo_gnb demo_ping = Some (True, ?q)
      \<or> encap_gtpu_5g (ref_adjust 256) demo_gnb demo_ping = Some (True, ?q)"
    using demo_encap by blast
  show ?thesis
    using demo_encap r tunnel_roundtrip [OF ref_head.xdp_head_axioms ref_head.xdp_head_axioms enc
        p(2) t d(1,2) e adj] by (auto simp: d)
qed



text \<open>C28: a successful source or destination rewrite of a packet that has the old address and a complete
  header that verifies writes the address, the header checksum and a TCP or UDP checksum that is set,
  and no other byte; the address is then the new one and the header verifies; a TCP or UDP checksum that
  is set verifies afterwards as it did before (\<open>rest\<close> is the sum of the pseudo-header words the rewrite
  does not touch). Where the TCP or UDP checksum is follows from the protocol and the header length
  alone: the rewrite does not look at the fragment offset.\<close>
theorem nat_rewrite_checksums:
  assumes "nat_rewrite field p old new = Some (True, q)" and "field \<in> {12, 16}"
    and "region (14 + field) 4 p = put_be32 old"
    and "14 + unat (p ! 14 AND 0xf) * 4 \<le> length p"
    and "verifies (word_sum (region 14 (unat (p ! 14 AND 0xf) * 4) p))"
  shows "length q = length p \<and> (\<forall>k < length p. k \<notin> nat_cells field p \<longrightarrow> q ! k = p ! k)
    \<and> region (14 + field) 4 q = put_be32 new
    \<and> verifies (word_sum (region 14 (unat (p ! 14 AND 0xf) * 4) q))
    \<and> (\<forall>j rest. l4_check (p ! 23) = Some j \<and> 0 < rest
         \<and> be16 (p ! (14 + unat (p ! 14 AND 0xf) * 4 + j))
             (p ! (15 + unat (p ! 14 AND 0xf) * 4 + j)) \<noteq> 0
         \<and> verifies (rest + halves old + word_sum (drop (14 + unat (p ! 14 AND 0xf) * 4) p))
       \<longrightarrow> verifies (rest + halves new + word_sum (drop (14 + unat (p ! 14 AND 0xf) * 4) q)))"
  using nat_rewrite_header [OF assms(1) _ assms(3-5)] nat_rewrite_segment [OF assms(1)]
    nat_rewrite_frame [OF assms(1)] assms(2)
  by blast

definition demo_udp :: frame where
  "demo_udp = replicate 12 0 @ [8, 0] @ [0x45, 0, 0, 28, 0, 0, 0, 0, 64, 17, 0x60, 0xbf] @
     [10, 1, 0, 2] @ [8, 8, 8, 8] @ [0, 53, 0, 53, 0, 8, 0xe5, 0x61]"

lemma demo_udp_facts:
  "region 26 4 demo_udp = put_be32 (be32 10 1 0 2)" "unat (demo_udp ! 14 AND 0xf) * 4 = 20"
  "length demo_udp = 42"
  "region 14 20 demo_udp = [0x45, 0, 0, 28, 0, 0, 0, 0, 64, 17, 0x60, 0xbf, 10, 1, 0, 2, 8, 8, 8, 8]"
  "map_option fst (nat_rewrite 12 demo_udp (be32 10 1 0 2) (be32 203 0 113 7)) = Some True"
  by code_simp+

lemma nat_rewrite_checksums_witness:
  "\<exists>q. nat_rewrite 12 demo_udp (be32 10 1 0 2) (be32 203 0 113 7) = Some (True, q)
     \<and> region 26 4 q = put_be32 (be32 203 0 113 7) \<and> verifies (word_sum (region 14 20 q))"
proof -
  obtain q where r: "nat_rewrite 12 demo_udp (be32 10 1 0 2) (be32 203 0 113 7) = Some (True, q)"
    using demo_udp_facts(5) by auto
  have "verifies (word_sum (region 14 20 demo_udp))"
    by (simp add: demo_udp_facts(4) verifies_def)
  with r nat_rewrite_checksums [OF r] show ?thesis by (simp add: demo_udp_facts(1-3))
qed

text \<open>The incremental update can produce 0, which the UDP header reserves for "no checksum": a rewrite
  of such a datagram leaves it without a checksum instead of writing 0xffff.\<close>
theorem nat_can_clear_udp_checksum:
  "csum_update_u32 1 0 1 = 0
   \<and> verifies (rest + halves 0 + 1) = verifies (rest + halves 1 + 0)"
proof -
  have "csum_update_u32 1 0 1 = 0" by code_simp
  then show ?thesis by (simp add: halves_def)
qed

text \<open>The second fragment of a UDP datagram has no UDP header: the two bytes the rewrite takes for a
  checksum are payload, and they change.\<close>

definition demo_fragment :: frame where
  "demo_fragment = replicate 12 0 @ [8, 0] @ [0x45, 0, 0, 28, 0, 0, 0, 1, 64, 17, 0x60, 0xbe] @
     [10, 1, 0, 2] @ [8, 8, 8, 8] @ [1, 2, 3, 4, 5, 6, 7, 8]"

theorem nat_alters_fragments:
  "map_option (\<lambda>(ok, q). (ok, drop 34 q))
     (nat_rewrite 12 demo_fragment (be32 10 1 0 2) (be32 203 0 113 7)) = Some (True, [1, 2, 3, 4, 5, 6, 213, 2])"
  by code_simp

text \<open>A G-PDU whose rule is quarantined or over its cap is dropped unchanged; the packet is counted on
  the rule and under the drop counter, and no other rule and no other counter changes.\<close>
theorem blocked_gpdu_is_dropped:
  assumes "classify p = Gpdu strip teid src dst" and "find_rule st teid dst = Some (s, rule)"
    and "enforce_policy now rule = (True, r1)"
  shows "xdp_gtp_router adj now p st = Some (XDP_DROP, p,
    bump_stats STAT_DROP (of_nat (length p)) (map_write s (bump_rule (of_nat (length p)) r1) st))"
  using assms
  by (simp add: router_dispatch handle_gpdu_def Let_def go_drop_counted_def go_drop_def)

definition demo_gpdu :: frame where
  "demo_gpdu = encap_headers demo_gnb (be16 (demo_ping ! 16) (demo_ping ! 17)) @ drop 14 demo_ping"

lemma demo_gpdu_class: "\<exists>src dst. classify demo_gpdu = Gpdu 36 0xBEEF src dst"
proof -
  have "TeidOut demo_gnb = 0xBEEF" by (simp add: demo_gnb_def zero_rule_def)
  then show ?thesis
    using classify_encap [of "drop 14 demo_ping" demo_gnb] demo_ping_facts
    by (simp add: demo_gpdu_def)
qed

definition demo_held :: fwd_rule where
  "demo_held = demo_decap\<lparr>QuarantineUntilNs := 1000\<rparr>"

lemma blocked_gpdu_is_dropped_witness:
  "\<exists>st'. xdp_gtp_router (ref_adjust 0) 7 demo_gpdu (demo_state\<lparr>teid_map := [0xBEEF \<mapsto> demo_held]\<rparr>) =
     Some (XDP_DROP, demo_gpdu, st')"
proof -
  obtain src dst where c: "classify demo_gpdu = Gpdu 36 0xBEEF src dst"
    using demo_gpdu_class by blast
  have f: "find_rule (demo_state\<lparr>teid_map := [0xBEEF \<mapsto> demo_held]\<rparr>) 0xBEEF dst =
      Some (TeidSlot 0xBEEF, demo_held)" by (simp add: find_rule_def)
  have e: "enforce_policy 7 demo_held = (True, demo_held)"
    by (simp add: policy_held held_def demo_held_def)
  show ?thesis using blocked_gpdu_is_dropped [OF c f e] by blast
qed

end
