(* ===== verification/Router.thy ===== *)
theory Router
  imports CommandRuns Forwarding
begin

text \<open>
  The two planes together: what the commands write is what the XDP program reads. \<open>plane\<close> is the state
  of the program over the contents of the pinned maps. The properties follow a rule from the flags
  of a command to the frames it applies to, and a subscriber over a whole run of frames.
\<close>

section \<open>The maps seen from the data plane\<close>

definition port_of :: "map_value option \<Rightarrow> u32 option" where
  "port_of c = (case c of Some (PortV i) \<Rightarrow> Some i | _ \<Rightarrow> None)"

definition plane ::
  "(map_fd \<Rightarrow> u32 \<Rightarrow> map_value option) \<Rightarrow> (string \<Rightarrow> map_fd option)
     \<Rightarrow> (u32 \<Rightarrow> (u64 \<times> u64) option) \<Rightarrow> dp_state" where
  "plane E pins stats =
     \<lparr>teid_map = (\<lambda>x. rule_of (E (the (pins PinTeidMap)) x)),
      ueip_map = (\<lambda>x. rule_of (E (the (pins PinUeipMap)) x)),
      nat_map = (\<lambda>x. rule_of (E (the (pins PinNatMap)) x)),
      tx_port = (\<lambda>x. port_of (E (the (pins PinTxPort)) x)),
      stats_map = stats\<rparr>"

definition pins_apart :: "(string \<Rightarrow> map_fd option) \<Rightarrow> bool" where
  "pins_apart pins \<longleftrightarrow> pins PinTxPort \<noteq> None \<and>
     pins PinTeidMap \<noteq> pins PinTxPort \<and> pins PinUeipMap \<noteq> pins PinTxPort
     \<and> pins PinNatMap \<noteq> pins PinTxPort \<and> pins PinTeidMap \<noteq> pins PinUeipMap
     \<and> pins PinTeidMap \<noteq> pins PinNatMap \<and> pins PinUeipMap \<noteq> pins PinNatMap"

lemma fresh_unlimited_admits:
  "fresh_state rule \<Longrightarrow> RatePPS rule = 0 \<Longrightarrow> enforce_policy now rule = (False, rule)"
  by (simp add: policy_unlimited held_def self_release_def fresh_state_def)

text \<open>The state of the program after a provisioned write of a TEID rule.\<close>

lemma plane_after_teid:
  assumes "pins_apart pins" and "pins PinTeidMap = Some m" and "OutIfindex rule \<noteq> 0"
    and "provisioned (pins PinTxPort) (OutIfindex rule) (cell_set E m teid (Some (RuleV rule))) E'"
  shows "teid_map (plane E' pins stats) teid = Some rule"
    and "tx_port (plane E' pins stats) (OutIfindex rule) = Some (OutIfindex rule)"
  using assms by (auto simp: plane_def provisioned_def pins_apart_def port_of_def)

lemma add_teid_build_no_nat:
  assumes "add_teid_build ifaces f = Inr (teid, rule)" and "addTeidNatIP f = []"
  shows "NatIP rule = 0"
  using assms unfolding add_teid_build_def dst_port_flag_frame
  by (elim check_InrE) (drule forward_flags_frame, auto simp: opt_flag_def zero_rule_def)

section \<open>A subscriber over a run of frames\<close>

fun route_all ::
  "adjust_head \<Rightarrow> (u64 \<times> frame) list \<Rightarrow> dp_state \<Rightarrow> (verdict list \<times> dp_state) option" where
  "route_all adj [] st = Some ([], st)"
| "route_all adj ((now, p) # xs) st =
     do {(v, q, st) \<leftarrow> xdp_gtp_router adj now p st;
       (vs, st) \<leftarrow> route_all adj xs st;
       Some (v # vs, st)}"

text \<open>A rule without its traffic counters: all that \<open>enforce_policy\<close> reads or writes.\<close>

definition policy_of :: "fwd_rule \<Rightarrow> fwd_rule" where
  "policy_of rule = rule\<lparr>PktCount := 0, ByteCount := 0\<rparr>"

lemma policy_of_bump [simp]: "policy_of (bump_rule n rule) = policy_of rule"
  by (simp add: policy_of_def bump_rule_def)

lemma enforce_counters:
  "enforce_policy now (rule\<lparr>PktCount := a, ByteCount := b\<rparr>) =
     (fst (enforce_policy now rule), (snd (enforce_policy now rule))\<lparr>PktCount := a, ByteCount := b\<rparr>)"
  by (simp add: enforce_policy_def held_def policy_steps)

lemma enforce_policy_of:
  assumes "policy_of r = policy_of r'"
  shows "fst (enforce_policy now r) = fst (enforce_policy now r')"
    and "policy_of (snd (enforce_policy now r)) = policy_of (snd (enforce_policy now r'))"
  using enforce_counters [where now = now and rule = r and a = 0 and b = 0]
    enforce_counters [where now = now and rule = r' and a = 0 and b = 0] assms
  by (simp_all add: policy_of_def)

definition leaves_policy :: "rule_slot \<Rightarrow> fwd_rule \<Rightarrow> outcome \<Rightarrow> bool" where
  "leaves_policy s r0 out \<longleftrightarrow> (\<forall>v q st'. out = Some (v, q, st') \<longrightarrow>
     (\<exists>r. map_lookup s st' = Some r \<and> policy_of r = policy_of r0))"

lemma leaves_policy_rules:
  "(\<And>x. m = Some x \<Longrightarrow> leaves_policy s r0 (f x)) \<Longrightarrow> leaves_policy s r0 (m \<bind> f)"
  "(b \<Longrightarrow> leaves_policy s r0 o1) \<Longrightarrow> (\<not> b \<Longrightarrow> leaves_policy s r0 o2) \<Longrightarrow>
     leaves_policy s r0 (if b then o1 else o2)"
  "(\<And>x y. pr = (x, y) \<Longrightarrow> leaves_policy s r0 (h x y)) \<Longrightarrow>
     leaves_policy s r0 (case pr of (x, y) \<Rightarrow> h x y)"
  "leaves_policy s r0 (go_pass n p (map_write s r0 st))"
  "leaves_policy s r0 (go_drop n p (map_write s r0 st))"
  "leaves_policy s r0 (go_redirect n s r0 p (map_write s r0 st))"
  "leaves_policy s r0 (go_drop_counted n s r0 p (map_write s r0 st))"
  by (auto simp: leaves_policy_def bind_eq_Some_conv go_pass_def go_drop_def go_redirect_def
      go_drop_counted_def Let_def split: prod.splits if_splits simp del: map_write.simps)

text \<open>One frame of the subscriber: the rule is stepped by \<open>enforce_policy\<close>, which decides a drop.\<close>

lemma gpdu_step:
  assumes "xdp_gtp_router adj now p st = Some (v, q, st')"
    and "classify p = Gpdu strip teid src dst" and "teid_map st teid = Some rule"
  shows "\<exists>r. teid_map st' teid = Some r \<and> policy_of r = policy_of (snd (enforce_policy now rule))
    \<and> (fst (enforce_policy now rule) \<longrightarrow> v = XDP_DROP)"
proof -
  obtain d r1 where e: "enforce_policy now rule = (d, r1)" by fastforce
  have f: "find_rule st teid dst = Some (TeidSlot teid, rule)"
    by (simp add: find_rule_def assms(3))
  have x: "xdp_gtp_router adj now p st = (if d
      then go_drop_counted (of_nat (length p)) (TeidSlot teid) r1 p (map_write (TeidSlot teid) r1 st)
      else apply_action adj (of_nat (length p)) strip src (TeidSlot teid) r1 p
        (map_write (TeidSlot teid) r1 st))"
    by (simp add: router_dispatch assms(2) handle_gpdu_def f e Let_def del: map_write.simps)
  have "leaves_policy (TeidSlot teid) r1 (xdp_gtp_router adj now p st)"
    unfolding x apply_action_def by (intro leaves_policy_rules)
  moreover have "d \<Longrightarrow> v = XDP_DROP"
    using assms(1) x by (simp add: go_drop_counted_def go_drop_def)
  ultimately show ?thesis using assms(1) e by (auto simp: leaves_policy_def)
qed

lemma route_all_admitted:
  assumes "\<forall>(t, p) \<in> set xs. \<exists>strip src dst. classify p = Gpdu strip teid src dst"
    and "teid_map st teid = Some r" and "policy_of r = policy_of rule"
  shows "\<exists>vs st'. route_all adj xs st = Some (vs, st')
    \<and> length (filter (\<lambda>v. v \<noteq> XDP_DROP) vs) \<le> admitted (map fst xs) rule"
  using assms
proof (induction xs arbitrary: st r rule)
  case Nil
  then show ?case by simp
next
  case (Cons x xs)
  obtain now p where x: "x = (now, p)" by (cases x)
  obtain v q st1 where s: "xdp_gtp_router adj now p st = Some (v, q, st1)"
    using safe_router [of adj now p st] by (auto simp: safe_def)
  obtain strip src dst where c: "classify p = Gpdu strip teid src dst"
    using Cons.prems(1) x by auto
  obtain d rule1 where e: "enforce_policy now rule = (d, rule1)" by fastforce
  obtain r1 where r1: "teid_map st1 teid = Some r1"
    "policy_of r1 = policy_of (snd (enforce_policy now r))"
    "fst (enforce_policy now r) \<longrightarrow> v = XDP_DROP"
    using gpdu_step [OF s c Cons.prems(2)] by blast
  note eq = enforce_policy_of [OF Cons.prems(3), of now, unfolded e, simplified]
  have "policy_of r1 = policy_of rule1" using r1(2) eq by simp
  from Cons.IH [OF _ r1(1) this] Cons.prems(1) obtain vs st2
    where "route_all adj xs st1 = Some (vs, st2)"
      "length (filter (\<lambda>v. v \<noteq> XDP_DROP) vs) \<le> admitted (map fst xs) rule1" by auto
  then show ?case using s e r1(3) eq(1) by (auto simp: x)
qed

section \<open>Properties\<close>

text \<open>C1: after a successful \<open>add-teid --action decap\<close> without NAT and rate cap, every G-PDU of that TEID
  leaves by the interface of the rule, which the devmap knows, behind the Ethernet header of the
  flags and with its inner packet unchanged.\<close>
theorem added_teid_forwards:
  assumes "bpf_maps api pinned entries" and "pins_apart (pinned k)"
    and run: "add_teid_RunE api ifaces f k = (Inr out, k')"
    and "addTeidAction f = ''decap''" and "addTeidNatIP f = []" and "addTeidRatePPS f = 0"
    and "parseTEID (addTeidTeid f) = Inr teid"
    and "xdp_head adj" and c: "classify p = Gpdu strip teid src dst"
    and "adj (int strip) p \<noteq> None"
  shows "\<exists>rule st'. add_teid_build ifaces f = Inr (teid, rule)
    \<and> xdp_gtp_router adj now p (plane (entries k') (pinned k') stats) =
        Some (XDP_REDIRECT (OutIfindex rule), new_eth rule @ drop (14 + strip) p, st')"
proof -
  obtain teid' rule m where b: "add_teid_build ifaces f = Inr (teid', rule)"
    and m: "pinned k PinTeidMap = Some m"
    and pr: "provisioned (pinned k PinTxPort) (OutIfindex rule)
        (cell_set (entries k) m teid' (Some (RuleV rule))) (entries k')"
    and k': "pinned k' = pinned k"
    using assms(1) run by (rule bpf_maps.add_teid_run)
  have t: "teid' = teid" using add_teid_build_ok [OF b] assms(7) by simp
  have act: "Action rule = ActionDecapFwd" and rate: "RatePPS rule = 0"
    using add_teid_build_shape [OF b] assms(4,6) by (auto simp: ParseAction_def zero_rule_def)
  have oif: "OutIfindex rule \<noteq> 0"
    using add_teid_build_ok [OF b] act by (auto simp: rule_ok_def deliverable_def)
  have nat: "NatIP rule = 0" using add_teid_build_no_nat [OF b assms(5)] .
  let ?st = "plane (entries k') (pinned k') stats"
  have st: "teid_map ?st teid = Some rule" "tx_port ?st (OutIfindex rule) = Some (OutIfindex rule)"
    using plane_after_teid [OF assms(2) m oif, of "entries k" teid' "entries k'" stats] pr t k' by auto
  have f: "find_rule ?st teid dst = Some (TeidSlot teid, rule)" by (simp add: find_rule_def st)
  have e: "enforce_policy now rule = (False, rule)"
    using fresh_unlimited_admits build_fresh(1) [OF b] rate by blast
  show ?thesis
    using b t gpdu_decap [OF assms(8) c f e act nat assms(10)] st by (auto simp: redirect_out_def)
qed

definition lab_plain_flags :: add_teid_flags where
  "lab_plain_flags = lab_teid_flags\<lparr>addTeidRatePPS := 0\<rparr>"

lemma lab_plain_build:
  "add_teid_build lab_ifaces lab_plain_flags = Inr (0xDEAD, lab_teid_rule\<lparr>RatePPS := 0\<rparr>)"
  by (simp add: add_teid_build_def lab_plain_flags_def lab_teid_flags_def add_teid_defaults_def
      lab_teid_rule_def lab_parseTEID build_eval)

lemma lab_plain_run:
  "\<exists>out k'. add_teid_RunE ref_api lab_ifaces lab_plain_flags loaded_kernel = (Inr out, k')"
  by (simp add: add_teid_RunE_def lab_plain_build run_eval ref_eval lab_teid_rule_def zero_rule_def)

lemma lab_pins_apart: "pins_apart (Pins loaded_kernel)"
  by (simp add: pins_apart_def lab_pins)

definition lab_gpdu :: frame where
  "lab_gpdu = encap_headers (demo_gnb\<lparr>TeidOut := 0xDEAD\<rparr>) 28 @ drop 14 demo_ping"

lemma lab_gpdu_class: "\<exists>src dst. classify lab_gpdu = Gpdu 36 0xDEAD src dst"
  using classify_encap [of "drop 14 demo_ping" "demo_gnb\<lparr>TeidOut := 0xDEAD\<rparr>"] demo_ping_facts
  by (simp add: lab_gpdu_def)

lemma added_teid_forwards_witness:
  "\<exists>out k' st'. add_teid_RunE ref_api lab_ifaces lab_plain_flags loaded_kernel = (Inr out, k')
     \<and> xdp_gtp_router (ref_adjust 0) 9 lab_gpdu (plane (ref_entries k') (Pins k') (\<lambda>_. Some (0, 0))) =
         Some (XDP_REDIRECT 2, new_eth lab_teid_rule @ drop 50 lab_gpdu, st')"
proof -
  obtain out k' where run:
    "add_teid_RunE ref_api lab_ifaces lab_plain_flags loaded_kernel = (Inr out, k')"
    using lab_plain_run by blast
  obtain src dst where c: "classify lab_gpdu = Gpdu 36 0xDEAD src dst" using lab_gpdu_class by blast
  have f: "addTeidAction lab_plain_flags = ''decap''" "addTeidNatIP lab_plain_flags = []"
    "addTeidRatePPS lab_plain_flags = 0" "parseTEID (addTeidTeid lab_plain_flags) = Inr 0xDEAD"
    by (simp_all add: lab_plain_flags_def lab_teid_flags_def add_teid_defaults_def lab_parseTEID)
  have adj: "ref_adjust 0 (int 36) lab_gpdu \<noteq> None"
    by (simp add: ref_adjust_def lab_gpdu_def demo_ping_facts ENCAP_OVERHEAD_def)
  have "new_eth (lab_teid_rule\<lparr>RatePPS := 0\<rparr>) = new_eth lab_teid_rule"
    "OutIfindex (lab_teid_rule\<lparr>RatePPS := 0\<rparr>) = 2"
    by (simp_all add: new_eth_def lab_teid_rule_def)
  with run added_teid_forwards [OF ref.bpf_maps_axioms lab_pins_apart run f
      ref_head.xdp_head_axioms c adj, of 9 "\<lambda>_. Some (0, 0)"]
  show ?thesis by (auto simp: lab_plain_build)
qed

text \<open>C24: a successful \<open>add-ueip --action encap\<close> without rate cap on a router whose devmap has no entry for
  the egress interface leaves the UE unreachable: the next downlink frame for it that can be
  encapsulated is aborted (dropped) at the redirect, although it is counted as redirected, unless the
  NAT table has an entry for the address, which would take precedence. \<open>add-teid\<close> and \<open>add-nat\<close> write
  the devmap entry; \<open>add-ueip\<close> does not.\<close>
theorem added_ueip_is_aborted:
  assumes "bpf_maps api pinned entries" and "pins_apart (pinned k)"
    and run: "add_ueip_RunE api ifaces f k = (Inr out, k')"
    and "ParseAction (addUeipAction f) = Inr ActionEncapFwd" and "addUeipRatePPS f = 0"
    and b: "add_ueip_build ifaces f = Inr (ip, rule)" and "ipKey ip = Inr ue"
    and "pinned k PinTxPort = Some tx" and "entries k tx (OutIfindex rule) = None"
    and "classify p = Downlink ue" and "pinned k PinNatMap = Some nm" and "entries k nm ue = None"
    and enc: "encap_gtpu adj rule p = Some (True, q)"
  shows "\<exists>st'. xdp_gtp_router adj now p (plane (entries k') (pinned k') stats) =
      Some (XDP_ABORTED, q, st')
    \<and> stats_map st' = stats_map (bump_stats STAT_REDIRECT (of_nat (length p))
        (plane (entries k') (pinned k') stats))"
proof -
  obtain ip' key rule' m where b': "add_ueip_build ifaces f = Inr (ip', rule')"
    "ipKey ip' = Inr key" "pinned k PinUeipMap = Some m"
    "entries k' = cell_set (entries k) m key (Some (RuleV rule'))" "pinned k' = pinned k"
    using assms(1) run by (rule bpf_maps.add_ueip_run)
  with b assms(7) have w: "entries k' = cell_set (entries k) m ue (Some (RuleV rule))" by simp
  have act: "Action rule = ActionEncapFwd" and rate: "RatePPS rule = 0"
    using add_ueip_build_shape [OF b] assms(4,5) by (auto simp: zero_rule_def)
  let ?st = "plane (entries k') (pinned k') stats"
  have st: "ueip_map ?st ue = Some rule" "nat_map ?st ue = None"
      "tx_port ?st (OutIfindex rule) = None"
    using assms(2,8,9,11,12) b'(3,5) w by (auto simp: plane_def pins_apart_def port_of_def)
  have e: "enforce_policy now rule = (False, rule)"
    using fresh_unlimited_admits build_fresh(2) [OF b] rate by blast
  have "xdp_gtp_router adj now p ?st =
      go_redirect (of_nat (length p)) (UeipSlot ue) rule q (map_write (UeipSlot ue) rule ?st)"
    by (simp add: router_dispatch assms(10) try_encap_def try_encap_ueip_def Let_def act st e enc
        del: map_write.simps)
  moreover have "redirect_out ?st (OutIfindex rule) = XDP_ABORTED"
    by (simp add: redirect_out_def st)
  ultimately show ?thesis
    using bump_stats_cong [OF map_write_frame(1)]
    unfolding go_redirect_result by (auto simp del: map_write.simps)
qed

lemma added_ueip_is_aborted_witness:
  "\<exists>out k' q st'. add_ueip_RunE ref_api lab_ifaces lab_ueip_flags loaded_kernel = (Inr out, k')
     \<and> xdp_gtp_router (ref_adjust 256) 9 demo_ping (plane (ref_entries k') (Pins k') (\<lambda>_. Some (0, 0))) =
         Some (XDP_ABORTED, q, st')"
proof -
  obtain out k' where run:
    "add_ueip_RunE ref_api lab_ifaces lab_ueip_flags loaded_kernel = (Inr out, k')"
    using lab_ueip_run by blast
  have f: "ParseAction (addUeipAction lab_ueip_flags) = Inr ActionEncapFwd"
    "addUeipRatePPS lab_ueip_flags = 0"
    by (simp_all add: lab_ueip_flags_def add_ueip_defaults_def ParseAction_def)
  have ip: "ipKey (v4_in_v6_prefix @ [10, 1, 0, 2]) = Inr (be32 10 1 0 2)"
    by (simp add: ipKey_def)
  have none: "ref_entries loaded_kernel 4 (OutIfindex lab_ueip_rule) = None"
    "ref_entries loaded_kernel 2 (be32 10 1 0 2) = None"
    by (simp_all add: ref_entries_def loaded_kernel_def)
  have same: "lab_ueip_rule = demo_gnb" by (simp add: lab_ueip_rule_def demo_gnb_def zero_rule_def)
  show ?thesis
    using run added_ueip_is_aborted [OF ref.bpf_maps_axioms lab_pins_apart run f lab_ueip_build ip
        lab_pins(4) none(1) demo_ping_class lab_pins(3) none(2) demo_encap [folded same],
        of 9 "\<lambda>_. Some (0, 0)"] by blast
qed

text \<open>C4: of any run of tunnelled frames of one subscriber that has a rate cap, arriving under a
  monotonic clock, at most the cap per started second since the rule's current window leave the
  router, whatever the frames contain and whatever the action of the rule.\<close>
theorem subscriber_rate_cap:
  assumes "\<forall>(t, p) \<in> set xs. \<exists>strip src dst. classify p = Gpdu strip teid src dst"
    and "teid_map st teid = Some rule" and "RatePPS rule \<noteq> 0"
    and "WindowCount rule \<le> RatePPS rule"
    and "sorted (map fst xs)" and "\<forall>t \<in> set (map fst xs). WindowStartNs rule \<le> t \<and> t \<le> T"
    and "WindowStartNs rule \<le> T"
  shows "\<exists>vs st'. route_all adj xs st = Some (vs, st')
    \<and> length (filter (\<lambda>v. v \<noteq> XDP_DROP) vs) \<le>
        unat (RatePPS rule) * (1 + (unat T - unat (WindowStartNs rule)) div 1000000000)"
  using route_all_admitted [OF assms(1,2) refl, of adj] admitted_bound [OF assms(3-7)]
  by (meson add_leD1 le_trans)

lemma subscriber_rate_cap_witness:
  "\<exists>vs st'. route_all (ref_adjust 0) [(5, lab_gpdu), (6, lab_gpdu), (7, lab_gpdu)]
       (demo_state\<lparr>teid_map := [0xDEAD \<mapsto> demo_rule]\<rparr>) = Some (vs, st')
     \<and> length (filter (\<lambda>v. v \<noteq> XDP_DROP) vs) \<le> 1"
proof -
  have "\<exists>strip src dst. classify lab_gpdu = Gpdu strip 0xDEAD src dst"
    using lab_gpdu_class by blast
  then show ?thesis
    using subscriber_rate_cap [of "[(5, lab_gpdu), (6, lab_gpdu), (7, lab_gpdu)]" "0xDEAD"
      "demo_state\<lparr>teid_map := [0xDEAD \<mapsto> demo_rule]\<rparr>" demo_rule 7 "ref_adjust 0"]
    by (simp add: demo_rule_simps del: route_all.simps)
qed

end
