(* ===== verification/Form.thy ===== *)
theory Form
  imports ListView "HOL-Library.Signed_Division"
begin

text \<open>
  \<open>control/tui/form.go\<close>: the form that adds or edits a rule. The text inputs belong to the library
  \<open>bubbles/textinput\<close> and the key events to \<open>bubbletea\<close>: their operations are the record
  \<open>tui_lib\<close>, a parameter of every definition, and the locale \<open>text_inputs\<close> states the documented
  laws. An index out of range panics in Go; here it is \<open>None\<close>, and \<open>form_wf\<close> is the invariant that
  excludes it.
\<close>

section \<open>The libraries\<close>

text \<open>\<open>KeyString\<close> is \<open>tea.KeyMsg.String\<close>; \<open>InputUpdate\<close> returns the new input and its command.\<close>

record ('t, 'e, 'c) tui_lib =
  InputNew :: 't
  SetPlaceholder :: "string \<Rightarrow> 't \<Rightarrow> 't"
  SetCharLimit :: "int \<Rightarrow> 't \<Rightarrow> 't"
  SetWidth :: "int \<Rightarrow> 't \<Rightarrow> 't"
  InputValue :: "'t \<Rightarrow> string"
  SetValue :: "string \<Rightarrow> 't \<Rightarrow> 't"
  InputFocus :: "'t \<Rightarrow> 't"
  InputBlur :: "'t \<Rightarrow> 't"
  InputUpdate :: "'e \<Rightarrow> 't \<Rightarrow> 't \<times> 'c"
  InputView :: "'t \<Rightarrow> string"
  KeyString :: "'e \<Rightarrow> string"

text \<open>\<open>net.InterfaceByName\<close> and \<open>net.InterfaceByIndex\<close>.\<close>

record host =
  ByName :: interfaces
  ByIndex :: "int \<Rightarrow> go_error + string"

text \<open>
  The commands the update functions return to the runtime: refresh, refresh and tick, quit,
  start and stop the ping, save a snapshot, or the
  command of a text input.
\<close>

datatype 'c tui_cmd =
    NoCmd
  | FetchCmd
  | FetchAndTick
  | QuitCmd
  | StartPing string string string string
  | StopPing string
  | CopyCmd string
  | InputCmd 'c

section \<open>The form\<close>

definition actionOptions :: "string list" where
  "actionOptions = [''drop'', ''decap'', ''encap'', ''redirect'']"

record 't form_field =
  Label :: string
  Input :: 't

record 't form_model =
  Target :: string
  Editing :: bool
  OrigKey :: u32
  KeyInput :: 't
  ActionIdx :: int
  Fields :: "'t form_field list"
  FocusIdx :: int
  FormErr :: "go_error option"

definition newTextInput :: "('t, 'e, 'c) tui_lib \<Rightarrow> string \<Rightarrow> 't" where
  "newTextInput lib placeholder =
     SetWidth lib 30 (SetCharLimit lib 64 (SetPlaceholder lib placeholder (InputNew lib)))"

definition keyPlaceholder :: "string \<Rightarrow> string" where
  "keyPlaceholder target = (if target = ''teid'' then ''0xDEAD'' else ''10.1.0.2'')"

definition formatKey :: "string \<Rightarrow> u32 \<Rightarrow> string" where
  "formatKey target key =
     (if target = ''teid'' then ''0x'' @ fmt_08X key else IP4_String (Uint32ToIP key))"

text \<open>The loop of \<open>actionIndex\<close> from option \<open>i\<close> on.\<close>

fun action_index_from :: "int \<Rightarrow> string list \<Rightarrow> u32 \<Rightarrow> int" where
  "action_index_from i [] a = 0"
| "action_index_from i (name # names) a =
     (case ParseAction name of
        Inr v \<Rightarrow> if v = a then i else action_index_from (i + 1) names a
      | Inl _ \<Rightarrow> action_index_from (i + 1) names a)"

definition actionIndex :: "u32 \<Rightarrow> int" where
  "actionIndex = action_index_from 0 actionOptions"

definition field_labels :: "string \<Rightarrow> string list" where
  "field_labels target =
     [''Out-Iface'', ''DMac'', ''SMac'', ''Teid-Out'', ''Dst-IP'', ''Src-IP'', ''Rate-PPS'',
      ''Q-Threshold'', ''Q-Seconds''] @ (if target = ''teid'' then [''Dst-Port''] else [])"

definition defaultFields :: "('t, 'e, 'c) tui_lib \<Rightarrow> string \<Rightarrow> 't form_field list" where
  "defaultFields lib target =
     map (\<lambda>l. \<lparr>Label = l, Input = newTextInput lib ''''\<rparr>) (field_labels target)"

definition fieldValue :: "('t, 'e, 'c) tui_lib \<Rightarrow> 't form_field list \<Rightarrow> string \<Rightarrow> string" where
  "fieldValue lib fs label =
     (case List.find (\<lambda>f. Label f = label) fs of
        Some f \<Rightarrow> TrimSpace (InputValue lib (Input f))
      | None \<Rightarrow> '''')"

definition setFieldValue ::
  "('t, 'e, 'c) tui_lib \<Rightarrow> 't form_field list \<Rightarrow> string \<Rightarrow> string \<Rightarrow> 't form_field list" where
  "setFieldValue lib fs label val =
     map (\<lambda>f. if Label f = label then f\<lparr>Input := SetValue lib val (Input f)\<rparr> else f) fs"

section \<open>Focus\<close>

definition form_total :: "'t form_model \<Rightarrow> int" where
  "form_total f = 1 + (if Editing f then 0 else 1) + int (length (Fields f))"

definition kindAt :: "'t form_model \<Rightarrow> int \<Rightarrow> string \<times> int" where
  "kindAt f idx =
     (let pos = (if Editing f then 0 else 1)
      in if \<not> Editing f \<and> idx = 0 then (''key'', -1)
         else if idx = pos then (''action'', -1)
         else (''field'', idx - (pos + 1)))"

text \<open>\<open>upd_field i g f\<close> is an assignment to \<open>f.fields[i]\<close>; it panics out of range.\<close>

definition upd_field :: "int \<Rightarrow> ('t \<Rightarrow> 't) \<Rightarrow> 't form_model \<Rightarrow> 't form_model option" where
  "upd_field i g f =
     (if 0 \<le> i \<and> nat i < length (Fields f)
      then Some (f\<lparr>Fields := (Fields f)[nat i := (Fields f ! nat i)\<lparr>Input := g (Input (Fields f ! nat i))\<rparr>]\<rparr>)
      else None)"

definition blur_all :: "('t, 'e, 'c) tui_lib \<Rightarrow> 't form_model \<Rightarrow> 't form_model" where
  "blur_all lib f =
     f\<lparr>KeyInput := if Editing f then KeyInput f else InputBlur lib (KeyInput f),
       Fields := map (\<lambda>x. x\<lparr>Input := InputBlur lib (Input x)\<rparr>) (Fields f)\<rparr>"

definition syncFocus :: "('t, 'e, 'c) tui_lib \<Rightarrow> 't form_model \<Rightarrow> 't form_model option" where
  "syncFocus lib f0 =
     (let f = blur_all lib f0 in
      case kindAt f (FocusIdx f) of (kind, fi) \<Rightarrow>
        if kind = ''key'' then Some (f\<lparr>KeyInput := InputFocus lib (KeyInput f)\<rparr>)
        else if kind = ''field'' then upd_field fi (InputFocus lib) f
        else Some f)"

section \<open>Opening a form\<close>

definition newAddForm :: "('t, 'e, 'c) tui_lib \<Rightarrow> string \<Rightarrow> 't form_model option" where
  "newAddForm lib target =
     syncFocus lib \<lparr>Target = target, Editing = False, OrigKey = 0,
       KeyInput = newTextInput lib (keyPlaceholder target), ActionIdx = 0,
       Fields = defaultFields lib target, FocusIdx = 0, FormErr = None\<rparr>"

text \<open>\<open>if cond { setFieldValue(f.fields, label, val) }\<close>.\<close>

definition prefill ::
  "('t, 'e, 'c) tui_lib \<Rightarrow> bool \<Rightarrow> string \<Rightarrow> string \<Rightarrow> 't form_field list \<Rightarrow> 't form_field list" where
  "prefill lib b label val fs = (if b then setFieldValue lib fs label val else fs)"

definition prefill_iface ::
  "('t, 'e, 'c) tui_lib \<Rightarrow> host \<Rightarrow> u32 \<Rightarrow> 't form_field list \<Rightarrow> 't form_field list" where
  "prefill_iface lib host ifindex fs =
     (if ifindex \<noteq> 0
      then (case ByIndex host (uint ifindex) of
              Inr name \<Rightarrow> setFieldValue lib fs ''Out-Iface'' name
            | Inl _ \<Rightarrow> fs)
      else fs)"

definition edit_fields ::
  "('t, 'e, 'c) tui_lib \<Rightarrow> host \<Rightarrow> fwd_rule \<Rightarrow> 't form_field list \<Rightarrow> 't form_field list" where
  "edit_fields lib host rule fs =
     prefill lib (QuarantineSeconds rule \<noteq> 0) ''Q-Seconds'' (fmt_d (unat (QuarantineSeconds rule)))
    (prefill lib (QuarantineThreshold rule \<noteq> 0) ''Q-Threshold'' (fmt_d (unat (QuarantineThreshold rule)))
    (prefill lib (RatePPS rule \<noteq> 0) ''Rate-PPS'' (fmt_d (unat (RatePPS rule)))
    (prefill lib (SrcIP rule \<noteq> 0) ''Src-IP'' (IP4_String (Uint32ToIP (SrcIP rule)))
    (prefill lib (DstIP rule \<noteq> 0) ''Dst-IP'' (IP4_String (Uint32ToIP (DstIP rule)))
    (prefill lib (TeidOut rule \<noteq> 0) ''Teid-Out'' (''0x'' @ fmt_08X (TeidOut rule))
    (prefill lib (SMac rule \<noteq> zero_mac) ''SMac'' (MACString (SMac rule))
    (prefill lib (DMac rule \<noteq> zero_mac) ''DMac'' (MACString (DMac rule))
    (prefill_iface lib host (OutIfindex rule) fs))))))))"

definition newEditForm ::
  "('t, 'e, 'c) tui_lib \<Rightarrow> host \<Rightarrow> string \<Rightarrow> u32 \<Rightarrow> fwd_rule option \<Rightarrow> 't form_model option" where
  "newEditForm lib host target key rule =
     (let f = \<lparr>Target = target, Editing = True, OrigKey = key,
                KeyInput = SetValue lib (formatKey target key) (newTextInput lib (keyPlaceholder target)),
                ActionIdx = 0, Fields = defaultFields lib target, FocusIdx = 0, FormErr = None\<rparr>
      in case rule of
           None \<Rightarrow> syncFocus lib f
         | Some r \<Rightarrow> syncFocus lib (f\<lparr>ActionIdx := actionIndex (Action r),
                       Fields := edit_fields lib host r (Fields f)\<rparr>))"

section \<open>Submitting a form\<close>

definition parseHexOrDec :: "string \<Rightarrow> go_error + u32" where
  "parseHexOrDec s0 =
     (let s = TrimSpace s0 in
      if s = [] then Inl EmptyValue
      else case (if HasPrefix s ''0x'' \<or> HasPrefix s ''0X''
                 then ParseUint (drop 2 s) 16 32
                 else ParseUint s 10 32) of
             Inl e \<Rightarrow> Inl (InvalidValue s)
           | Inr val \<Rightarrow> Inr (of_nat val))"

definition wrap_err :: "string \<Rightarrow> go_error + 'a \<Rightarrow> go_error + 'a" where
  "wrap_err label r = (case r of Inl e \<Rightarrow> Inl (Wrapped label e) | Inr x \<Rightarrow> Inr x)"

definition form_egress :: "host \<Rightarrow> string \<Rightarrow> fwd_rule \<Rightarrow> go_error + fwd_rule" where
  "form_egress host v rule =
     check (wrap_err ''out-iface'' (ByName host v)) (\<lambda>i. Inr (rule\<lparr>OutIfindex := word_of_int i\<rparr>))"

definition form_mac ::
  "string \<Rightarrow> (mac \<Rightarrow> fwd_rule \<Rightarrow> fwd_rule) \<Rightarrow> string \<Rightarrow> fwd_rule \<Rightarrow> go_error + fwd_rule" where
  "form_mac label upd v rule = check (wrap_err label (ParseMAC v)) (\<lambda>m. Inr (upd m rule))"

definition form_teid_out :: "string \<Rightarrow> fwd_rule \<Rightarrow> go_error + fwd_rule" where
  "form_teid_out v rule =
     check (wrap_err ''teid-out'' (parseHexOrDec v)) (\<lambda>t. Inr (rule\<lparr>TeidOut := t\<rparr>))"

definition form_ip ::
  "string \<Rightarrow> (u32 \<Rightarrow> fwd_rule \<Rightarrow> fwd_rule) \<Rightarrow> string \<Rightarrow> fwd_rule \<Rightarrow> go_error + fwd_rule" where
  "form_ip label upd v rule =
     (if ParseIP v = [] then Inl (InvalidFlag label v)
      else check (wrap_err label (IPToUint32 (ParseIP v))) (\<lambda>n. Inr (upd n rule)))"

definition form_uint ::
  "string \<Rightarrow> nat \<Rightarrow> (nat \<Rightarrow> fwd_rule \<Rightarrow> fwd_rule) \<Rightarrow> string \<Rightarrow> fwd_rule \<Rightarrow> go_error + fwd_rule" where
  "form_uint label bits upd v rule =
     (case ParseUint v 10 bits of
        Inl e \<Rightarrow> Inl (Wrapped label (NumError e))
      | Inr p \<Rightarrow> Inr (upd p rule))"

text \<open>
  The fields in the order the code reads them: \<open>val label\<close> is \<open>fieldValue(f.fields, label)\<close>, and an
  empty field leaves the rule alone.
\<close>

definition form_rule :: "host \<Rightarrow> string \<Rightarrow> (string \<Rightarrow> string) \<Rightarrow> u32 \<Rightarrow> go_error + fwd_rule" where
  "form_rule host target val action =
     check (opt_flag (val ''Out-Iface'') (form_egress host) (zero_rule\<lparr>Action := action\<rparr>)) (\<lambda>rule.
     check (opt_flag (val ''DMac'') (form_mac ''dmac'' (\<lambda>m r. r\<lparr>DMac := m\<rparr>)) rule) (\<lambda>rule.
     check (opt_flag (val ''SMac'') (form_mac ''smac'' (\<lambda>m r. r\<lparr>SMac := m\<rparr>)) rule) (\<lambda>rule.
     check (opt_flag (val ''Teid-Out'') form_teid_out rule) (\<lambda>rule.
     check (opt_flag (val ''Dst-IP'') (form_ip ''dst-ip'' (\<lambda>n r. r\<lparr>DstIP := n\<rparr>)) rule) (\<lambda>rule.
     check (opt_flag (val ''Src-IP'') (form_ip ''src-ip'' (\<lambda>n r. r\<lparr>SrcIP := n\<rparr>)) rule) (\<lambda>rule.
     check (opt_flag (val ''Rate-PPS'')
              (form_uint ''rate-pps'' 32 (\<lambda>p r. r\<lparr>RatePPS := of_nat p\<rparr>)) rule) (\<lambda>rule.
     check (opt_flag (val ''Q-Threshold'')
              (form_uint ''q-threshold'' 32 (\<lambda>p r. r\<lparr>QuarantineThreshold := of_nat p\<rparr>)) rule) (\<lambda>rule.
     check (opt_flag (val ''Q-Seconds'')
              (form_uint ''q-seconds'' 32 (\<lambda>p r. r\<lparr>QuarantineSeconds := of_nat p\<rparr>)) rule) (\<lambda>rule.
     check (if target = ''teid''
            then opt_flag (val ''Dst-Port'')
              (form_uint ''dst-port'' 16 (\<lambda>p r. r\<lparr>DstPort := swap_port (of_nat p)\<rparr>)) rule
            else Inr rule) (\<lambda>rule.
     check (ValidateRule rule) (\<lambda>_. Inr rule)))))))))))"

definition form_map_key :: "('t, 'e, 'c) tui_lib \<Rightarrow> 't form_model \<Rightarrow> go_error + u32" where
  "form_map_key lib f =
     (let v = InputValue lib (KeyInput f) in
      if Editing f then Inr (OrigKey f)
      else if Target f = ''teid'' then wrap_err ''teid'' (parseHexOrDec v)
      else if not_ipv4 (ParseIP v) then Inl (InvalidFlag ''ip'' v)
      else wrap_err ''ip'' (IPToUint32 (ParseIP v)))"

definition buildRule ::
  "('t, 'e, 'c) tui_lib \<Rightarrow> host \<Rightarrow> 't form_model \<Rightarrow> (go_error + u32 \<times> fwd_rule) option" where
  "buildRule lib host f =
     (if 0 \<le> ActionIdx f \<and> nat (ActionIdx f) < length actionOptions
      then Some
        (check (ParseAction (actionOptions ! nat (ActionIdx f))) (\<lambda>action.
         check (form_map_key lib f) (\<lambda>key.
         check (form_rule host (Target f) (fieldValue lib (Fields f)) action) (\<lambda>rule.
         Inr (key, rule)))))
      else None)"

section \<open>Key events\<close>

text \<open>
  The body of \<open>updateForm\<close>: the form after the event (\<open>None\<close>: closed), the command returned and
  the kernel state. \<open>tm\<close> and \<open>um\<close> are the maps the dashboard holds open.
\<close>

definition form_submit ::
  "('t, 'e, 'c) tui_lib \<Rightarrow> host \<Rightarrow> 'k bpf_api \<Rightarrow> map_fd \<Rightarrow> map_fd \<Rightarrow> 't form_model \<Rightarrow> 'k
     \<Rightarrow> ('t form_model option \<times> 'c tui_cmd \<times> 'k) option" where
  "form_submit lib host api tm um f k =
     (case buildRule lib host f of
        None \<Rightarrow> None
      | Some (Inl e) \<Rightarrow> Some (Some (f\<lparr>FormErr := Some e\<rparr>), NoCmd, k)
      | Some (Inr (key, rule)) \<Rightarrow>
          (case (if Target f = ''teid'' then TeidMap_Put api tm key rule k
                 else UeipMap_Put api um (Uint32ToIP key) rule k) of
             (Inl e, k') \<Rightarrow> Some (Some (f\<lparr>FormErr := Some e\<rparr>), NoCmd, k')
           | (Inr _, k') \<Rightarrow> Some (None, FetchCmd, k')))"

definition forward_key ::
  "('t, 'e, 'c) tui_lib \<Rightarrow> 'e \<Rightarrow> 't form_model \<Rightarrow> ('t form_model \<times> 'c tui_cmd) option" where
  "forward_key lib msg f =
     (case kindAt f (FocusIdx f) of (kind, fi) \<Rightarrow>
        if kind = ''key'' then
          (case InputUpdate lib msg (KeyInput f) of (t, c) \<Rightarrow> Some (f\<lparr>KeyInput := t\<rparr>, InputCmd c))
        else if kind = ''field'' then
          (case upd_field fi (\<lambda>t. fst (InputUpdate lib msg t)) f of
             None \<Rightarrow> None
           | Some g \<Rightarrow> Some (g, InputCmd (snd (InputUpdate lib msg (Input (Fields f ! nat fi))))))
        else Some (f, NoCmd))"

definition form_key ::
  "('t, 'e, 'c) tui_lib \<Rightarrow> host \<Rightarrow> 'k bpf_api \<Rightarrow> map_fd \<Rightarrow> map_fd \<Rightarrow> 'e \<Rightarrow> 't form_model \<Rightarrow> 'k
     \<Rightarrow> ('t form_model option \<times> 'c tui_cmd \<times> 'k) option" where
  "form_key lib host api tm um msg f k =
     (let s = KeyString lib msg;
          stay = map_option (\<lambda>g. (Some g, NoCmd, k));
          n = int (length actionOptions) in
      if s = ''esc'' then Some (None, NoCmd, k)
      else if s = ''tab'' then
        stay (syncFocus lib (f\<lparr>FocusIdx := (FocusIdx f + 1) smod form_total f\<rparr>))
      else if s = ''shift+tab'' then
        stay (syncFocus lib (f\<lparr>FocusIdx := (FocusIdx f - 1 + form_total f) smod form_total f\<rparr>))
      else if (s = ''left'' \<or> s = ''right'') \<and> fst (kindAt f (FocusIdx f)) = ''action'' then
        stay (Some (f\<lparr>ActionIdx := (if s = ''left'' then ActionIdx f - 1 + n else ActionIdx f + 1)
                                     smod n\<rparr>))
      else if s = ''enter'' then form_submit lib host api tm um f k
      else map_option (\<lambda>(g, c). (Some g, c, k)) (forward_key lib msg f))"

section \<open>What an edit form shows\<close>

text \<open>An interface name as the host reports it: a single token that fits the input.\<close>

definition iface_named :: "host \<Rightarrow> u32 \<Rightarrow> bool" where
  "iface_named host i \<longleftrightarrow>
     (\<forall>name. ByIndex host (uint i) = Inr name \<longrightarrow>
        token name \<and> length name \<le> 64 \<and> ByName host name = Inr (uint i))"

definition iface_name :: "host \<Rightarrow> u32 \<Rightarrow> string" where
  "iface_name host i =
     (if i = 0 then [] else case ByIndex host (uint i) of Inr name \<Rightarrow> name | Inl _ \<Rightarrow> [])"

text \<open>The text of each field of an edit form.\<close>

definition edit_value :: "host \<Rightarrow> fwd_rule \<Rightarrow> string \<Rightarrow> string" where
  "edit_value host rule = (\<lambda>_. [])
     (''Out-Iface'' := iface_name host (OutIfindex rule),
      ''DMac'' := if DMac rule \<noteq> zero_mac then MACString (DMac rule) else [],
      ''SMac'' := if SMac rule \<noteq> zero_mac then MACString (SMac rule) else [],
      ''Teid-Out'' := if TeidOut rule \<noteq> 0 then ''0x'' @ fmt_08X (TeidOut rule) else [],
      ''Dst-IP'' := if DstIP rule \<noteq> 0 then IP4_String (Uint32ToIP (DstIP rule)) else [],
      ''Src-IP'' := if SrcIP rule \<noteq> 0 then IP4_String (Uint32ToIP (SrcIP rule)) else [],
      ''Rate-PPS'' := if RatePPS rule \<noteq> 0 then fmt_d (unat (RatePPS rule)) else [],
      ''Q-Threshold'' :=
        if QuarantineThreshold rule \<noteq> 0 then fmt_d (unat (QuarantineThreshold rule)) else [],
      ''Q-Seconds'' :=
        if QuarantineSeconds rule \<noteq> 0 then fmt_d (unat (QuarantineSeconds rule)) else [])"

lemma length_fmt_d: "n < 10 ^ k \<Longrightarrow> 0 < k \<Longrightarrow> length (fmt_d n) \<le> k"
proof (induction n arbitrary: k rule: fmt_d.induct)
  case (1 n)
  show ?case
  proof (cases "n < 10")
    case True
    with 1 show ?thesis by (subst fmt_d.simps) simp
  next
    case False
    then obtain m where k: "k = Suc m" "0 < m" using 1(2,3) by (cases k; cases "k - 1") auto
    have "n div 10 < 10 ^ m" using 1(2) k by (simp add: div_less_iff_less_mult mult.commute)
    from 1(1) [OF False this k(2)] False k show ?thesis by (subst fmt_d.simps) simp
  qed
qed

lemma printed_lengths:
  "length (fmt_d (unat (w :: u32))) \<le> 64" "length (MACString m) \<le> 64"
  "length (''0x'' @ fmt_08X v) \<le> 64" "length (IP4_String (Uint32ToIP v)) \<le> 64"
proof -
  have o: "length (fmt_d (unat (b :: u8))) \<le> 3" for b
    using unat_u8_less [of b] by (intro length_fmt_d) (simp_all del: unat_u8_less)
  show "length (IP4_String (Uint32ToIP v)) \<le> 64"
    using o [of "ucast (drop_bit 24 v)"] o [of "ucast (drop_bit 16 v)"]
      o [of "ucast (drop_bit 8 v)"] o [of "ucast v"]
    unfolding IP4_String_Uint32ToIP dotted_def by simp
  have "length (fmt_d (unat w)) \<le> 10"
    using unat_u32_less [of w] by (intro length_fmt_d) (simp_all del: unat_u32_less)
  then show "length (fmt_d (unat w)) \<le> 64" by simp
  show "length (MACString m) \<le> 64" by (cases m) simp
  show "length (''0x'' @ fmt_08X v) \<le> 64" by (simp add: fmt_08X_def)
qed

lemmas printed_tokens = token_fmt_d token_MACString token_teid token_IP4_String

lemma actionIndex_option:
  assumes "a \<in> {ActionDrop, ActionDecapFwd, ActionEncapFwd, ActionRedirect}"
  shows "0 \<le> actionIndex a" "nat (actionIndex a) < length actionOptions"
    "ParseAction (actionOptions ! nat (actionIndex a)) = Inr a"
  using assms by (auto simp: actionIndex_def actionOptions_def ParseAction_def)

section \<open>The laws of a text input\<close>

text \<open>
  \<open>limit\<close> reads the character limit, \<open>focused\<close> whether the input has the focus. \<open>SetValue\<close> keeps a
  text without control characters that is not longer than the limit.
\<close>

locale text_inputs =
  fixes lib :: "('t, 'e, 'c) tui_lib"
    and limit :: "'t \<Rightarrow> int"
    and focused :: "'t \<Rightarrow> bool"
  assumes new_value: "InputValue lib (InputNew lib) = []"
    and new_focus: "\<not> focused (InputNew lib)"
    and placeholder: "InputValue lib (SetPlaceholder lib s t) = InputValue lib t"
      "limit (SetPlaceholder lib s t) = limit t" "focused (SetPlaceholder lib s t) = focused t"
    and char_limit: "InputValue lib (SetCharLimit lib n t) = InputValue lib t"
      "limit (SetCharLimit lib n t) = n" "focused (SetCharLimit lib n t) = focused t"
    and width: "InputValue lib (SetWidth lib n t) = InputValue lib t"
      "limit (SetWidth lib n t) = limit t" "focused (SetWidth lib n t) = focused t"
    and set_value: "token v \<Longrightarrow> int (length v) \<le> limit t \<Longrightarrow> InputValue lib (SetValue lib v t) = v"
    and set_limit: "limit (SetValue lib v t) = limit t" "focused (SetValue lib v t) = focused t"
    and focus_input: "InputValue lib (InputFocus lib t) = InputValue lib t"
      "limit (InputFocus lib t) = limit t" "focused (InputFocus lib t)"
    and blur_input: "InputValue lib (InputBlur lib t) = InputValue lib t"
      "limit (InputBlur lib t) = limit t" "\<not> focused (InputBlur lib t)"
begin

lemma new_input [simp]:
  "InputValue lib (newTextInput lib p) = []" "limit (newTextInput lib p) = 64"
  "\<not> focused (newTextInput lib p)"
  by (simp_all add: newTextInput_def new_value new_focus placeholder char_limit width)

definition roomy :: "'t form_field list \<Rightarrow> bool" where
  "roomy fs \<longleftrightarrow> (\<forall>f \<in> set fs. limit (Input f) = 64)"

lemma roomy_defaultFields: "roomy (defaultFields lib target)"
  by (simp add: roomy_def defaultFields_def)

lemma roomy_setFieldValue: "roomy fs \<Longrightarrow> roomy (setFieldValue lib fs l v)"
  by (auto simp: roomy_def setFieldValue_def set_limit)

lemma labels_setFieldValue [simp]: "map Label (setFieldValue lib fs l v) = map Label fs"
  by (simp add: setFieldValue_def)

lemma fieldValue_set_other [simp]:
  "l' \<noteq> l \<Longrightarrow> fieldValue lib (setFieldValue lib fs l v) l' = fieldValue lib fs l'"
  by (induction fs) (auto simp: fieldValue_def setFieldValue_def)

lemma fieldValue_set_same:
  "token v \<Longrightarrow> length v \<le> 64 \<Longrightarrow> roomy fs \<Longrightarrow> l \<in> set (map Label fs) \<Longrightarrow>
     fieldValue lib (setFieldValue lib fs l v) l = v"
  by (induction fs)
    (auto simp: fieldValue_def setFieldValue_def roomy_def set_value TrimSpace_token)

text \<open>Moving the focus changes no value.\<close>

lemma fieldValue_map:
  assumes "\<And>f. Label (g f) = Label f" "\<And>f. InputValue lib (Input (g f)) = InputValue lib (Input f)"
  shows "fieldValue lib (map g fs) l = fieldValue lib fs l"
  by (induction fs) (auto simp: fieldValue_def assms)

lemma fieldValue_update:
  assumes "i < length fs" "InputValue lib (Input x) = InputValue lib (Input (fs ! i))"
    "Label x = Label (fs ! i)"
  shows "fieldValue lib (fs[i := x]) l = fieldValue lib fs l"
  using assms
proof (induction fs arbitrary: i)
  case (Cons f fs)
  then show ?case by (cases i) (auto simp: fieldValue_def)
qed simp

lemma fieldValue_blur_all [simp]: "fieldValue lib (Fields (blur_all lib f)) l = fieldValue lib (Fields f) l"
  by (simp add: blur_all_def fieldValue_map blur_input)

lemma blur_all_frame [simp]:
  "Editing (blur_all lib f) = Editing f" "OrigKey (blur_all lib f) = OrigKey f"
  "Target (blur_all lib f) = Target f" "ActionIdx (blur_all lib f) = ActionIdx f"
  "FocusIdx (blur_all lib f) = FocusIdx f" "FormErr (blur_all lib f) = FormErr f"
  "length (Fields (blur_all lib f)) = length (Fields f)"
  "map Label (Fields (blur_all lib f)) = map Label (Fields f)"
  "InputValue lib (KeyInput (blur_all lib f)) = InputValue lib (KeyInput f)"
  by (simp_all add: blur_all_def blur_input)

text \<open>\<open>syncFocus\<close> is invisible to everything but the focus.\<close>

definition same_content :: "'t form_model \<Rightarrow> 't form_model \<Rightarrow> bool" where
  "same_content f g \<longleftrightarrow>
     Editing g = Editing f \<and> OrigKey g = OrigKey f \<and> Target g = Target f \<and> ActionIdx g = ActionIdx f
     \<and> FocusIdx g = FocusIdx f \<and> FormErr g = FormErr f \<and> map Label (Fields g) = map Label (Fields f)
     \<and> InputValue lib (KeyInput g) = InputValue lib (KeyInput f)
     \<and> fieldValue lib (Fields g) = fieldValue lib (Fields f)"

lemma map_update_same: "i < length xs \<Longrightarrow> f y = f (xs ! i) \<Longrightarrow> map f (xs[i := y]) = map f xs"
  by (metis list_update_id map_update)

lemma syncFocus_content: "syncFocus lib f = Some g \<Longrightarrow> same_content f g"
  by (auto simp: syncFocus_def upd_field_def same_content_def focus_input fieldValue_update
      fieldValue_map blur_input map_update_same Let_def split: prod.splits if_splits)

lemma buildRule_content: "same_content f g \<Longrightarrow> buildRule lib host g = buildRule lib host f"
  by (simp add: same_content_def buildRule_def form_map_key_def Let_def cong del: check_cong)

definition std :: "string \<Rightarrow> 't form_field list \<Rightarrow> bool" where
  "std target fs \<longleftrightarrow> roomy fs \<and> map Label fs = field_labels target"

lemma std_prefill [simp]:
  "std target fs \<Longrightarrow> std target (prefill lib b l v fs)"
  "std target fs \<Longrightarrow> std target (prefill_iface lib host i fs)"
  by (auto simp: std_def prefill_def prefill_iface_def roomy_setFieldValue split: sum.splits)

lemma fieldValue_prefill:
  assumes "std target fs" "l \<in> set (field_labels target)" "token v" "length v \<le> 64"
  shows "fieldValue lib (prefill lib b l v fs) =
    (fieldValue lib fs)(l := if b then v else fieldValue lib fs l)"
proof -
  have "l \<in> set (map Label fs)" "roomy fs" using assms(1,2) by (simp_all add: std_def)
  then show ?thesis using assms(3,4) fieldValue_set_same by (auto simp: prefill_def fun_eq_iff)
qed

lemma fieldValue_prefill_iface:
  assumes "std target fs" "iface_named host i" "fieldValue lib fs ''Out-Iface'' = []"
  shows "fieldValue lib (prefill_iface lib host i fs) = (fieldValue lib fs)(''Out-Iface'' := iface_name host i)"
proof -
  have "''Out-Iface'' \<in> set (map Label fs)" using assms(1) by (simp add: std_def field_labels_def)
  then show ?thesis
    using assms fieldValue_set_same
    by (auto simp: prefill_iface_def iface_name_def iface_named_def std_def fun_eq_iff split: sum.splits)
qed

lemma fieldValue_default [simp]: "fieldValue lib (defaultFields lib target) l = []"
proof -
  have "List.find (\<lambda>f. Label f = l) (map (\<lambda>l. \<lparr>Label = l, Input = newTextInput lib ''''\<rparr>) ls)
      = (if l \<in> set ls then Some \<lparr>Label = l, Input = newTextInput lib ''''\<rparr> else None)" for ls
    by (induction ls) auto
  then show ?thesis by (simp add: fieldValue_def defaultFields_def)
qed

lemma labels_default: "map Label (defaultFields lib target) = field_labels target"
  by (simp add: defaultFields_def comp_def)

lemma std_default [simp]: "std target (defaultFields lib target)"
  by (simp add: std_def labels_default roomy_defaultFields)

lemma form_labels:
  "''DMac'' \<in> set (field_labels target)" "''SMac'' \<in> set (field_labels target)"
  "''Teid-Out'' \<in> set (field_labels target)" "''Dst-IP'' \<in> set (field_labels target)"
  "''Src-IP'' \<in> set (field_labels target)" "''Rate-PPS'' \<in> set (field_labels target)"
  "''Q-Threshold'' \<in> set (field_labels target)" "''Q-Seconds'' \<in> set (field_labels target)"
  by (simp_all add: field_labels_def)

text \<open>The edit form shows every field of the rule it knows, as the text that reads back.\<close>

lemma edit_fields_values:
  assumes "iface_named host (OutIfindex rule)"
  shows "fieldValue lib (edit_fields lib host rule (defaultFields lib target)) = edit_value host rule"
proof -
  have d: "fieldValue lib (defaultFields lib target) = (\<lambda>_. [])" by (simp add: fun_eq_iff)
  show ?thesis
    unfolding edit_fields_def edit_value_def
    by (simp only: fieldValue_prefill [where target = target] std_prefill std_default form_labels
        printed_tokens printed_lengths fieldValue_prefill_iface [where target = target] assms
        fieldValue_default d)
      simp
qed

lemma newEditForm_buildRule:
  assumes "iface_named host (OutIfindex rule)"
    and "newEditForm lib host target key (Some rule) = Some f"
    and "Action rule \<in> {ActionDrop, ActionDecapFwd, ActionEncapFwd, ActionRedirect}"
  shows "buildRule lib host f =
    Some (check (form_rule host target (edit_value host rule) (Action rule)) (\<lambda>r. Inr (key, r)))"
proof -
  let ?f = "\<lparr>Target = target, Editing = True, OrigKey = key,
      KeyInput = SetValue lib (formatKey target key) (newTextInput lib (keyPlaceholder target)),
      ActionIdx = actionIndex (Action rule),
      Fields = edit_fields lib host rule (defaultFields lib target), FocusIdx = 0, FormErr = None\<rparr>"
  have "syncFocus lib ?f = Some f" using assms(2) by (simp add: newEditForm_def Let_def)
  from buildRule_content [OF syncFocus_content [OF this], of host]
  show ?thesis
    using actionIndex_option [OF assms(3)]
    by (simp add: buildRule_def form_map_key_def edit_fields_values [OF assms(1)])
qed

end

section \<open>Reading back what an edit form shows\<close>

lemma parseHexOrDec_printed: "parseHexOrDec (''0x'' @ fmt_08X v) = Inr v"
  using token_teid [of v]
  by (simp add: parseHexOrDec_def TrimSpace_token HasPrefix_def ParseUint_fmt_08X Let_def
      del: token_simps)

lemma opt_printed:
  "upd zero_mac r = r \<Longrightarrow>
     opt_flag (if m \<noteq> zero_mac then MACString m else []) (form_mac lab upd) r = Inr (upd m r)"
  "updi 0 r = r \<Longrightarrow>
     opt_flag (if n \<noteq> 0 then IP4_String (Uint32ToIP n) else []) (form_ip lab updi) r = Inr (updi n r)"
  "updu 0 r = r \<Longrightarrow>
     opt_flag (if n \<noteq> 0 then fmt_d (unat n) else []) (form_uint lab 32 (\<lambda>p. updu (of_nat p))) r =
       Inr (updu n r)"
  "TeidOut r = 0 \<Longrightarrow>
     opt_flag (if n \<noteq> 0 then ''0x'' @ fmt_08X n else []) form_teid_out r = Inr (r\<lparr>TeidOut := n\<rparr>)"
proof -
  have ne: "MACString m \<noteq> []" "IP4_String (Uint32ToIP n) \<noteq> []"
    using token_MACString [of m] token_IP4_String [of n] by auto
  show "upd zero_mac r = r \<Longrightarrow>
     opt_flag (if m \<noteq> zero_mac then MACString m else []) (form_mac lab upd) r = Inr (upd m r)"
    using ne by (simp add: opt_flag_def form_mac_def wrap_err_def ParseMAC_MACString)
  have "ParseIP (IP4_String (Uint32ToIP n)) \<noteq> []"
    by (simp add: IP4_String_Uint32ToIP ParseIP_dotted)
  then show "updi 0 r = r \<Longrightarrow>
     opt_flag (if n \<noteq> 0 then IP4_String (Uint32ToIP n) else []) (form_ip lab updi) r = Inr (updi n r)"
    using ne by (simp add: opt_flag_def form_ip_def wrap_err_def ParseIP_IP4_String)
  show "updu 0 r = r \<Longrightarrow>
     opt_flag (if n \<noteq> 0 then fmt_d (unat n) else []) (form_uint lab 32 (\<lambda>p. updu (of_nat p))) r =
       Inr (updu n r)"
    using unat_u32_less [of n]
    by (simp add: opt_flag_def form_uint_def ParseUint_fmt_d del: unat_u32_less)
  show "TeidOut r = 0 \<Longrightarrow>
     opt_flag (if n \<noteq> 0 then ''0x'' @ fmt_08X n else []) form_teid_out r = Inr (r\<lparr>TeidOut := n\<rparr>)"
    using parseHexOrDec_printed [of n] by (simp add: opt_flag_def form_teid_out_def wrap_err_def)
qed

lemma opt_egress:
  assumes "iface_named host i" and "OutIfindex r = 0"
  shows "opt_flag (iface_name host i) (form_egress host) r =
    Inr (r\<lparr>OutIfindex := if iface_name host i = [] then 0 else i\<rparr>)"
  using assms
  by (auto simp: opt_flag_def iface_name_def iface_named_def form_egress_def wrap_err_def
      split: sum.splits)

text \<open>The rule an unchanged edit form submits.\<close>

definition kept_rule :: "host \<Rightarrow> fwd_rule \<Rightarrow> fwd_rule" where
  "kept_rule host rule =
     zero_rule\<lparr>Action := Action rule,
       OutIfindex := if iface_name host (OutIfindex rule) = [] then 0 else OutIfindex rule,
       DMac := DMac rule, SMac := SMac rule, TeidOut := TeidOut rule, DstIP := DstIP rule,
       SrcIP := SrcIP rule, RatePPS := RatePPS rule, QuarantineThreshold := QuarantineThreshold rule,
       QuarantineSeconds := QuarantineSeconds rule\<rparr>"

lemma form_rule_kept:
  assumes "iface_named host (OutIfindex rule)"
  shows "form_rule host target (edit_value host rule) (Action rule) =
    check (ValidateRule (kept_rule host rule)) (\<lambda>_. Inr (kept_rule host rule))"
proof -
  let ?v = "edit_value host rule"
  have v: "?v ''Out-Iface'' = iface_name host (OutIfindex rule)"
    "?v ''DMac'' = (if DMac rule \<noteq> zero_mac then MACString (DMac rule) else [])"
    "?v ''SMac'' = (if SMac rule \<noteq> zero_mac then MACString (SMac rule) else [])"
    "?v ''Teid-Out'' = (if TeidOut rule \<noteq> 0 then ''0x'' @ fmt_08X (TeidOut rule) else [])"
    "?v ''Dst-IP'' = (if DstIP rule \<noteq> 0 then IP4_String (Uint32ToIP (DstIP rule)) else [])"
    "?v ''Src-IP'' = (if SrcIP rule \<noteq> 0 then IP4_String (Uint32ToIP (SrcIP rule)) else [])"
    "?v ''Rate-PPS'' = (if RatePPS rule \<noteq> 0 then fmt_d (unat (RatePPS rule)) else [])"
    "?v ''Q-Threshold'' =
       (if QuarantineThreshold rule \<noteq> 0 then fmt_d (unat (QuarantineThreshold rule)) else [])"
    "?v ''Q-Seconds'' =
       (if QuarantineSeconds rule \<noteq> 0 then fmt_d (unat (QuarantineSeconds rule)) else [])"
    "?v ''Dst-Port'' = []"
    unfolding edit_value_def by simp_all
  have p: "opt_flag [] g r = Inr r" for g r by (simp add: opt_flag_def)
  note u = opt_printed(3) [where updu = "\<lambda>n r. r\<lparr>RatePPS := n\<rparr>"]
    opt_printed(3) [where updu = "\<lambda>n r. r\<lparr>QuarantineThreshold := n\<rparr>"]
    opt_printed(3) [where updu = "\<lambda>n r. r\<lparr>QuarantineSeconds := n\<rparr>"]
  show ?thesis
    unfolding form_rule_def v
    by (simp only: opt_egress [OF assms] opt_printed u p check_simps zero_rule_def if_cancel
        fwd_rule.simps fwd_rule.update_convs kept_rule_def)
qed

section \<open>The invariant of an open form\<close>

definition form_wf :: "'t form_model \<Rightarrow> bool" where
  "form_wf f \<longleftrightarrow>
     0 \<le> ActionIdx f \<and> ActionIdx f < int (length actionOptions)
     \<and> 0 \<le> FocusIdx f \<and> FocusIdx f < form_total f \<and> map Label (Fields f) = field_labels (Target f)"

lemma kindAt_cases:
  assumes "0 \<le> i" and "i < form_total f"
  obtains "kindAt f i = (''key'', -1)" and "\<not> Editing f" and "i = 0"
  | "kindAt f i = (''action'', -1)"
  | n where "kindAt f i = (''field'', int n)" and "n < length (Fields f)"
      and "i = int n + (if Editing f then 1 else 2)"
proof -
  let ?p = "if Editing f then 0 else 1 :: int"
  have "i = 0 \<or> 0 < i" "i = 0 \<or> i = 1 \<or> 1 < i" using assms(1) by linarith+
  then consider "\<not> Editing f" "i = 0" | "i = ?p" | "?p < i" by (cases "Editing f") auto
  then show thesis
  proof cases
    case 3
    then have "kindAt f i = (''field'', int (nat (i - (?p + 1))))" by (auto simp: kindAt_def Let_def)
    then show thesis using 3 assms(2) by (intro that(3) [of "nat (i - (?p + 1))"]) (auto simp: form_total_def)
  qed (use that(1,2) in \<open>auto simp: kindAt_def Let_def\<close>)
qed

lemma upd_field_Some:
  "n < length (Fields f) \<Longrightarrow>
     upd_field (int n) g f = Some (f\<lparr>Fields := (Fields f)[n := (Fields f ! n)\<lparr>Input := g (Input (Fields f ! n))\<rparr>]\<rparr>)"
  by (simp add: upd_field_def)

lemma blur_all_wf: "form_wf (blur_all lib f) \<longleftrightarrow> form_wf f"
  by (simp add: blur_all_def form_wf_def form_total_def comp_def)

lemma map_label_update [simp]:
  "map Label (xs[n := (xs ! n)\<lparr>Input := t\<rparr>]) = map Label xs"
  by (cases "n < length xs") (simp_all add: map_update list_update_same_conv list_update_beyond)

lemma form_wf_KeyInput [simp]: "form_wf (f\<lparr>KeyInput := t\<rparr>) \<longleftrightarrow> form_wf f"
  by (simp add: form_wf_def form_total_def)

lemma upd_field_wf: "upd_field i g f = Some h \<Longrightarrow> form_wf h \<longleftrightarrow> form_wf f"
  by (auto simp: upd_field_def form_wf_def form_total_def split: if_splits)

lemma syncFocus_wf: "form_wf f \<Longrightarrow> \<exists>g. syncFocus lib f = Some g \<and> form_wf g"
proof -
  assume "form_wf f"
  then have w: "form_wf (blur_all lib f)" by (simp add: blur_all_wf)
  then have "0 \<le> FocusIdx (blur_all lib f)" "FocusIdx (blur_all lib f) < form_total (blur_all lib f)"
    by (simp_all add: form_wf_def)
  then show ?thesis
  proof (cases rule: kindAt_cases)
    case 1
    then show ?thesis using w by (simp add: syncFocus_def Let_def)
  next
    case 2
    then show ?thesis using w by (simp add: syncFocus_def Let_def)
  next
    case (3 n)
    then show ?thesis
      using w upd_field_wf [OF upd_field_Some [OF 3(2)]] by (simp add: syncFocus_def upd_field_Some Let_def)
  qed
qed

lemma smod_nonneg: "0 \<le> a \<Longrightarrow> 0 < b \<Longrightarrow> a smod b = a mod (b :: int)"
  by (cases "a = 0") (simp_all add: signed_modulo_int_def)

lemma form_total_pos: "0 < form_total f"
  by (simp add: form_total_def)

lemma form_total_upd [simp]:
  "form_total (f\<lparr>FocusIdx := i\<rparr>) = form_total f" "form_total (f\<lparr>ActionIdx := j\<rparr>) = form_total f"
  "form_total (f\<lparr>FormErr := e\<rparr>) = form_total f" "form_total (f\<lparr>KeyInput := t\<rparr>) = form_total f"
  by (simp_all add: form_total_def)

lemma focus_step_wf:
  assumes "form_wf f"
  shows "form_wf (f\<lparr>FocusIdx := (FocusIdx f + 1) smod form_total f\<rparr>)"
    and "form_wf (f\<lparr>FocusIdx := (FocusIdx f - 1 + form_total f) smod form_total f\<rparr>)"
  using assms form_total_pos [of f] by (auto simp: form_wf_def smod_nonneg)

lemma action_step_wf:
  assumes "form_wf f" and "n = int (length actionOptions)"
  shows "form_wf (f\<lparr>ActionIdx := (if b then ActionIdx f - 1 + n else ActionIdx f + 1) smod n\<rparr>)"
  using assms by (auto simp: form_wf_def smod_nonneg actionOptions_def)

lemma forward_key_wf:
  assumes "form_wf f"
  shows "\<exists>g c. forward_key lib msg f = Some (g, c) \<and> form_wf g"
proof -
  from assms have "0 \<le> FocusIdx f" "FocusIdx f < form_total f" by (simp_all add: form_wf_def)
  then show ?thesis
  proof (cases rule: kindAt_cases)
    case 1
    then show ?thesis using assms by (auto simp: forward_key_def split: prod.splits)
  next
    case 2
    then show ?thesis using assms by (simp add: forward_key_def)
  next
    case (3 n)
    then show ?thesis
      using assms upd_field_wf [OF upd_field_Some [OF 3(2)]] by (simp add: forward_key_def upd_field_Some)
  qed
qed

lemma form_wf_FormErr [simp]: "form_wf (f\<lparr>FormErr := e\<rparr>) \<longleftrightarrow> form_wf f"
  by (simp add: form_wf_def)

text \<open>The outcome of an event that neither panics nor breaks the invariant.\<close>

definition event_ok :: "('t form_model option \<times> 'c \<times> 'k) option \<Rightarrow> bool" where
  "event_ok r \<longleftrightarrow> (\<exists>f' c k'. r = Some (f', c, k') \<and> (\<forall>g. f' = Some g \<longrightarrow> form_wf g))"

lemma event_ok_simps [simp]:
  "event_ok (Some (None, c, k))" "event_ok (Some (Some g, c, k)) \<longleftrightarrow> form_wf g" "\<not> event_ok None"
  by (simp_all add: event_ok_def)

lemma form_submit_wf:
  assumes "form_wf f"
  shows "event_ok (form_submit lib host api tm um f k)"
proof -
  obtain r where r: "buildRule lib host f = Some r"
    using assms by (auto simp: form_wf_def buildRule_def nat_less_iff)
  show ?thesis
  proof (cases r)
    case (Inl e)
    with r assms show ?thesis by (simp add: form_submit_def)
  next
    case (Inr kr)
    obtain key rule where kr: "kr = (key, rule)" by (cases kr)
    obtain q k' where "(if Target f = ''teid'' then TeidMap_Put api tm key rule k
        else UeipMap_Put api um (Uint32ToIP key) rule k) = (q, k')" by (rule prod.exhaust)
    with r Inr kr assms show ?thesis by (cases q) (simp_all add: form_submit_def)
  qed
qed

lemma event_ok_if: "(b \<Longrightarrow> event_ok x) \<Longrightarrow> (\<not> b \<Longrightarrow> event_ok y) \<Longrightarrow> event_ok (if b then x else y)"
  by simp

lemma event_ok_stay:
  "form_wf f \<Longrightarrow> event_ok (map_option (\<lambda>g. (Some g, c, k)) (Some f))"
  "form_wf f \<Longrightarrow> event_ok (map_option (\<lambda>g. (Some g, c, k)) (syncFocus lib f))"
  "form_wf f \<Longrightarrow> event_ok (map_option (\<lambda>(g, c). (Some g, c, k)) (forward_key lib msg f))"
  using syncFocus_wf [of f lib] forward_key_wf [of f lib msg] by auto

lemma form_key_wf:
  assumes "form_wf f"
  shows "event_ok (form_key lib host api tm um msg f k)"
  unfolding form_key_def Let_def
  by (intro event_ok_if event_ok_simps(1) event_ok_stay assms focus_step_wf [OF assms]
      action_step_wf [OF assms refl] form_submit_wf [OF assms])

text \<open>A run of key events on an open form, until it closes.\<close>

fun form_run ::
  "('t, 'e, 'c) tui_lib \<Rightarrow> host \<Rightarrow> 'k bpf_api \<Rightarrow> map_fd \<Rightarrow> map_fd \<Rightarrow> 'e list \<Rightarrow> 't form_model \<Rightarrow> 'k
     \<Rightarrow> ('t form_model option \<times> 'k) option" where
  "form_run lib host api tm um [] f k = Some (Some f, k)"
| "form_run lib host api tm um (msg # msgs) f k =
     (case form_key lib host api tm um msg f k of
        None \<Rightarrow> None
      | Some (None, c, k') \<Rightarrow> Some (None, k')
      | Some (Some g, c, k') \<Rightarrow> form_run lib host api tm um msgs g k')"

lemma form_run_total: "form_wf f \<Longrightarrow> \<exists>r. form_run lib host api tm um msgs f k = Some r"
proof (induction msgs arbitrary: f k)
  case (Cons msg msgs)
  obtain f' c k' where "form_key lib host api tm um msg f k = Some (f', c, k')"
    "\<forall>g. f' = Some g \<longrightarrow> form_wf g"
    using form_key_wf [OF Cons.prems] unfolding event_ok_def by metis
  with Cons.IH show ?case by (cases f') auto
qed simp

lemma new_form_wf:
  "\<exists>f. newAddForm lib target = Some f \<and> form_wf f"
  "\<exists>f. newEditForm lib host target key rule = Some f \<and> form_wf f"
proof -
  have l: "map Label (defaultFields lib target) = field_labels target"
    by (simp add: defaultFields_def comp_def)
  have p: "map Label (prefill lib b n v fs) = map Label fs"
    "map Label (prefill_iface lib host i fs) = map Label fs" for b n v i fs
    by (auto simp: prefill_def prefill_iface_def setFieldValue_def split: sum.splits)
  have "length fs = length (field_labels target)" if "map Label fs = field_labels target"
    for fs :: "'a form_field list" using arg_cong [OF that, of length] by simp
  note w = form_wf_def form_total_def actionOptions_def
  show "\<exists>f. newAddForm lib target = Some f \<and> form_wf f"
    unfolding newAddForm_def by (rule syncFocus_wf) (simp add: w l)
  have a: "0 \<le> actionIndex x \<and> actionIndex x < 4" for x
    by (simp add: actionIndex_def actionOptions_def ParseAction_def)
  have e: "form_wf \<lparr>Target = target, Editing = True, OrigKey = key,
      KeyInput = SetValue lib (formatKey target key) (newTextInput lib (keyPlaceholder target)),
      ActionIdx = i, Fields = fs, FocusIdx = 0, FormErr = None\<rparr>"
    if "0 \<le> i" "i < 4" "map Label fs = field_labels target" for i fs
    using that by (simp add: w)
  show "\<exists>f. newEditForm lib host target key rule = Some f \<and> form_wf f"
  proof (cases rule)
    case None
    then show ?thesis using syncFocus_wf [OF e [of 0 "defaultFields lib target"]] l
      by (simp add: newEditForm_def)
  next
    case (Some r)
    have "map Label (edit_fields lib host r (defaultFields lib target)) = field_labels target"
      by (simp add: edit_fields_def p l)
    from syncFocus_wf [OF e [OF _ _ this, of "actionIndex (Action r)"]] a Some show ?thesis
      by (simp add: newEditForm_def)
  qed
qed

end
