(* ===== verification/FormRuns.thy ===== *)
theory FormRuns
  imports Form
begin

text \<open>
  What the form does to the maps: a reference text input that satisfies the laws, the agreement of
  the form's parsing with that of \<open>add-teid\<close> and \<open>add-ueip\<close>, the rule an edit submits, the focus,
  the effect of a submission, and the rendering (\<open>renderForm\<close>).
\<close>

section \<open>A reference text input\<close>

record ref_text =
  RText :: string
  RLimit :: int
  RFocus :: bool

definition ref_lib :: "(ref_text, string, unit) tui_lib" where
  "ref_lib =
     \<lparr>InputNew = \<lparr>RText = [], RLimit = 0, RFocus = False\<rparr>,
      SetPlaceholder = (\<lambda>s t. t),
      SetCharLimit = (\<lambda>n t. t\<lparr>RLimit := n\<rparr>),
      SetWidth = (\<lambda>n t. t),
      InputValue = RText,
      SetValue = (\<lambda>v t. t\<lparr>RText := take (nat (RLimit t)) v\<rparr>),
      InputFocus = (\<lambda>t. t\<lparr>RFocus := True\<rparr>),
      InputBlur = (\<lambda>t. t\<lparr>RFocus := False\<rparr>),
      InputUpdate = (\<lambda>s t. (if \<not> RFocus t then t
          else if s = ''backspace'' then t\<lparr>RText := butlast (RText t)\<rparr>
          else if length s = 1 \<and> int (length (RText t)) < RLimit t then t\<lparr>RText := RText t @ s\<rparr>
          else t, ())),
      InputView = RText,
      KeyString = (\<lambda>s. s)\<rparr>"

interpretation rt: text_inputs ref_lib RLimit RFocus
  by unfold_locales (simp_all add: ref_lib_def)

section \<open>The form against the commands\<close>

lemma parseHexOrDec_parseTEID: "parseHexOrDec s = Inr v \<longleftrightarrow> parseTEID s = Inr v"
  by (cases "s = []"; cases "TrimSpace s = []")
    (auto simp: parseHexOrDec_def parseTEID_def Let_def ParseUint_def HasPrefix_def split: sum.splits)

text \<open>
  \<open>reads P d v x\<close>: the text \<open>v\<close> of an optional field stands for \<open>x\<close>, the default \<open>d\<close> when it is
  empty. Every optional field of the form and of the commands is one such step.
\<close>

definition reads :: "(string \<Rightarrow> 'a \<Rightarrow> bool) \<Rightarrow> 'a \<Rightarrow> string \<Rightarrow> 'a \<Rightarrow> bool" where
  "reads P d v x \<longleftrightarrow> (if v = [] then x = d else P v x)"

definition mac_text :: "string \<Rightarrow> mac \<Rightarrow> bool" where
  "mac_text v m \<longleftrightarrow> ParseMAC v = Inr m"

definition ip_text :: "string \<Rightarrow> u32 \<Rightarrow> bool" where
  "ip_text v n \<longleftrightarrow> ParseIP v \<noteq> [] \<and> IPToUint32 (ParseIP v) = Inr n"

definition iface_text :: "interfaces \<Rightarrow> string \<Rightarrow> u32 \<Rightarrow> bool" where
  "iface_text ifaces v n \<longleftrightarrow> (\<exists>i. ifaces v = Inr i \<and> n = word_of_int i)"

definition uint_text :: "nat \<Rightarrow> string \<Rightarrow> nat \<Rightarrow> bool" where
  "uint_text bits v p \<longleftrightarrow> ParseUint v 10 bits = Inr p"

definition teid_text :: "string \<Rightarrow> u32 \<Rightarrow> bool" where
  "teid_text v t \<longleftrightarrow> parseTEID v = Inr t"

lemma opt_step:
  assumes "\<And>r'. F v r = Inr r' \<longleftrightarrow> (\<exists>x. P v x \<and> r' = upd x r)" and "upd d r = r"
  shows "check (opt_flag v F r) K = Inr out \<longleftrightarrow> (\<exists>x. reads P d v x \<and> K (upd x r) = Inr out)"
  using assms by (auto simp: opt_flag_def check_eq_Inr reads_def)

lemma wrap_err_Inr [simp]: "wrap_err l r = Inr x \<longleftrightarrow> r = Inr x"
  by (cases r) (auto simp: wrap_err_def)

lemma form_steps:
  "upd zero_mac r = r \<Longrightarrow> check (opt_flag v (form_mac l upd) r) K = Inr out \<longleftrightarrow>
     (\<exists>m. reads mac_text zero_mac v m \<and> K (upd m r) = Inr out)"
  "updi 0 r = r \<Longrightarrow> check (opt_flag v (form_ip l updi) r) K = Inr out \<longleftrightarrow>
     (\<exists>n. reads ip_text 0 v n \<and> K (updi n r) = Inr out)"
  "OutIfindex r = 0 \<Longrightarrow> check (opt_flag v (form_egress host) r) K = Inr out \<longleftrightarrow>
     (\<exists>n. reads (iface_text (ByName host)) 0 v n \<and> K (r\<lparr>OutIfindex := n\<rparr>) = Inr out)"
  "TeidOut r = 0 \<Longrightarrow> check (opt_flag v form_teid_out r) K = Inr out \<longleftrightarrow>
     (\<exists>n. reads teid_text 0 v n \<and> K (r\<lparr>TeidOut := n\<rparr>) = Inr out)"
  "updu 0 r = r \<Longrightarrow> check (opt_flag v (form_uint l b updu) r) K = Inr out \<longleftrightarrow>
     (\<exists>n. reads (uint_text b) 0 v n \<and> K (updu n r) = Inr out)"
  by (rule opt_step; auto simp: form_mac_def form_ip_def form_egress_def form_teid_out_def
      form_uint_def mac_text_def ip_text_def iface_text_def teid_text_def uint_text_def check_eq_Inr
      parseHexOrDec_parseTEID split: sum.splits)+

lemma flag_steps:
  "upd zero_mac r = r \<Longrightarrow> check (opt_flag v (mac_flag l upd) r) K = Inr out \<longleftrightarrow>
     (\<exists>m. reads mac_text zero_mac v m \<and> K (upd m r) = Inr out)"
  "updi 0 r = r \<Longrightarrow> check (opt_flag v (ip_flag l updi) r) K = Inr out \<longleftrightarrow>
     (\<exists>n. reads ip_text 0 v n \<and> K (updi n r) = Inr out)"
  "OutIfindex r = 0 \<Longrightarrow> check (opt_flag v (egress_flag ifaces) r) K = Inr out \<longleftrightarrow>
     (\<exists>n. reads (iface_text ifaces) 0 v n \<and> K (r\<lparr>OutIfindex := n\<rparr>) = Inr out)"
  by (rule opt_step; auto simp: flag_Inr mac_text_def ip_text_def iface_text_def)+

lemma opt_of_read:
  "reads mac_text zero_mac v m \<Longrightarrow> upd zero_mac r = r \<Longrightarrow> opt_flag v (mac_flag l upd) r = Inr (upd m r)"
  "reads ip_text 0 v n \<Longrightarrow> updi 0 r = r \<Longrightarrow> opt_flag v (ip_flag l updi) r = Inr (updi n r)"
  "reads (iface_text ifaces) 0 v n \<Longrightarrow> OutIfindex r = 0 \<Longrightarrow>
     opt_flag v (egress_flag ifaces) r = Inr (r\<lparr>OutIfindex := n\<rparr>)"
  by (auto simp: reads_def opt_flag_def mac_text_def ip_text_def iface_text_def mac_flag_def
      ip_flag_def egress_flag_def split: if_splits)

lemma reads_zero: "reads (\<lambda>_ p. p = 0) 0 v dp \<longleftrightarrow> dp = 0"
  by (simp add: reads_def)

text \<open>Everything a form reads, in one formula.\<close>

definition form_reads ::
  "host \<Rightarrow> (string \<Rightarrow> string) \<Rightarrow> u32 \<Rightarrow> (string \<Rightarrow> nat \<Rightarrow> bool) \<Rightarrow> fwd_rule \<Rightarrow> bool" where
  "form_reads host val action port rule \<longleftrightarrow>
     (\<exists>i dm sm t d s p qt qs dp.
        reads (iface_text (ByName host)) 0 (val ''Out-Iface'') i
        \<and> reads mac_text zero_mac (val ''DMac'') dm \<and> reads mac_text zero_mac (val ''SMac'') sm
        \<and> reads teid_text 0 (val ''Teid-Out'') t
        \<and> reads ip_text 0 (val ''Dst-IP'') d \<and> reads ip_text 0 (val ''Src-IP'') s
        \<and> reads (uint_text 32) 0 (val ''Rate-PPS'') p \<and> reads (uint_text 32) 0 (val ''Q-Threshold'') qt
        \<and> reads (uint_text 32) 0 (val ''Q-Seconds'') qs \<and> reads port 0 (val ''Dst-Port'') dp
        \<and> rule = zero_rule\<lparr>Action := action, OutIfindex := i, DMac := dm, SMac := sm, TeidOut := t,
            DstIP := d, SrcIP := s, DstPort := swap_port (of_nat dp), RatePPS := of_nat p,
            QuarantineThreshold := of_nat qt, QuarantineSeconds := of_nat qs\<rparr>
        \<and> rule_ok rule)"

lemma swap_port_0 [simp]: "swap_port 0 = 0"
  by code_simp

lemma swap_port_swap [simp]: "swap_port (swap_port p) = p"
  by (rule bit_word_eqI) (auto simp: swap_port_def be16_def bit_simps)

lemma check_ValidateRule: "check (ValidateRule r) (\<lambda>_. Inr r) = Inr out \<longleftrightarrow> out = r \<and> rule_ok out"
  by (auto simp: check_eq_Inr ValidateRule_iff)

lemma form_rule_reads:
  "form_rule host ''teid'' val action = Inr rule \<Longrightarrow> form_reads host val action (uint_text 16) rule"
  "form_rule host ''ueip'' val action = Inr rule \<Longrightarrow> form_reads host val action (\<lambda>_ p. p = 0) rule"
proof -
  assume "form_rule host ''teid'' val action = Inr rule"
  then show "form_reads host val action (uint_text 16) rule"
    unfolding form_rule_def form_reads_def
    by (simp add: form_steps reads_zero check_ValidateRule zero_rule_def cong del: check_cong)
next
  assume "form_rule host ''ueip'' val action = Inr rule"
  then show "form_reads host val action (\<lambda>_ p. p = 0) rule"
    unfolding form_rule_def form_reads_def
    by (simp add: form_steps reads_zero check_ValidateRule zero_rule_def cong del: check_cong)
qed

text \<open>
  The flags of \<open>add-teid\<close> and \<open>add-ueip\<close> that say what the form says: the text flags carry the texts of
  the fields, the numeric ones the numbers these texts denote, \<open>Teid-Out\<close> in decimal or after \<open>0x\<close> in
  hexadecimal, the others in decimal, and 0, the default of the flag, where the field is empty.
\<close>

definition decimal :: "nat \<Rightarrow> string \<Rightarrow> nat" where
  "decimal bits v = (case ParseUint v 10 bits of Inl e \<Rightarrow> 0 | Inr n \<Rightarrow> n)"

definition teid_number :: "string \<Rightarrow> u32" where
  "teid_number v = (case parseTEID v of Inl e \<Rightarrow> 0 | Inr t \<Rightarrow> t)"

definition form_teid_flags :: "('t, 'e, 'c) tui_lib \<Rightarrow> 't form_model \<Rightarrow> add_teid_flags" where
  "form_teid_flags lib f =
     (let val = fieldValue lib (Fields f) in
      \<lparr>addTeidTeid = InputValue lib (KeyInput f), addTeidAction = actionOptions ! nat (ActionIdx f),
       addTeidOutIface = val ''Out-Iface'', addTeidDMac = val ''DMac'', addTeidSMac = val ''SMac'',
       addTeidDstIP = val ''Dst-IP'', addTeidSrcIP = val ''Src-IP'',
       addTeidTeidOut = teid_number (val ''Teid-Out''),
       addTeidDstPort = of_nat (decimal 16 (val ''Dst-Port'')), addTeidNatIP = '''',
       addTeidRatePPS = of_nat (decimal 32 (val ''Rate-PPS'')),
       addTeidQuarantineThreshold = of_nat (decimal 32 (val ''Q-Threshold'')),
       addTeidQuarantineSeconds = of_nat (decimal 32 (val ''Q-Seconds''))\<rparr>)"

definition form_ueip_flags :: "('t, 'e, 'c) tui_lib \<Rightarrow> 't form_model \<Rightarrow> add_ueip_flags" where
  "form_ueip_flags lib f =
     (let val = fieldValue lib (Fields f) in
      \<lparr>addUeipIP = InputValue lib (KeyInput f), addUeipAction = actionOptions ! nat (ActionIdx f),
       addUeipOutIface = val ''Out-Iface'', addUeipDMac = val ''DMac'', addUeipSMac = val ''SMac'',
       addUeipTeidOut = teid_number (val ''Teid-Out''), addUeipDstIP = val ''Dst-IP'',
       addUeipSrcIP = val ''Src-IP'', addUeipRatePPS = of_nat (decimal 32 (val ''Rate-PPS'')),
       addUeipQuarantineThreshold = of_nat (decimal 32 (val ''Q-Threshold'')),
       addUeipQuarantineSeconds = of_nat (decimal 32 (val ''Q-Seconds''))\<rparr>)"

lemma reads_decimal: "reads (uint_text bits) 0 v n \<Longrightarrow> decimal bits v = n"
  by (auto simp: reads_def uint_text_def decimal_def ParseUint_def split: if_splits sum.splits)

lemma reads_teid: "reads teid_text 0 v t \<Longrightarrow> teid_number v = t"
  by (auto simp: reads_def teid_text_def teid_number_def parseTEID_def split: if_splits sum.splits)

lemma forward_flags_of_reads:
  assumes "reads (iface_text ifaces) 0 oif i" "reads mac_text zero_mac dmac dm"
    "reads mac_text zero_mac smac sm" "reads ip_text 0 dip d" "reads ip_text 0 sip s"
    and "OutIfindex r = 0" "DMac r = zero_mac" "SMac r = zero_mac" "DstIP r = 0" "SrcIP r = 0"
  shows "forward_flags ifaces oif dmac smac dip sip r =
    Inr (r\<lparr>OutIfindex := i, DMac := dm, SMac := sm, DstIP := d, SrcIP := s\<rparr>)"
  unfolding forward_flags_def using assms(6-10)
  by (cases r)
    (simp add: opt_of_read(3) [OF assms(1)] opt_of_read(1) [OF assms(2)] opt_of_read(1) [OF assms(3)]
      opt_of_read(2) [OF assms(4)] opt_of_read(2) [OF assms(5)])

lemma teid_build_of_reads:
  assumes "form_reads host val action port rule" and "parseTEID teid = Inr key"
    and "ParseAction name = Inr action"
  shows "add_teid_build (ByName host)
    \<lparr>addTeidTeid = teid, addTeidAction = name,
     addTeidOutIface = val ''Out-Iface'', addTeidDMac = val ''DMac'', addTeidSMac = val ''SMac'',
     addTeidDstIP = val ''Dst-IP'', addTeidSrcIP = val ''Src-IP'', addTeidTeidOut = TeidOut rule,
     addTeidDstPort = swap_port (DstPort rule), addTeidNatIP = '''', addTeidRatePPS = RatePPS rule,
     addTeidQuarantineThreshold = QuarantineThreshold rule,
     addTeidQuarantineSeconds = QuarantineSeconds rule\<rparr> = Inr (key, rule)"
proof -
  from assms(1) obtain i dm sm t d s p qt qs dp where r:
      "reads (iface_text (ByName host)) 0 (val ''Out-Iface'') i"
      "reads mac_text zero_mac (val ''DMac'') dm" "reads mac_text zero_mac (val ''SMac'') sm"
      "reads ip_text 0 (val ''Dst-IP'') d" "reads ip_text 0 (val ''Src-IP'') s"
    and rule: "rule = zero_rule\<lparr>Action := action, OutIfindex := i, DMac := dm, SMac := sm, TeidOut := t,
            DstIP := d, SrcIP := s, DstPort := swap_port (of_nat dp), RatePPS := of_nat p,
            QuarantineThreshold := of_nat qt, QuarantineSeconds := of_nat qs\<rparr>"
    and ok: "rule_ok rule"
    unfolding form_reads_def by blast
  have "check (ValidateRule rule) (\<lambda>_. Inr (key, rule)) = Inr (key, rule)"
    using ok ValidateRule_iff [of rule] by simp
  then show ?thesis
    by (cases "of_nat dp = (0 :: u16)")
      (simp_all add: add_teid_build_def forward_flags_of_reads [OF r] assms(2,3) dst_port_flag_frame
        rule opt_flag_def zero_rule_def cong del: check_cong)
qed

lemma ueip_build_of_reads:
  assumes "form_reads host val action port rule" and "DstPort rule = 0" and "To4 (ParseIP ip) \<noteq> []"
    and "ParseAction name = Inr action"
  shows "add_ueip_build (ByName host)
    \<lparr>addUeipIP = ip, addUeipAction = name,
     addUeipOutIface = val ''Out-Iface'', addUeipDMac = val ''DMac'', addUeipSMac = val ''SMac'',
     addUeipTeidOut = TeidOut rule, addUeipDstIP = val ''Dst-IP'', addUeipSrcIP = val ''Src-IP'',
     addUeipRatePPS = RatePPS rule, addUeipQuarantineThreshold = QuarantineThreshold rule,
     addUeipQuarantineSeconds = QuarantineSeconds rule\<rparr> = Inr (ParseIP ip, rule)"
proof -
  from assms(1) obtain i dm sm t d s p qt qs dp where r:
      "reads (iface_text (ByName host)) 0 (val ''Out-Iface'') i"
      "reads mac_text zero_mac (val ''DMac'') dm" "reads mac_text zero_mac (val ''SMac'') sm"
      "reads ip_text 0 (val ''Dst-IP'') d" "reads ip_text 0 (val ''Src-IP'') s"
    and rule: "rule = zero_rule\<lparr>Action := action, OutIfindex := i, DMac := dm, SMac := sm, TeidOut := t,
            DstIP := d, SrcIP := s, DstPort := swap_port (of_nat dp), RatePPS := of_nat p,
            QuarantineThreshold := of_nat qt, QuarantineSeconds := of_nat qs\<rparr>"
    and ok: "rule_ok rule"
    unfolding form_reads_def by blast
  have "check (ValidateRule rule) (\<lambda>_. Inr (ParseIP ip, rule)) = Inr (ParseIP ip, rule)"
    using ok ValidateRule_iff [of rule] by simp
  moreover have "ParseIP ip \<noteq> []" using assms(3) by (auto simp: To4_def)
  ultimately show ?thesis
    using assms(2,3)
    by (simp add: add_ueip_build_def forward_flags_of_reads [OF r] assms(4) rule
        zero_rule_def cong del: check_cong)
qed

text \<open>The numbers of an accepted form are those its texts denote.\<close>

lemma form_reads_numbers:
  assumes "form_reads host val action port rule"
  shows "teid_number (val ''Teid-Out'') = TeidOut rule"
    and "of_nat (decimal 32 (val ''Rate-PPS'')) = RatePPS rule"
    and "of_nat (decimal 32 (val ''Q-Threshold'')) = QuarantineThreshold rule"
    and "of_nat (decimal 32 (val ''Q-Seconds'')) = QuarantineSeconds rule"
    and "port = uint_text 16 \<Longrightarrow> of_nat (decimal 16 (val ''Dst-Port'')) = swap_port (DstPort rule)"
  using assms unfolding form_reads_def by (auto dest!: reads_decimal reads_teid)

section \<open>The effect of a key event on the maps\<close>

lemma buildRule_Inr:
  assumes "buildRule lib host f = Some (Inr (key, rule))"
  shows "0 \<le> ActionIdx f" "nat (ActionIdx f) < length actionOptions"
    and "\<exists>action. ParseAction (actionOptions ! nat (ActionIdx f)) = Inr action
      \<and> form_map_key lib f = Inr key
      \<and> form_rule host (Target f) (fieldValue lib (Fields f)) action = Inr rule"
  using assms by (auto simp: buildRule_def check_eq_Inr split: if_splits)

lemma form_rule_ok: "form_rule host target val action = Inr rule \<Longrightarrow> rule_ok rule"
  unfolding form_rule_def by (elim check_InrE) (auto simp: ValidateRule_iff [symmetric])

context bpf_maps
begin

text \<open>The only event that writes is \<open>enter\<close> on a form that parses, and it writes one cell.\<close>

lemma form_submit_entries:
  assumes "form_submit lib host api tm um f k = Some (f', c, k')"
  shows "entries k' = entries k \<and> f' \<noteq> None \<or>
    (\<exists>key rule. buildRule lib host f = Some (Inr (key, rule)) \<and> f' = None \<and> c = FetchCmd
      \<and> entries k' = cell_set (entries k) (if Target f = ''teid'' then tm else um) key
          (Some (RuleV rule)))"
proof -
  obtain r where r: "buildRule lib host f = Some r"
    using assms by (auto simp: form_submit_def split: option.splits)
  show ?thesis
  proof (cases r)
    case (Inl e)
    with r assms show ?thesis by (auto simp: form_submit_def)
  next
    case (Inr kr)
    obtain key rule where kr: "kr = (key, rule)" by (cases kr)
    obtain q k1 where q: "(if Target f = ''teid'' then TeidMap_Put api tm key rule k
        else UeipMap_Put api um (Uint32ToIP key) rule k) = (q, k1)" by (rule prod.exhaust)
    show ?thesis
    proof (cases q)
      case (Inl e)
      have "entries k1 = entries k"
        using q Inl by (auto simp: TeidMap_Put_def UeipMap_Put_def split: if_splits prod.splits
            option.splits sum.splits dest: put_err)
      with Inl q r Inr kr assms show ?thesis by (auto simp: form_submit_def)
    next
      case (Inr u)
      have "entries k1 = cell_set (entries k) (if Target f = ''teid'' then tm else um) key (Some (RuleV rule))"
      proof (cases "Target f = ''teid''")
        case True
        with q Inr show ?thesis using teid_put_cell [of tm key rule k k1] by simp
      next
        case False
        with q Inr have "UeipMap_Put api um (Uint32ToIP key) rule k = (Inr (), k1)" by simp
        then obtain key' where "ipKey (Uint32ToIP key) = Inr key'"
          "entries k1 = (entries k)(um := (entries k um)(key' \<mapsto> RuleV rule))"
          by (rule ueip_put_entries)
        with False show ?thesis by (simp add: cell_set_def ipKey_def Uint32ToIP_def put_be32_def wire)
      qed
      with Inr q r \<open>r = Inr kr\<close> kr assms show ?thesis by (auto simp: form_submit_def)
    qed
  qed
qed

lemma form_key_entries:
  assumes "form_key lib host api tm um msg f k = Some (f', c, k')"
  shows "entries k' = entries k \<or>
    (\<exists>key rule. KeyString lib msg = ''enter'' \<and> buildRule lib host f = Some (Inr (key, rule))
      \<and> f' = None \<and> c = FetchCmd
      \<and> entries k' = cell_set (entries k) (if Target f = ''teid'' then tm else um) key
          (Some (RuleV rule)))"
proof (cases "k' = k")
  case False
  with assms have "KeyString lib msg = ''enter''" "form_submit lib host api tm um f k = Some (f', c, k')"
    by (auto simp: form_key_def Let_def split: if_splits)
  with form_submit_entries [OF this(2)] show ?thesis by auto
qed simp

end

section \<open>Focus\<close>

text \<open>The input that has the focus is the one the focus index names; at most one has it.\<close>

definition focus_matches :: "('t \<Rightarrow> bool) \<Rightarrow> 't form_model \<Rightarrow> bool" where
  "focus_matches focused f \<longleftrightarrow>
     (focused (KeyInput f) \<longleftrightarrow> fst (kindAt f (FocusIdx f)) = ''key'')
     \<and> (\<forall>i < length (Fields f).
          focused (Input (Fields f ! i)) \<longleftrightarrow> kindAt f (FocusIdx f) = (''field'', int i))"

text \<open>All of a form but the place of the focus: texts of the inputs as they stand, errors included.\<close>

definition form_shows :: "('t, 'e, 'c) tui_lib \<Rightarrow> 't form_model \<Rightarrow>
    (string \<times> bool \<times> u32 \<times> int \<times> go_error option) \<times> string \<times> (string \<times> string) list" where
  "form_shows lib f =
     ((Target f, Editing f, OrigKey f, ActionIdx f, FormErr f), InputValue lib (KeyInput f),
      map (\<lambda>x. (Label x, InputValue lib (Input x))) (Fields f))"

lemma form_shows_FocusIdx [simp]: "form_shows lib (f\<lparr>FocusIdx := i\<rparr>) = form_shows lib f"
  by (simp add: form_shows_def)

lemma kindAt_cong: "Editing g = Editing f \<Longrightarrow> kindAt g = kindAt f"
  by (simp add: kindAt_def fun_eq_iff)

lemma kindAt_kinds: "kindAt f i = (''key'', -1) \<and> \<not> Editing f \<or> kindAt f i = (''action'', -1)
    \<or> (\<exists>n. kindAt f i = (''field'', n))"
  by (auto simp: kindAt_def Let_def)

context text_inputs
begin

lemma syncFocus_focus:
  assumes "syncFocus lib f = Some g" and "Editing f \<longrightarrow> \<not> focused (KeyInput f)"
  shows "focus_matches focused g"
proof -
  let ?b = "blur_all lib f"
  have b: "\<not> focused (KeyInput ?b)" "i < length (Fields f) \<Longrightarrow> \<not> focused (Input (Fields ?b ! i))" for i
    using assms(2) by (auto simp: blur_all_def blur_input)
  have k: "kindAt ?b = kindAt f" by (rule kindAt_cong) simp
  consider "kindAt f (FocusIdx f) = (''key'', -1)" | "kindAt f (FocusIdx f) = (''action'', -1)"
    | n where "kindAt f (FocusIdx f) = (''field'', n)"
    using kindAt_kinds [of f "FocusIdx f"] by auto
  then show ?thesis
  proof cases
    case 1
    with assms(1) have g: "g = ?b\<lparr>KeyInput := InputFocus lib (KeyInput ?b)\<rparr>"
      by (simp add: syncFocus_def Let_def k)
    then have "kindAt g = kindAt f" by (intro kindAt_cong) simp
    with 1 g b show ?thesis by (simp add: focus_matches_def focus_input)
  next
    case 2
    with assms(1) have g: "g = ?b" by (simp add: syncFocus_def Let_def k)
    with 2 b k show ?thesis by (simp add: focus_matches_def)
  next
    case (3 n)
    with assms(1) have u: "upd_field n (InputFocus lib) ?b = Some g"
      by (simp add: syncFocus_def Let_def k)
    then have n: "0 \<le> n" "nat n < length (Fields f)" by (auto simp: upd_field_def split: if_splits)
    with u have g: "g = ?b\<lparr>Fields := (Fields ?b)[nat n := (Fields ?b ! nat n)\<lparr>Input := InputFocus lib (Input (Fields ?b ! nat n))\<rparr>]\<rparr>"
      by (simp add: upd_field_def)
    then have "kindAt g = kindAt f" by (intro kindAt_cong) simp
    with 3 g b n show ?thesis by (auto simp: focus_matches_def focus_input nth_list_update)
  qed
qed

lemma syncFocus_shows: "syncFocus lib f = Some g \<Longrightarrow> form_shows lib g = form_shows lib f"
  by (auto simp: syncFocus_def upd_field_def form_shows_def blur_all_def focus_input blur_input
      map_update_same Let_def comp_def split: prod.splits if_splits)

text \<open>Pressing tab \<open>n\<close> times moves the focus \<open>n\<close> slots on, cyclically, and changes nothing else.\<close>

lemma buildRule_FocusIdx: "buildRule lib host (f\<lparr>FocusIdx := i\<rparr>) = buildRule lib host f"
  by (simp add: buildRule_def form_map_key_def Let_def cong del: check_cong)

lemma tab_once:
  assumes "KeyString lib msg = ''tab''" and "form_wf f" and "Editing f \<longrightarrow> \<not> focused (KeyInput f)"
  obtains g where "form_key lib host api tm um msg f k = Some (Some g, NoCmd, k)" and "form_wf g"
    and "FocusIdx g = (FocusIdx f + 1) mod form_total f" and "form_total g = form_total f"
    and "buildRule lib host g = buildRule lib host f" and "form_shows lib g = form_shows lib f"
    and "focus_matches focused g"
    and "Editing g \<longrightarrow> \<not> focused (KeyInput g)"
proof -
  let ?f = "f\<lparr>FocusIdx := (FocusIdx f + 1) smod form_total f\<rparr>"
  obtain g where g: "syncFocus lib ?f = Some g" "form_wf g"
    using syncFocus_wf [OF focus_step_wf(1) [OF assms(2)]] by blast
  have c: "same_content ?f g" by (rule syncFocus_content [OF g(1)])
  have "0 \<le> FocusIdx f" using assms(2) by (simp add: form_wf_def)
  then have i: "FocusIdx g = (FocusIdx f + 1) mod form_total f"
    using c form_total_pos [of f] by (simp add: same_content_def smod_nonneg)
  have "map Label (Fields g) = map Label (Fields f)" "Editing g = Editing f"
    using c by (simp_all add: same_content_def)
  then have t: "form_total g = form_total f"
    using map_eq_imp_length_eq [of Label "Fields g" Label "Fields f"] by (simp add: form_total_def)
  have m: "focus_matches focused g" using assms(3) by (intro syncFocus_focus [OF g(1)]) simp
  moreover have "Editing g \<longrightarrow> \<not> focused (KeyInput g)"
    using m kindAt_kinds [of g "FocusIdx g"] by (auto simp: focus_matches_def)
  moreover have "buildRule lib host g = buildRule lib host f"
    using buildRule_content [OF c] buildRule_FocusIdx by metis
  ultimately show thesis
    using that [of g] g i t assms(1) syncFocus_shows [OF g(1)] by (simp add: form_key_def)
qed

lemma tabs:
  assumes "KeyString lib msg = ''tab''" and "form_wf f" and "Editing f \<longrightarrow> \<not> focused (KeyInput f)"
    and "focus_matches focused f"
  shows "\<exists>g. form_run lib host api tm um (replicate n msg) f k = Some (Some g, k)
    \<and> FocusIdx g = (FocusIdx f + int n) mod form_total f
    \<and> buildRule lib host g = buildRule lib host f \<and> form_shows lib g = form_shows lib f
    \<and> focus_matches focused g"
  using assms(2-)
proof (induction n arbitrary: f)
  case 0
  then show ?case by (simp add: form_wf_def)
next
  case (Suc n)
  obtain g where g: "form_key lib host api tm um msg f k = Some (Some g, NoCmd, k)" "form_wf g"
    "FocusIdx g = (FocusIdx f + 1) mod form_total f" "form_total g = form_total f"
    "buildRule lib host g = buildRule lib host f" "form_shows lib g = form_shows lib f"
    "focus_matches focused g" "Editing g \<longrightarrow> \<not> focused (KeyInput g)"
    by (rule tab_once [OF assms(1) Suc.prems(1,2)])
  from Suc.IH [OF g(2,8,7)] g show ?case
    by (auto simp: mod_add_left_eq add.assoc)
qed

end

section \<open>Rendering\<close>

text \<open>\<open>lipgloss\<close> styles are functions on text; \<open>err_text\<close> is \<open>err.Error()\<close>.\<close>

record styles =
  PanelStyle :: "string \<Rightarrow> string"
  TitleStyle :: "string \<Rightarrow> string"
  FooterStyle :: "string \<Rightarrow> string"
  ErrorStyle :: "string \<Rightarrow> string"

definition form_marker :: "bool \<Rightarrow> string" where
  "form_marker b = (if b then ''> '' else ''  '')"

definition key_line :: "('t, 'e, 'c) tui_lib \<Rightarrow> 't form_model \<Rightarrow> string \<times> string" where
  "key_line lib f =
     (let keyLabel = if Target f = ''ueip'' then ''UE IP'' else ''TEID'' in
      if Editing f
      then (form_marker False, pad_right 10 keyLabel @ '' '' @ InputValue lib (KeyInput f) @ '' (fixed)'' @ newline)
      else (form_marker (fst (kindAt f (FocusIdx f)) = ''key''),
            pad_right 10 keyLabel @ '' '' @ InputView lib (KeyInput f) @ newline))"

definition field_line :: "('t, 'e, 'c) tui_lib \<Rightarrow> 't form_model \<Rightarrow> nat \<Rightarrow> string \<times> string" where
  "field_line lib f i =
     (form_marker (kindAt f (FocusIdx f) = (''field'', int i)),
      pad_right 10 (Label (Fields f ! i)) @ '' '' @ InputView lib (Input (Fields f ! i)) @ newline)"

definition form_lines :: "('t, 'e, 'c) tui_lib \<Rightarrow> 't form_model \<Rightarrow> (string \<times> string) list option" where
  "form_lines lib f =
     (if 0 \<le> ActionIdx f \<and> nat (ActionIdx f) < length actionOptions
      then Some (key_line lib f #
        (form_marker (fst (kindAt f (FocusIdx f)) = ''action''),
         pad_right 10 ''Action'' @ '' < '' @ actionOptions ! nat (ActionIdx f) @ '' >'' @ newline) #
        map (field_line lib f) [0..<length (Fields f)])
      else None)"

definition renderForm ::
  "('t, 'e, 'c) tui_lib \<Rightarrow> styles \<Rightarrow> (go_error \<Rightarrow> string) \<Rightarrow> 't form_model \<Rightarrow> string option" where
  "renderForm lib st err_text f =
     map_option (\<lambda>ls.
       PanelStyle st
        (TitleStyle st ((if Editing f then ''Edit rule'' else ''Add rule'') @ '' ('' @ Target f @ ''_map)'') @
         newline @ newline @ concat (map (\<lambda>(m, t). m @ t) ls) @
         (case FormErr f of
            None \<Rightarrow> []
          | Some e \<Rightarrow> if err_text e = [] then [] else newline @ ErrorStyle st (''error: '' @ err_text e)) @
         newline @ newline @
         FooterStyle st ''tab: next field   left/right: change action   enter: submit   esc: cancel''))
       (form_lines lib f)"

lemma form_marker_eq [simp]: "form_marker b = ''> '' \<longleftrightarrow> b"
  by (simp add: form_marker_def)

lemma count_index: "length (filter (\<lambda>i. i = m) [0..<n]) = (if m < n then 1 else 0)"
  by (induction n) auto

section \<open>Concrete forms\<close>

definition lab_host :: host where
  "lab_host = \<lparr>ByName = lab_ifaces, ByIndex = (\<lambda>i. if i = 5 then Inr ''veth-ran''
     else if i = 2 then Inr ''eth0'' else Inl (External ''no such network interface''))\<rparr>"

definition lab_input :: "string \<Rightarrow> ref_text" where
  "lab_input v = \<lparr>RText = v, RLimit = 64, RFocus = False\<rparr>"

text \<open>The add form with a TEID typed, the action \<open>drop\<close> and a rate of 100.\<close>

definition lab_add_form :: "ref_text form_model" where
  "lab_add_form =
     \<lparr>Target = ''teid'', Editing = False, OrigKey = 0, KeyInput = lab_input ''0xDEAD'', ActionIdx = 0,
      Fields = map (\<lambda>l. \<lparr>Label = l, Input = lab_input (if l = ''Rate-PPS'' then ''100'' else '''')\<rparr>)
        (field_labels ''teid''),
      FocusIdx = 0, FormErr = None\<rparr>"

lemma lab_add_form_build:
  "buildRule ref_lib lab_host lab_add_form =
     Some (Inr (0xDEAD, zero_rule\<lparr>Action := ActionDrop, RatePPS := 100\<rparr>))"
proof -
  have t: "TrimSpace ''100'' = ''100''" "parseHexOrDec ''0xDEAD'' = Inr 0xDEAD"
    "ParseUint ''100'' 10 32 = Inr 100"
    by (simp_all add: TrimSpace_token visible_def code_def parseHexOrDec_parseTEID lab_parseTEID
        ParseUint_def digit_val_def)
  have v: "fieldValue ref_lib (Fields lab_add_form) = (\<lambda>l. if l = ''Rate-PPS'' then ''100'' else [])"
    by (auto simp: fun_eq_iff fieldValue_def lab_add_form_def field_labels_def ref_lib_def lab_input_def t)
  have r: "form_rule lab_host ''teid'' (\<lambda>l. if l = ''Rate-PPS'' then ''100'' else []) ActionDrop =
      Inr (zero_rule\<lparr>Action := ActionDrop, RatePPS := 100\<rparr>)"
    by (simp add: form_rule_def opt_flag_def form_uint_def t ValidateRule_def zero_rule_def)
  have k: "form_map_key ref_lib lab_add_form = Inr 0xDEAD"
    by (simp add: form_map_key_def lab_add_form_def ref_lib_def lab_input_def t wrap_err_def)
  have "ActionIdx lab_add_form = 0" "Target lab_add_form = ''teid''" by (simp_all add: lab_add_form_def)
  then show ?thesis
    by (simp add: buildRule_def actionOptions_def ParseAction_def v r k)
qed

lemma lab_host_named: "iface_named lab_host 5" "iface_named lab_host 2" "iface_name lab_host 2 = ''eth0''"
  by (simp_all add: iface_named_def iface_name_def lab_host_def lab_ifaces_def visible_def code_def)

section \<open>Properties\<close>

text \<open>C19: opening the edit form of a valid rule with one of the actions the form offers, whose egress
  interface still exists under a name of its own, and submitting it unchanged rebuilds the rule under
  the same key with every value the form pre-fills. What it does not pre-fill is lost: the NAT
  address and the padding, which have no input, the destination port, whose input opens empty, and
  the counters with the rate and quarantine state, which restart from zero.\<close>
theorem edit_round_trip:
  assumes "text_inputs lib limit focused"
    and "Action rule \<in> {ActionDrop, ActionDecapFwd, ActionEncapFwd, ActionRedirect}" and "rule_ok rule"
    and "iface_named host (OutIfindex rule)"
    and "OutIfindex rule \<noteq> 0 \<longrightarrow> iface_name host (OutIfindex rule) \<noteq> []"
    and "newEditForm lib host target key (Some rule) = Some f"
  shows "buildRule lib host f = Some (Inr (key, rule\<lparr>DstPort := 0, Pad := (0, 0), NatIP := 0,
    PktCount := 0, ByteCount := 0, WindowCount := 0, WindowStartNs := 0, RateDropCount := 0,
    ViolationStreak := 0, WindowViolated := 0, QuarantineUntilNs := 0\<rparr>))"
proof -
  have k: "kept_rule host rule = rule\<lparr>DstPort := 0, Pad := (0, 0), NatIP := 0,
      PktCount := 0, ByteCount := 0, WindowCount := 0, WindowStartNs := 0, RateDropCount := 0,
      ViolationStreak := 0, WindowViolated := 0, QuarantineUntilNs := 0\<rparr>"
    using assms(5) by (cases rule) (auto simp: kept_rule_def zero_rule_def iface_name_def)
  have "rule_ok (kept_rule host rule)"
    using assms(3) by (simp add: k rule_ok_def deliverable_def)
  then have "ValidateRule (kept_rule host rule) = Inr ()" by (simp add: ValidateRule_iff)
  then show ?thesis
    using text_inputs.newEditForm_buildRule [OF assms(1,4,6,2)] form_rule_kept [OF assms(4)] k by simp
qed

lemma edit_round_trip_witness:
  "\<exists>f. newEditForm ref_lib lab_host ''teid'' 0xDEAD (Some (lab_teid_rule\<lparr>NatIP := 7\<rparr>)) = Some f
    \<and> buildRule ref_lib lab_host f = Some (Inr (0xDEAD, lab_teid_rule\<lparr>DstPort := 0\<rparr>))"
proof -
  let ?r = "lab_teid_rule\<lparr>NatIP := 7\<rparr>"
  obtain f where f: "newEditForm ref_lib lab_host ''teid'' 0xDEAD (Some ?r) = Some f"
    using new_form_wf(2) by blast
  have h: "Action ?r \<in> {ActionDrop, ActionDecapFwd, ActionEncapFwd, ActionRedirect}" "rule_ok ?r"
    "iface_named lab_host (OutIfindex ?r)" "OutIfindex ?r \<noteq> 0 \<longrightarrow> iface_name lab_host (OutIfindex ?r) \<noteq> []"
    using lab_host_named
    by (simp_all add: lab_teid_rule_def zero_rule_def rule_ok_def deliverable_def zero_mac_def)
  from edit_round_trip [OF rt.text_inputs_axioms h f] f show ?thesis
    by (simp add: lab_teid_rule_def zero_rule_def)
qed

text \<open>C20: no sequence of key events makes the form panic: opened from the view, for adding or for
  editing any rule, every index into its fields and its actions stays in range until it closes.\<close>
theorem form_never_panics:
  "\<exists>f g. newAddForm lib target = Some f \<and> newEditForm lib host target key rule = Some g
    \<and> (\<forall>msgs k. \<exists>r s. form_run lib host api tm um msgs f k = Some r
        \<and> form_run lib host api tm um msgs g k = Some s)"
  using new_form_wf(1) [of lib target] new_form_wf(2) [of lib host target key rule] form_run_total by metis

text \<open>C30: a key event writes to the maps only when it is \<open>enter\<close> on a form that parses into a valid
  rule; it then closes the form, and the one cell it writes is that rule under the parsed key in the
  map the form is for. The devmap is not provisioned, unlike by \<open>add-teid\<close>.\<close>
theorem form_commits_one_cell:
  assumes "bpf_maps api pinned entries"
    and "form_key lib host api tm um msg f k = Some (f', c, k')"
  shows "entries k' = entries k \<or>
    (\<exists>key rule. KeyString lib msg = ''enter'' \<and> buildRule lib host f = Some (Inr (key, rule))
      \<and> rule_ok rule \<and> f' = None \<and> c = FetchCmd
      \<and> entries k' = cell_set (entries k) (if Target f = ''teid'' then tm else um) key
          (Some (RuleV rule)))"
  using bpf_maps.form_key_entries [OF assms] buildRule_Inr(3) form_rule_ok by blast

lemma lab_add_form_enter:
  "\<exists>k'. form_key ref_lib lab_host ref_api 0 1 ''enter'' lab_add_form loaded_kernel = Some (None, FetchCmd, k')
    \<and> ref_entries k' \<noteq> ref_entries loaded_kernel"
proof -
  have "KeyString ref_lib ''enter'' = ''enter''" by (simp add: ref_lib_def)
  moreover have "Target lab_add_form = ''teid''" by (simp add: lab_add_form_def)
  ultimately show ?thesis
    by (simp add: form_key_def form_submit_def lab_add_form_build TeidMap_Put_def ref_eval
        ref_entries_def fun_eq_iff; metis option.distinct(1))
qed

lemma form_commits_one_cell_witness:
  "\<exists>k'. form_key ref_lib lab_host ref_api 0 1 ''enter'' lab_add_form loaded_kernel = Some (None, FetchCmd, k')
    \<and> ref_entries k' = cell_set (ref_entries loaded_kernel) 0 0xDEAD
        (Some (RuleV (zero_rule\<lparr>Action := ActionDrop, RatePPS := 100\<rparr>)))"
proof -
  obtain k' where r: "form_key ref_lib lab_host ref_api 0 1 ''enter'' lab_add_form loaded_kernel = Some (None, FetchCmd, k')"
    "ref_entries k' \<noteq> ref_entries loaded_kernel" using lab_add_form_enter by blast
  have "Target lab_add_form = ''teid''" by (simp add: lab_add_form_def)
  with form_commits_one_cell [OF ref.bpf_maps_axioms r(1)] r show ?thesis
    by (auto simp: lab_add_form_build)
qed

text \<open>C31: the form accepts nothing the commands refuse: a rule built by an add form is the rule
  \<open>add-teid\<close> (\<open>add-ueip\<close>) builds under the same key from the flags that say the same: the texts of the
  fields, and for the numeric flags the numbers the texts of the fields denote.\<close>
theorem form_matches_commands:
  assumes "buildRule lib host f = Some (Inr (key, rule))" and "\<not> Editing f"
  shows "(Target f = ''teid'' \<longrightarrow> add_teid_build (ByName host) (form_teid_flags lib f) = Inr (key, rule))
    \<and> (Target f = ''ueip'' \<longrightarrow> (\<exists>ip. add_ueip_build (ByName host) (form_ueip_flags lib f) = Inr (ip, rule)
        \<and> ipKey ip = Inr key))"
proof (intro conjI impI)
  obtain action where a: "ParseAction (actionOptions ! nat (ActionIdx f)) = Inr action"
    "form_map_key lib f = Inr key"
    "form_rule host (Target f) (fieldValue lib (Fields f)) action = Inr rule"
    using buildRule_Inr(3) [OF assms(1)] by blast
  show "add_teid_build (ByName host) (form_teid_flags lib f) = Inr (key, rule)"
    if t: "Target f = ''teid''"
  proof -
    have r: "form_reads host (fieldValue lib (Fields f)) action (uint_text 16) rule"
      using a(3) t form_rule_reads(1) by simp
    then show ?thesis
      using teid_build_of_reads [OF r _ a(1)] a(2) assms(2) t
      by (simp add: form_teid_flags_def form_reads_numbers [OF r] form_map_key_def parseHexOrDec_parseTEID Let_def)
  qed
  show "\<exists>ip. add_ueip_build (ByName host) (form_ueip_flags lib f) = Inr (ip, rule) \<and> ipKey ip = Inr key"
    if u: "Target f = ''ueip''"
  proof -
    let ?ip = "ParseIP (InputValue lib (KeyInput f))"
    have r: "form_reads host (fieldValue lib (Fields f)) action (\<lambda>_ p. p = 0) rule"
      using a(3) u form_rule_reads(2) by simp
    then have "DstPort rule = 0" by (auto simp: form_reads_def reads_zero)
    moreover have ip: "\<not> not_ipv4 ?ip" "IPToUint32 ?ip = Inr key"
      using a(2) u assms(2) by (auto simp: form_map_key_def Let_def split: if_splits)
    moreover from this have "ipKey ?ip = Inr key"
      by (auto simp: ipKey_def IPToUint32_def split: list.splits)
    ultimately show ?thesis
      using ueip_build_of_reads [OF r _ _ a(1)] by (auto simp: form_ueip_flags_def form_reads_numbers [OF r] not_ipv4_def Let_def)
  qed
qed

lemma form_matches_commands_witness:
  "add_teid_build lab_ifaces (form_teid_flags ref_lib lab_add_form)
     = Inr (0xDEAD, zero_rule\<lparr>Action := ActionDrop, RatePPS := 100\<rparr>)"
  using form_matches_commands [OF lab_add_form_build]
  by (simp add: lab_add_form_def lab_host_def)

text \<open>C32: tab reaches every slot: from any focus and for any slot there is a number of tabs, at most one
  round, after which that slot and no other has the focus. Everything else is as it was: the target,
  the key, the action, the error line and the text of every input, whether it parses or not.\<close>
theorem tab_reaches_every_slot:
  assumes "text_inputs lib limit focused" and "KeyString lib msg = ''tab''" and "form_wf f"
    and "focus_matches focused f" and "0 \<le> j" and "j < form_total f"
  shows "\<exists>n g. int n < form_total f
    \<and> form_run lib host api tm um (replicate n msg) f k = Some (Some g, k)
    \<and> FocusIdx g = j \<and> focus_matches focused g
    \<and> form_shows lib g = form_shows lib f \<and> buildRule lib host g = buildRule lib host f"
proof -
  let ?n = "nat ((j - FocusIdx f) mod form_total f)"
  have pos: "0 < form_total f" by (rule form_total_pos)
  have e: "Editing f \<longrightarrow> \<not> focused (KeyInput f)"
    using assms(4) kindAt_kinds [of f "FocusIdx f"] by (auto simp: focus_matches_def)
  have "(FocusIdx f + int ?n) mod form_total f = j"
    using pos assms(5,6) by (simp add: mod_add_right_eq)
  moreover have "int ?n < form_total f" using pos by simp
  ultimately show ?thesis
    using text_inputs.tabs [OF assms(1,2,3) e assms(4)] by metis
qed

lemma lab_add_form_wf: "form_wf (lab_add_form\<lparr>FocusIdx := 1\<rparr>)"
  "focus_matches RFocus (lab_add_form\<lparr>FocusIdx := 1\<rparr>)"
  by (simp_all add: form_wf_def lab_add_form_def actionOptions_def form_total_def comp_def
      focus_matches_def kindAt_def lab_input_def)

lemma tab_reaches_every_slot_witness:
  "\<exists>n g. form_run ref_lib lab_host ref_api 0 1 (replicate n ''tab'') (lab_add_form\<lparr>FocusIdx := 1\<rparr>) loaded_kernel
      = Some (Some g, loaded_kernel) \<and> FocusIdx g = 0"
  using tab_reaches_every_slot [OF rt.text_inputs_axioms _ lab_add_form_wf, of "''tab''" 0 lab_host ref_api 0 1
      loaded_kernel] form_total_pos [of "lab_add_form\<lparr>FocusIdx := 1\<rparr>"]
  by (auto simp: ref_lib_def)

text \<open>An open form shows exactly one focus marker: one line of the rendered form starts with it.\<close>
theorem form_one_marker:
  assumes "form_wf f"
  shows "\<exists>ls. form_lines lib f = Some ls \<and> length (filter (\<lambda>(m, t). m = ''> '') ls) = 1"
proof -
  have c: "filter (\<lambda>(m, t). m = ''> '') (map (field_line lib f) xs) =
      map (field_line lib f) (filter (\<lambda>i. kindAt f (FocusIdx f) = (''field'', int i)) xs)" for xs
    by (simp add: filter_map comp_def field_line_def)
  from assms have "0 \<le> FocusIdx f" "FocusIdx f < form_total f" by (simp_all add: form_wf_def)
  then show ?thesis
  proof (cases rule: kindAt_cases)
    case (3 n)
    then have "filter (\<lambda>i. n = i) [0..<length (Fields f)] = [n]"
      using count_index [of n "length (Fields f)"]
      by (auto simp: length_Suc_conv eq_commute [of n] filter_eq_Cons_iff)
    with 3(1,2) assms show ?thesis
      by (simp add: form_lines_def key_line_def Let_def c form_wf_def nat_less_iff)
  qed (use assms in \<open>simp_all add: form_lines_def key_line_def Let_def c form_wf_def nat_less_iff\<close>)
qed

lemma form_one_marker_witness:
  "\<exists>ls. form_lines ref_lib (lab_add_form\<lparr>FocusIdx := 1\<rparr>) = Some ls
    \<and> length (filter (\<lambda>(m, t). m = ''> '') ls) = 1"
  by (rule form_one_marker [OF lab_add_form_wf(1)])

end
