(* ===== verification/Float64.thy ===== *)
theory Float64
  imports GoStd Complex_Main
begin

text \<open>
  What the dashboard uses of \<open>float64\<close>: its finite values are the rationals that \<open>rnd\<close> leaves alone
  (53 significant bits, ties to even; the magnitudes here are far from overflow and underflow),
  every operation is the exact one followed by \<open>rnd\<close>, and \<open>%.1f\<close> prints the exact value rounded to
  tenths, ties to even. \<open>time.Duration\<close> is an \<open>int\<close> of nanoseconds.
\<close>

definition rat_half_even :: "rat \<Rightarrow> int" where
  "rat_half_even x =
     (let f = \<lfloor>x\<rfloor>; r = x - of_int f
      in if r < 1 / 2 then f else if 1 / 2 < r then f + 1 else if even f then f else f + 1)"

definition pow2 :: "int \<Rightarrow> rat" where
  "pow2 e = (if 0 \<le> e then 2 ^ nat e else 1 / 2 ^ nat (- e))"

fun bits :: "nat \<Rightarrow> nat" where
  "bits n = (if n = 0 then 0 else Suc (bits (n div 2)))"

declare bits.simps [simp del]

text \<open>The exponent that scales a positive \<open>x\<close> to at least \<open>2 ^ 52\<close>.\<close>

definition scale :: "rat \<Rightarrow> int" where
  "scale x =
     (case quotient_of x of (p, q) \<Rightarrow>
        let e = int (bits (nat p)) - int (bits (nat q)) - 53
        in if 2 ^ 53 \<le> x / pow2 e then e + 1 else e)"

definition rnd_pos :: "rat \<Rightarrow> rat" where
  "rnd_pos x = of_int (rat_half_even (x / pow2 (scale x))) * pow2 (scale x)"

definition rnd :: "rat \<Rightarrow> rat" where
  "rnd x = (if x = 0 then 0 else if 0 < x then rnd_pos x else - rnd_pos (- x))"

text \<open>\<open>Duration.Seconds\<close>: the whole seconds plus the nanoseconds over 1e9.\<close>

definition go_div :: "int \<Rightarrow> int \<Rightarrow> int" where
  "go_div a b = (if 0 \<le> a then a div b else - ((- a) div b))"

definition Seconds :: "int \<Rightarrow> rat" where
  "Seconds d =
     (let sec = go_div d 1000000000; nsec = d - sec * 1000000000
      in rnd (rnd (of_int sec) + rnd (rnd (of_int nsec) / 1000000000)))"

text \<open>\<open>%.1f\<close> of a value that is not negative.\<close>

definition fmt_1f :: "rat \<Rightarrow> string" where
  "fmt_1f x = (let t = nat (rat_half_even (x * 10)) in fmt_d (t div 10) @ ''.'' @ [digit (t mod 10)])"

section \<open>The rounding error\<close>

lemma rat_half_even_error: "\<bar>of_int (rat_half_even x) - x\<bar> \<le> 1 / 2"
proof -
  have "of_int \<lfloor>x\<rfloor> \<le> x" "x < of_int \<lfloor>x\<rfloor> + 1" using floor_correct [of x] by auto
  then show ?thesis by (auto simp: rat_half_even_def Let_def)
qed

lemma pow2_pos [simp]: "0 < pow2 e"
  by (simp add: pow2_def)

lemma pow2_Suc: "pow2 (e + 1) = 2 * pow2 e"
proof (cases "0 \<le> e")
  case True
  then have "nat (e + 1) = Suc (nat e)" by simp
  with True show ?thesis by (simp add: pow2_def)
next
  case False
  show ?thesis
  proof (cases "e = - 1")
    case False
    with \<open>\<not> 0 \<le> e\<close> have "nat (- e) = Suc (nat (- (e + 1)))" "\<not> 0 \<le> e + 1" by auto
    with \<open>\<not> 0 \<le> e\<close> show ?thesis by (simp add: pow2_def)
  qed (simp add: pow2_def)
qed

lemma pow2_add_nat: "pow2 (e + int n) = pow2 e * 2 ^ n"
proof (induction n)
  case (Suc n)
  have "pow2 (e + int (Suc n)) = pow2 (e + int n + 1)" by (simp add: algebra_simps)
  with Suc show ?case by (simp only: pow2_Suc) simp
qed simp

lemma pow2_0 [simp]: "pow2 0 = 1" by (simp add: pow2_def)

lemma pow2_nat [simp]: "pow2 (int n) = 2 ^ n" by (simp add: pow2_def)

lemma pow2_diff: "pow2 (int a - int b) = 2 ^ a / 2 ^ b"
proof -
  have "pow2 (int a - int b + int b) = pow2 (int a - int b) * 2 ^ b" by (rule pow2_add_nat)
  then show ?thesis by (simp add: field_simps)
qed

lemma bits_bounds: "0 < n \<Longrightarrow> 2 ^ (bits n - 1) \<le> n \<and> n < 2 ^ bits n \<and> 0 < bits n"
proof (induction n rule: bits.induct)
  case (1 n)
  show ?case
  proof (cases "n = 1")
    case True
    then show ?thesis by (simp add: bits.simps [of "Suc 0"] bits.simps [of 0])
  next
    case False
    with 1 have ih: "2 ^ (bits (n div 2) - 1) \<le> n div 2" "n div 2 < 2 ^ bits (n div 2)" "0 < bits (n div 2)"
      by auto
    have b: "bits n = Suc (bits (n div 2))" using 1(2) by (subst bits.simps) simp
    then have "(2 :: nat) ^ (bits n - 1) = 2 * 2 ^ (bits (n div 2) - 1)" using ih(3) by (cases "bits (n div 2)") auto
    moreover have "(2 :: nat) ^ bits n = 2 * 2 ^ bits (n div 2)" "0 < bits n" using b by simp_all
    moreover have "n div 2 * 2 \<le> n" "n < n div 2 * 2 + 2" by presburger+
    ultimately show ?thesis using ih(1,2) by linarith
  qed
qed

lemma scale_bound:
  assumes "0 < x"
  shows "2 ^ 52 \<le> x / pow2 (scale x)"
proof -
  obtain p q where pq: "quotient_of x = (p, q)" by fastforce
  have q: "0 < q" and x: "x = of_int p / of_int q"
    using quotient_of_denom_pos [OF pq] quotient_of_div [OF pq] by auto
  then have p: "0 < p" using assms by (simp add: zero_less_divide_iff)
  define a b where "a = bits (nat p)" and "b = bits (nat q)"
  have pa: "2 ^ (a - 1) \<le> nat p" "0 < a" and qb: "nat q < 2 ^ b"
    using bits_bounds [of "nat p"] bits_bounds [of "nat q"] p q by (simp_all add: a_def b_def)
  have pr: "(2 :: rat) ^ (a - 1) \<le> of_int p"
  proof -
    have "(of_nat (2 ^ (a - 1)) :: rat) \<le> of_nat (nat p)" using pa(1) by (simp only: of_nat_le_iff)
    with p show ?thesis by (simp add: of_nat_nat)
  qed
  have qr: "(of_int q :: rat) \<le> 2 ^ b"
  proof -
    have "(of_nat (nat q) :: rat) \<le> of_nat (2 ^ b)" using qb by (simp only: of_nat_le_iff)
    with q show ?thesis by (simp add: of_nat_nat)
  qed
  define e where "e = int a - int b - 53"
  have "pow2 (e + int 53) = pow2 e * 2 ^ 53" by (rule pow2_add_nat)
  then have pe: "pow2 e * 2 ^ 53 = 2 ^ a / 2 ^ b" using pow2_diff [of a b] by (simp add: e_def)
  have "(2 :: rat) ^ a = 2 * 2 ^ (a - 1)" using pa(2) by (cases a) auto
  then have "(2 :: rat) ^ a / 2 ^ b \<le> 2 * x"
    unfolding x using pr qr q p by (simp add: frac_le)
  with pe have low: "pow2 e * 2 ^ 52 \<le> x" by simp
  have sc: "scale x = (if 2 ^ 53 \<le> x / pow2 e then e + 1 else e)"
    by (simp add: scale_def pq a_def b_def e_def Let_def)
  have pos: "0 < pow2 e" by simp
  show ?thesis
  proof (cases "2 ^ 53 \<le> x / pow2 e")
    case True
    then have "2 ^ 53 * pow2 e \<le> x" by (simp only: pos_le_divide_eq [OF pos])
    then have "2 ^ 52 * pow2 (e + 1) \<le> x" by (simp add: pow2_Suc)
    with True show ?thesis by (simp only: sc if_True pos_le_divide_eq [OF pow2_pos])
  next
    case False
    with low show ?thesis by (simp only: sc if_False pos_le_divide_eq [OF pos] mult.commute)
  qed
qed

lemma rnd_pos_error:
  assumes "0 < x"
  shows "\<bar>rnd_pos x - x\<bar> \<le> x / 2 ^ 53"
proof -
  let ?s = "pow2 (scale x)"
  have s: "0 < ?s" by simp
  then have n: "?s \<noteq> 0" by (rule less_imp_neq [symmetric])
  have "rnd_pos x - x = (of_int (rat_half_even (x / ?s)) - x / ?s) * ?s"
    by (simp add: rnd_pos_def left_diff_distrib n)
  then have "\<bar>rnd_pos x - x\<bar> \<le> 1 / 2 * ?s"
    using mult_right_mono [OF rat_half_even_error [of "x / ?s"] less_imp_le [OF s]]
    by (simp only: abs_mult abs_of_pos [OF s])
  also have "\<dots> \<le> x / 2 ^ 53"
  proof -
    have "2 ^ 52 * ?s \<le> x" using scale_bound [OF assms] by (simp only: pos_le_divide_eq [OF s])
    then show ?thesis by simp
  qed
  finally show ?thesis .
qed

lemma rnd_error: "0 \<le> x \<Longrightarrow> \<bar>rnd x - x\<bar> \<le> x / 2 ^ 53"
  using rnd_pos_error [of x] by (auto simp: rnd_def)

lemma rnd_nonneg: "0 \<le> x \<Longrightarrow> 0 \<le> rnd x"
proof -
  assume x: "0 \<le> x"
  then have "x / 2 ^ 53 \<le> x" by simp
  with rnd_error [OF x] have "\<bar>rnd x - x\<bar> \<le> x" by linarith
  with x show ?thesis by (simp only: abs_le_iff) linarith
qed

lemma rnd_0 [simp]: "rnd 0 = 0"
  by (simp add: rnd_def)

end
