(* ===== verification/Dashboard.thy ===== *)
theory Dashboard
  imports FormRuns Float64
begin

text \<open>
  \<open>control/tui/dashboard.go\<close>: the live dashboard. \<open>Update\<close> is the model's message handler and \<open>View\<close>
  its rendering; a run-time panic is \<open>None\<close>. What the code takes from outside is the record \<open>tui_env\<close>:
  the text inputs and key events of \<open>bubbles\<close>/\<open>bubbletea\<close>, the host's interfaces, the BPF maps, the
  styles of \<open>lipgloss\<close>, the text of an error, the host's clock format, processes and files. Times are
  nanoseconds (\<open>int\<close>); \<open>now\<close> is \<open>time.Now()\<close>, \<open>ktime\<close> is \<open>maps.MonotonicNowNs()\<close>.
\<close>

section \<open>The environment\<close>

record ('t, 'e, 'c, 'k) tui_env =
  Lib :: "('t, 'e, 'c) tui_lib"
  Host :: host
  Api :: "'k bpf_api"
  Styles :: styles
  ErrText :: "go_error \<Rightarrow> string"
  FormatTime :: "string \<Rightarrow> int \<Rightarrow> string"
  Exec :: "string list \<Rightarrow> 'k \<Rightarrow> go_error option \<times> 'k"
  WriteFile :: "string \<Rightarrow> string \<Rightarrow> 'k \<Rightarrow> go_error option \<times> 'k"
  WriteStdout :: "string \<Rightarrow> 'k \<Rightarrow> 'k"

text \<open>\<open>Time.Sub\<close> saturates at the range of \<open>time.Duration\<close>.\<close>

definition Time_Sub :: "int \<Rightarrow> int \<Rightarrow> int" where
  "Time_Sub t u = max (- (2 ^ 63)) (min (2 ^ 63 - 1) (t - u))"

text \<open>\<open>Duration.String\<close>: the fraction without its trailing zeros, and the units that are not zero.\<close>

fun fmt_frac :: "nat \<Rightarrow> nat \<Rightarrow> string \<Rightarrow> string" where
  "fmt_frac 0 v s = (if s = [] then [] else CHR ''.'' # s)"
| "fmt_frac (Suc prec) v s =
     fmt_frac prec (v div 10) (if s = [] \<and> v mod 10 = 0 then [] else digit (v mod 10) # s)"

definition Duration_String :: "int \<Rightarrow> string" where
  "Duration_String d =
     (let u = nat \<bar>d\<bar>; sec = u div 10 ^ 9; frac = fmt_frac 9 u [] in
      (if d < 0 then ''-'' else []) @
      (if u = 0 then ''0s''
       else if u < 10 ^ 3 then fmt_d u @ ''ns''
       else if u < 10 ^ 6 then fmt_d (u div 10 ^ 3) @ fmt_frac 3 u [] @ [char_of (194 :: nat), char_of (181 :: nat)] @ ''s''
       else if u < 10 ^ 9 then fmt_d (u div 10 ^ 6) @ fmt_frac 6 u [] @ ''ms''
       else (if 3600 \<le> sec then fmt_d (sec div 3600) @ ''h'' else []) @
            (if 60 \<le> sec then fmt_d (sec div 60 mod 60) @ ''m'' else []) @
            fmt_d (sec mod 60) @ frac @ ''s''))"

text \<open>\<open>base64.StdEncoding.EncodeToString\<close>.\<close>

definition base64_char :: "nat \<Rightarrow> char" where
  "base64_char n =
     char_of (if n < 26 then 65 + n else if n < 52 then 71 + n else if n < 62 then n - 4
              else if n = 62 then 43 else 47)"

fun base64 :: "nat list \<Rightarrow> string" where
  "base64 [] = []"
| "base64 [a] = [base64_char (a div 4), base64_char (a mod 4 * 16), CHR ''='', CHR ''='']"
| "base64 [a, b] =
     [base64_char (a div 4), base64_char (a mod 4 * 16 + b div 16), base64_char (b mod 16 * 4), CHR ''='']"
| "base64 (a # b # c # s) =
     [base64_char (a div 4), base64_char (a mod 4 * 16 + b div 16),
      base64_char (b mod 16 * 4 + c div 64), base64_char (c mod 64)] @ base64 s"

section \<open>The model\<close>

datatype ui_mode = modeView | modeForm | modeConfirmDelete | modeHelp

datatype panel_focus = focusTeid | focusUeip

record data_msg =
  MTeid :: rule_table
  MUeip :: rule_table
  MCounters :: "counters option"
  MFetchedAt :: int
  MErr :: "go_error option"

datatype 'e tea_msg =
    WindowSizeMsg int
  | KeyMsg 'e
  | PingToggledMsg bool "go_error option"
  | CopyResultMsg string "go_error option"
  | TickMsg
  | DataMsg data_msg
  | OtherMsg

text \<open>A nil map and an empty one read alike; a zero \<open>time.Time\<close> is \<open>None\<close>.\<close>

record 't ui_model =
  Tm :: map_fd
  Um :: map_fd
  Interval :: int
  Width :: int
  PingOn :: bool
  PingTarget :: string
  PingInterval :: string
  PingSize :: string
  PingNetns :: string
  Mode :: ui_mode
  Focus :: panel_focus
  TeidRows :: "string list list"
  UeipRows :: "string list list"
  TeidKeys :: "u32 list"
  UeipKeys :: "u32 list"
  TeidSelected :: int
  UeipSelected :: int
  FormOpen :: "'t form_model option"
  ConfirmTarget :: string
  ConfirmKey :: u32
  HaveData :: bool
  LastTeid :: rule_table
  LastUeip :: rule_table
  LastStat :: "counters option"
  PrevStat :: "counters option"
  LastAt :: int
  Elapsed :: rat
  UpdatedAt :: "int option"
  Err :: "go_error option"
  StatusMsg :: string
  StatusUntil :: "int option"

definition defaultWidth :: int where "defaultWidth = 80"
definition fullWidthThreshold :: int where "fullWidthThreshold = 78"
definition mediumWidthThreshold :: int where "mediumWidthThreshold = 60"
definition pingLogPath :: string where "pingLogPath = ''/tmp/gtp-lab-ping.log''"
definition snapshotPath :: string where "snapshotPath = ''/tmp/gtp-dashboard-snapshot.txt''"

definition newModel :: "map_fd \<Rightarrow> map_fd \<Rightarrow> int \<Rightarrow> 't ui_model" where
  "newModel tm um interval =
     \<lparr>Tm = tm, Um = um, Interval = interval, Width = defaultWidth, PingOn = False, PingTarget = '''',
      PingInterval = '''', PingSize = '''', PingNetns = '''', Mode = modeView, Focus = focusTeid,
      TeidRows = [], UeipRows = [], TeidKeys = [], UeipKeys = [], TeidSelected = 0, UeipSelected = 0,
      FormOpen = None, ConfirmTarget = '''', ConfirmKey = 0, HaveData = False, LastTeid = [],
      LastUeip = [], LastStat = None, PrevStat = None, LastAt = 0, Elapsed = 0, UpdatedAt = None,
      Err = None, StatusMsg = '''', StatusUntil = None\<rparr>"

definition envOr :: "(string \<Rightarrow> string) \<Rightarrow> string \<Rightarrow> string \<Rightarrow> string" where
  "envOr getenv key def = (if getenv key \<noteq> [] then getenv key else def)"

text \<open>The start of \<open>Run\<close>: both maps are opened, and the ping is configured from the environment.\<close>

definition Run_model ::
  "'k bpf_api \<Rightarrow> (string \<Rightarrow> string) \<Rightarrow> int \<Rightarrow> ('k, 't ui_model) run" where
  "Run_model api getenv interval k =
     (case OpenTeidMap api k of
        (Inl e, k1) \<Rightarrow> (Inl (Wrapped ''dashboard'' e), k1)
      | (Inr tm, k1) \<Rightarrow>
          (case OpenUeipMap api k1 of
             (Inl e, k2) \<Rightarrow> (Inl (Wrapped ''dashboard'' e), MapClose api tm k2)
           | (Inr um, k2) \<Rightarrow>
               (Inr ((newModel tm um interval)\<lparr>
                  PingTarget := envOr getenv ''PING_TARGET'' ''8.8.8.8'',
                  PingInterval := envOr getenv ''PING_INTERVAL'' ''0.05'',
                  PingSize := envOr getenv ''PING_SIZE'' ''64'',
                  PingNetns := envOr getenv ''PING_NETNS'' ''ran''\<rparr>), k2)))"

text \<open>\<open>program\<close> is the run of bubbletea on the model, which calls \<open>Init\<close>, \<open>Update\<close> and \<open>View\<close>; the maps are
  closed in the reverse order when it returns.\<close>

definition Run ::
  "'k bpf_api \<Rightarrow> (string \<Rightarrow> string) \<Rightarrow> ('t ui_model \<Rightarrow> ('k, unit) run) \<Rightarrow> int \<Rightarrow> ('k, unit) run" where
  "Run api getenv program interval k =
     (case Run_model api getenv interval k of
        (Inl e, k1) \<Rightarrow> (Inl e, k1)
      | (Inr m, k1) \<Rightarrow>
          (case program m k1 of (r, k2) \<Rightarrow> (r, MapClose api (Tm m) (MapClose api (Um m) k2))))"

section \<open>Tables\<close>

definition columnsFor :: "int \<Rightarrow> string \<Rightarrow> nat \<Rightarrow> string list \<times> nat list \<times> bool" where
  "columnsFor width keyLabel keyWidth =
     (if fullWidthThreshold \<le> width
      then ([keyLabel, ''ACTION'', ''IFINDEX'', ''PACKETS'', ''BYTES'', ''PPS''],
            [keyWidth, 10, 5, 8, 10, 7], False)
      else if mediumWidthThreshold \<le> width
      then ([keyLabel, ''ACTION'', ''IFINDEX'', ''PACKETS'', ''PPS''], [keyWidth, 10, 5, 8, 7], False)
      else ([], [], True))"

fun drop_nth :: "nat \<Rightarrow> 'a list \<Rightarrow> 'a list" where
  "drop_nth i [] = []"
| "drop_nth 0 (x # xs) = xs"
| "drop_nth (Suc i) (x # xs) = x # drop_nth i xs"

definition dropColumn :: "string list list \<Rightarrow> nat \<Rightarrow> string list list" where
  "dropColumn rows idx = map (drop_nth idx) rows"

text \<open>\<open>writeRow\<close>: a missing cell is blank, a cell beyond the columns is not shown, a long one is not cut.\<close>

fun row_cells :: "nat list \<Rightarrow> string list \<Rightarrow> string" where
  "row_cells [] cells = []"
| "row_cells (w # ws) [] = pad_right w [] @ ''  '' @ row_cells ws []"
| "row_cells (w # ws) (c # cs) = pad_right w c @ ''  '' @ row_cells ws cs"

definition writeRow :: "nat list \<Rightarrow> string \<Rightarrow> string list \<Rightarrow> string" where
  "writeRow widths marker cells = marker @ row_cells widths cells @ newline"

fun write_rows :: "nat list \<Rightarrow> int \<Rightarrow> int \<Rightarrow> string list list \<Rightarrow> string" where
  "write_rows widths selected i [] = []"
| "write_rows widths selected i (r # rs) =
     writeRow widths (if i = selected then ''> '' else ''  '') r @ write_rows widths selected (i + 1) rs"

definition renderTable :: "string list \<Rightarrow> nat list \<Rightarrow> string list list \<Rightarrow> int \<Rightarrow> string" where
  "renderTable headers widths rows selected =
     writeRow widths ''  '' headers @ writeRow widths ''  '' (dashes widths) @
     (if rows = [] then ''  (empty)'' @ newline else []) @ write_rows widths selected 0 rows"

definition renderPanel :: "int \<Rightarrow> string \<Rightarrow> nat \<Rightarrow> string list list \<Rightarrow> int \<Rightarrow> string" where
  "renderPanel width keyLabel keyWidth rows selected =
     (case columnsFor width keyLabel keyWidth of (headers, widths, tooNarrow) \<Rightarrow>
        if tooNarrow then ''(terminal too narrow for table view - resize to at least 60 columns)''
        else renderTable headers widths
               (if length headers = 5 then dropColumn rows 4 else rows) selected)"

section \<open>Rows\<close>

definition formatTEID :: "u32 \<Rightarrow> string" where
  "formatTEID key = ''0x'' @ fmt_08X key"

definition formatUEIP :: "u32 \<Rightarrow> string" where
  "formatUEIP key = IP4_String (Uint32ToIP key)"

definition pps :: "u64 \<Rightarrow> u64 \<Rightarrow> rat \<Rightarrow> bool \<Rightarrow> rat" where
  "pps cur prev elapsed havePrev =
     (if \<not> havePrev \<or> elapsed \<le> 0 \<or> cur < prev then 0
      else rnd (rnd (of_nat (unat (cur - prev))) / elapsed))"

definition build_row ::
  "rule_table \<Rightarrow> rat \<Rightarrow> bool \<Rightarrow> (u32 \<Rightarrow> string) \<Rightarrow> u32 \<Rightarrow> fwd_rule \<Rightarrow> string list" where
  "build_row prev elapsed havePrev keyFmt k r =
     (let (prevPkts, havePrevKey) = (case map_of prev k of
            Some p \<Rightarrow> (PktCount p, havePrev)
          | None \<Rightarrow> (0, False));
          p = pps (PktCount r) prevPkts elapsed havePrevKey
      in [keyFmt k, ActionString (Action r), fmt_d (unat (OutIfindex r)), fmt_d (unat (PktCount r)),
          FormatBytes (ByteCount r), fmt_1f p @ ''/s''])"

definition buildRows ::
  "rule_table \<Rightarrow> rule_table \<Rightarrow> rat \<Rightarrow> bool \<Rightarrow> (u32 \<Rightarrow> string) \<Rightarrow> u32 list \<times> string list list" where
  "buildRows cur prev elapsed havePrev keyFmt =
     (let keys = sort (map fst cur)
      in (keys, map (\<lambda>k. build_row prev elapsed havePrev keyFmt k (the (map_of cur k))) keys))"

definition enforcementState :: "u64 \<Rightarrow> fwd_rule \<Rightarrow> string" where
  "enforcementState ktime r =
     (if QuarantineUntilNs r \<noteq> 0 \<and> ktime < QuarantineUntilNs r then ''HELD''
      else if 0 < QuarantineThreshold r then ''armed''
      else ''-'')"

definition enforcement_row :: "u64 \<Rightarrow> (u32 \<Rightarrow> string) \<Rightarrow> u32 \<Rightarrow> fwd_rule \<Rightarrow> string list" where
  "enforcement_row ktime keyFmt k r =
     [keyFmt k,
      if 0 < RatePPS r then fmt_d (unat (RatePPS r)) @ ''/s'' else ''-'',
      fmt_d (unat (RateDropCount r)),
      if 0 < QuarantineThreshold r
      then fmt_d (unat (QuarantineThreshold r)) @ ''/'' @ fmt_d (unat (QuarantineSeconds r)) @ ''s''
      else ''-'',
      enforcementState ktime r]"

text \<open>The closure \<open>collect\<close>.\<close>

definition collect_policy :: "u64 \<Rightarrow> rule_table \<Rightarrow> (u32 \<Rightarrow> string) \<Rightarrow> string list list" where
  "collect_policy ktime m keyFmt =
     map (\<lambda>k. enforcement_row ktime keyFmt k (the (map_of m k)))
       (filter (\<lambda>k. \<not> (RatePPS (the (map_of m k)) = 0 \<and> QuarantineThreshold (the (map_of m k)) = 0))
          (sort (map fst m)))"

definition enforcementRows :: "u64 \<Rightarrow> rule_table \<Rightarrow> rule_table \<Rightarrow> string list list" where
  "enforcementRows ktime teid ueip =
     collect_policy ktime teid formatTEID @ collect_policy ktime ueip formatUEIP"

definition renderEnforcement :: "u64 \<Rightarrow> 't ui_model \<Rightarrow> string" where
  "renderEnforcement ktime m =
     (let rows = enforcementRows ktime (LastTeid m) (LastUeip m) in
      if rows = [] then ''  (no rate-limit or quarantine policy set)''
      else renderTable [''SUBSCRIBER'', ''CAP'', ''DROPPED'', ''QUAR'', ''STATE''] [15, 8, 8, 10, 6] rows (-1))"

definition stat_line :: "bool \<Rightarrow> rat \<Rightarrow> string \<Rightarrow> verdict_stat \<Rightarrow> verdict_stat \<Rightarrow> string" where
  "stat_line havePrev elapsed name cur prev =
     pad_right 10 name @ ''  '' @ pad_left 12 (fmt_d (unat (Packets cur))) @ ''  '' @
     pad_left 12 (stats_FormatBytes (Bytes cur)) @ ''  '' @
     pad_left 9 (fmt_1f (pps (Packets cur) (Packets prev) elapsed havePrev)) @ ''/s'' @ newline"

definition stat_heading :: "string \<Rightarrow> string \<Rightarrow> string \<Rightarrow> string \<Rightarrow> string" where
  "stat_heading a b c d =
     pad_right 10 a @ ''  '' @ pad_left 12 b @ ''  '' @ pad_left 12 c @ ''  '' @ pad_left 10 d @ newline"

definition renderStats :: "'t ui_model \<Rightarrow> string" where
  "renderStats m =
     (case LastStat m of
        None \<Rightarrow> ''(no data yet)''
      | Some cur \<Rightarrow>
          let havePrev = PrevStat m \<noteq> None;
              zero = \<lparr>Packets = 0, Bytes = 0\<rparr>;
              prev = (case PrevStat m of
                        Some p \<Rightarrow> p
                      | None \<Rightarrow> \<lparr>CPass = zero, CDrop = zero, CRedirect = zero\<rparr>);
              line = stat_line havePrev (Elapsed m)
          in stat_heading ''VERDICT'' ''PACKETS'' ''BYTES'' ''PPS'' @
             stat_heading ''-------'' ''-------'' ''-----'' ''---'' @
             line ''PASS'' (CPass cur) (CPass prev) @ line ''DROP'' (CDrop cur) (CDrop prev) @
             line ''REDIRECT'' (CRedirect cur) (CRedirect prev))"

section \<open>Selection\<close>

definition clamp :: "int \<Rightarrow> int \<Rightarrow> int \<Rightarrow> int" where
  "clamp v lo hi = (if v < lo then lo else if hi < v then hi else v)"

definition focusTarget :: "'t ui_model \<Rightarrow> string" where
  "focusTarget m = (if Focus m = focusTeid then ''teid'' else ''ueip'')"

definition moveSelection :: "int \<Rightarrow> 't ui_model \<Rightarrow> 't ui_model" where
  "moveSelection delta m =
     (if Focus m = focusTeid
      then (let n = int (length (TeidKeys m)) in
            if n = 0 then m else m\<lparr>TeidSelected := clamp (TeidSelected m + delta) 0 (n - 1)\<rparr>)
      else (let n = int (length (UeipKeys m)) in
            if n = 0 then m else m\<lparr>UeipSelected := clamp (UeipSelected m + delta) 0 (n - 1)\<rparr>))"

text \<open>\<open>None\<close> is the result \<open>ok = false\<close>; the index is in range otherwise.\<close>

definition selectedRule :: "'t ui_model \<Rightarrow> (u32 \<times> fwd_rule option) option" where
  "selectedRule m =
     (if Focus m = focusTeid
      then (if TeidSelected m < 0 \<or> int (length (TeidKeys m)) \<le> TeidSelected m then None
            else let key = TeidKeys m ! nat (TeidSelected m) in Some (key, map_of (LastTeid m) key))
      else (if UeipSelected m < 0 \<or> int (length (UeipKeys m)) \<le> UeipSelected m then None
            else let key = UeipKeys m ! nat (UeipSelected m) in Some (key, map_of (LastUeip m) key)))"

section \<open>Commands\<close>

text \<open>What the closures returned to the runtime do when it runs them.\<close>

definition failed_fetch :: "string \<Rightarrow> go_error \<Rightarrow> data_msg" where
  "failed_fetch label e =
     \<lparr>MTeid = [], MUeip = [], MCounters = None, MFetchedAt = 0, MErr = Some (Wrapped label e)\<rparr>"

definition fetchCmd :: "'k bpf_api \<Rightarrow> map_fd \<Rightarrow> map_fd \<Rightarrow> int \<Rightarrow> 'k \<Rightarrow> data_msg \<times> 'k" where
  "fetchCmd api tm um now k =
     (case TeidMap_List api tm k of
        Inl e \<Rightarrow> (failed_fetch ''teid_map'' e, k)
      | Inr teidEntries \<Rightarrow>
          (case UeipMap_List api um k of
             Inl e \<Rightarrow> (failed_fetch ''ueip_map'' e, k)
           | Inr ueipEntries \<Rightarrow>
               (case stats_Read api PinStatsMap k of
                  (Inl e, k') \<Rightarrow> (failed_fetch ''stats_map'' e, k')
                | (Inr c, k') \<Rightarrow>
                    (\<lparr>MTeid = teidEntries, MUeip = ueipEntries, MCounters = Some c, MFetchedAt = now,
                      MErr = None\<rparr>, k'))))"

definition startPingCmd ::
  "('t, 'e, 'c, 'k) tui_env \<Rightarrow> string \<Rightarrow> string \<Rightarrow> string \<Rightarrow> string \<Rightarrow> 'k \<Rightarrow> 'e tea_msg \<times> 'k" where
  "startPingCmd env ns interval psize target k =
     (let sh = ''ip netns exec '' @ ns @ '' ping -i '' @ interval @ '' -s '' @ psize @ '' '' @ target @
               '' >'' @ pingLogPath @ '' 2>&1 &''
      in case Exec env [''bash'', ''-c'', sh] k of
           (Some e, k') \<Rightarrow> (PingToggledMsg False (Some e), k')
         | (None, k') \<Rightarrow> (PingToggledMsg True None, k'))"

definition stopPingSync :: "('t, 'e, 'c, 'k) tui_env \<Rightarrow> string \<Rightarrow> 'k \<Rightarrow> 'k" where
  "stopPingSync env target k = snd (Exec env [''pkill'', ''-f'', ''ping -i .* '' @ target] k)"

definition stopPingCmd :: "('t, 'e, 'c, 'k) tui_env \<Rightarrow> string \<Rightarrow> 'k \<Rightarrow> 'e tea_msg \<times> 'k" where
  "stopPingCmd env target k = (PingToggledMsg False None, stopPingSync env target k)"

definition copyCmd :: "('t, 'e, 'c, 'k) tui_env \<Rightarrow> string \<Rightarrow> 'k \<Rightarrow> 'e tea_msg \<times> 'k" where
  "copyCmd env content k =
     (case WriteFile env snapshotPath content k of
        (Some e, k') \<Rightarrow> (CopyResultMsg '''' (Some e), k')
      | (None, k') \<Rightarrow>
          (CopyResultMsg snapshotPath None,
           WriteStdout env (char_of (27 :: nat) # '']52;c;'' @ base64 (map of_char content) @ [char_of (7 :: nat)]) k'))"

text \<open>
  The messages a command sends back, and the kernel state after it. \<open>tea.Batch\<close> runs its commands
  concurrently; the message of a text input's own command is one \<open>Update\<close> ignores.
\<close>

definition run_cmd ::
  "('t, 'e, 'c, 'k) tui_env \<Rightarrow> map_fd \<Rightarrow> map_fd \<Rightarrow> int \<Rightarrow> 'c tui_cmd \<Rightarrow> 'k \<Rightarrow> 'e tea_msg list \<times> 'k" where
  "run_cmd env tm um now c k =
     (case c of
        NoCmd \<Rightarrow> ([], k)
      | FetchCmd \<Rightarrow> (case fetchCmd (Api env) tm um now k of (d, k') \<Rightarrow> ([DataMsg d], k'))
      | FetchAndTick \<Rightarrow> (case fetchCmd (Api env) tm um now k of (d, k') \<Rightarrow> ([DataMsg d, TickMsg], k'))
      | QuitCmd \<Rightarrow> ([], k)
      | StartPing ns interval psize target \<Rightarrow>
          (case startPingCmd env ns interval psize target k of (msg, k') \<Rightarrow> ([msg], k'))
      | StopPing target \<Rightarrow> (case stopPingCmd env target k of (msg, k') \<Rightarrow> ([msg], k'))
      | CopyCmd content \<Rightarrow> (case copyCmd env content k of (msg, k') \<Rightarrow> ([msg], k'))
      | InputCmd c \<Rightarrow> ([OtherMsg], k))"

section \<open>The snapshot\<close>

definition plainSnapshot :: "('t, 'e, 'c, 'k) tui_env \<Rightarrow> int \<Rightarrow> u64 \<Rightarrow> 't ui_model \<Rightarrow> string" where
  "plainSnapshot env now ktime m =
     ''GTP-U XDP Router - Dashboard Snapshot ('' @ FormatTime env ''2006-01-02 15:04:05'' now @ '')'' @
     newline @ newline @
     ''teid_map'' @ newline @ renderPanel (Width m) ''TEID'' 12 (TeidRows m) (-1) @ newline @
     ''ueip_map'' @ newline @ renderPanel (Width m) ''UE IP'' 15 (UeipRows m) (-1) @ newline @
     ''enforcement (rate-limit / quarantine)'' @ newline @ renderEnforcement ktime m @ newline @
     ''global verdict counters'' @ newline @ renderStats m"

section \<open>Update\<close>

type_synonym ('t, 'c, 'k) updated = "('t ui_model \<times> 'c tui_cmd \<times> 'k) option"

definition addDefaultRules :: "'k bpf_api \<Rightarrow> 't ui_model \<Rightarrow> ('k, unit) run" where
  "addDefaultRules api m =
     andThen (TeidMap_Put api (Tm m) 0xDEAD (zero_rule\<lparr>Action := ActionDrop\<rparr>)) (\<lambda>_.
     andThen (TeidMap_Put api (Tm m) 0xBEEF
                (zero_rule\<lparr>Action := ActionDrop, RatePPS := 5, QuarantineThreshold := 3,
                   QuarantineSeconds := 30\<rparr>)) (\<lambda>_.
     UeipMap_Put api (Um m) (ParseIP ''10.45.0.99'') (zero_rule\<lparr>Action := ActionDrop, RatePPS := 10\<rparr>)))"

definition second_ns :: int where "second_ns = 1000000000"

definition open_form ::
  "'t ui_model \<Rightarrow> 't form_model option \<Rightarrow> 'k \<Rightarrow> ('t, 'c, 'k) updated" where
  "open_form m f k = map_option (\<lambda>g. (m\<lparr>Mode := modeForm, FormOpen := Some g\<rparr>, NoCmd, k)) f"

definition updateView ::
  "('t, 'e, 'c, 'k) tui_env \<Rightarrow> int \<Rightarrow> u64 \<Rightarrow> 'e \<Rightarrow> 't ui_model \<Rightarrow> 'k \<Rightarrow> ('t, 'c, 'k) updated" where
  "updateView env now ktime key m k =
     (let s = KeyString (Lib env) key in
      if s = ''q'' \<or> s = ''ctrl+c''
      then Some (m, QuitCmd, if PingOn m then stopPingSync env (PingTarget m) k else k)
      else if s = ''p''
      then Some (m, if PingOn m then StopPing (PingTarget m)
                    else StartPing (PingNetns m) (PingInterval m) (PingSize m) (PingTarget m), k)
      else if s = ''t''
      then (case addDefaultRules (Api env) m k of
              (Inl e, k') \<Rightarrow> Some (m\<lparr>Err := Some e\<rparr>, NoCmd, k')
            | (Inr _, k') \<Rightarrow>
                Some (m\<lparr>StatusMsg := ''added default test rules (2 TEID, 1 UE-IP; two under policy)'',
                        StatusUntil := Some (now + 4 * second_ns)\<rparr>, FetchCmd, k'))
      else if s = ''?'' \<or> s = ''h'' then Some (m\<lparr>Mode := modeHelp\<rparr>, NoCmd, k)
      else if s = ''tab''
      then Some (m\<lparr>Focus := (if Focus m = focusTeid then focusUeip else focusTeid)\<rparr>, NoCmd, k)
      else if s = ''up'' \<or> s = ''k'' then Some (moveSelection (-1) m, NoCmd, k)
      else if s = ''down'' \<or> s = ''j'' then Some (moveSelection 1 m, NoCmd, k)
      else if s = ''a'' then open_form m (newAddForm (Lib env) (focusTarget m)) k
      else if s = ''e'' \<or> s = ''enter''
      then (case selectedRule m of
              None \<Rightarrow> Some (m, NoCmd, k)
            | Some (x, rule) \<Rightarrow>
                open_form m (newEditForm (Lib env) (Host env) (focusTarget m) x rule) k)
      else if s = ''d'' \<or> s = ''x''
      then (case selectedRule m of
              None \<Rightarrow> Some (m, NoCmd, k)
            | Some (x, _) \<Rightarrow>
                Some (m\<lparr>Mode := modeConfirmDelete, ConfirmTarget := focusTarget m, ConfirmKey := x\<rparr>,
                      NoCmd, k))
      else if s = ''c'' then Some (m, CopyCmd (plainSnapshot env now ktime m), k)
      else Some (m, NoCmd, k))"

definition updateConfirmDelete ::
  "('t, 'e, 'c, 'k) tui_env \<Rightarrow> 'e \<Rightarrow> 't ui_model \<Rightarrow> 'k \<Rightarrow> ('t, 'c, 'k) updated" where
  "updateConfirmDelete env key m k =
     (let s = KeyString (Lib env) key in
      if s = ''y'' \<or> s = ''enter''
      then (case (if ConfirmTarget m = ''teid'' then TeidMap_Delete (Api env) (Tm m) (ConfirmKey m) k
                  else UeipMap_Delete (Api env) (Um m) (Uint32ToIP (ConfirmKey m)) k) of
              (Inl e, k') \<Rightarrow> Some (m\<lparr>Mode := modeView, Err := Some e\<rparr>, NoCmd, k')
            | (Inr _, k') \<Rightarrow> Some (m\<lparr>Mode := modeView\<rparr>, FetchCmd, k'))
      else if s = ''n'' \<or> s = ''esc'' then Some (m\<lparr>Mode := modeView\<rparr>, NoCmd, k)
      else Some (m, NoCmd, k))"

text \<open>\<open>updateForm\<close> on the pointer \<open>m.form\<close>: everything but \<open>esc\<close> dereferences it.\<close>

definition updateForm ::
  "('t, 'e, 'c, 'k) tui_env \<Rightarrow> 'e \<Rightarrow> 't ui_model \<Rightarrow> 'k \<Rightarrow> ('t, 'c, 'k) updated" where
  "updateForm env key m k =
     (case FormOpen m of
        None \<Rightarrow> if KeyString (Lib env) key = ''esc'' then Some (m\<lparr>Mode := modeView\<rparr>, NoCmd, k) else None
      | Some f \<Rightarrow>
          (case form_key (Lib env) (Host env) (Api env) (Tm m) (Um m) key f k of
             None \<Rightarrow> None
           | Some (None, c, k') \<Rightarrow> Some (m\<lparr>Mode := modeView, FormOpen := None\<rparr>, c, k')
           | Some (Some g, c, k') \<Rightarrow> Some (m\<lparr>FormOpen := Some g\<rparr>, c, k')))"

definition apply_data :: "data_msg \<Rightarrow> 't ui_model \<Rightarrow> 't ui_model" where
  "apply_data msg m =
     (case MErr msg of
        Some e \<Rightarrow> m\<lparr>Err := Some e\<rparr>
      | None \<Rightarrow>
          (let elapsed = (if HaveData m then Seconds (Time_Sub (MFetchedAt msg) (LastAt m)) else 0);
               (teidKeys, teidRows) = buildRows (MTeid msg) (LastTeid m) elapsed (HaveData m) formatTEID;
               (ueipKeys, ueipRows) = buildRows (MUeip msg) (LastUeip m) elapsed (HaveData m) formatUEIP
           in m\<lparr>Err := None, TeidKeys := teidKeys, TeidRows := teidRows,
                UeipKeys := ueipKeys, UeipRows := ueipRows,
                TeidSelected := clamp (TeidSelected m) 0 (max (int (length teidKeys) - 1) 0),
                UeipSelected := clamp (UeipSelected m) 0 (max (int (length ueipKeys) - 1) 0),
                LastTeid := MTeid msg, LastUeip := MUeip msg,
                PrevStat := LastStat m, LastStat := MCounters msg,
                Elapsed := elapsed, LastAt := MFetchedAt msg, HaveData := True,
                UpdatedAt := Some (MFetchedAt msg)\<rparr>))"

definition Update ::
  "('t, 'e, 'c, 'k) tui_env \<Rightarrow> int \<Rightarrow> u64 \<Rightarrow> 'e tea_msg \<Rightarrow> 't ui_model \<Rightarrow> 'k \<Rightarrow> ('t, 'c, 'k) updated" where
  "Update env now ktime msg m k =
     (case msg of
        WindowSizeMsg w \<Rightarrow> Some (m\<lparr>Width := w\<rparr>, NoCmd, k)
      | KeyMsg key \<Rightarrow>
          (case Mode m of
             modeForm \<Rightarrow> updateForm env key m k
           | modeConfirmDelete \<Rightarrow> updateConfirmDelete env key m k
           | modeHelp \<Rightarrow> Some (m\<lparr>Mode := modeView\<rparr>, NoCmd, k)
           | modeView \<Rightarrow> updateView env now ktime key m k)
      | PingToggledMsg on err \<Rightarrow>
          Some (m\<lparr>PingOn := on,
                  StatusMsg := (case err of
                      Some e \<Rightarrow> ''ping: '' @ ErrText env e
                    | None \<Rightarrow> if on then ''ping started -> '' @ PingTarget m @ '' (output in the traffic pane)''
                              else ''ping stopped''),
                  StatusUntil := Some (now + 4 * second_ns)\<rparr>, NoCmd, k)
      | CopyResultMsg path err \<Rightarrow>
          Some (m\<lparr>StatusMsg := (case err of
                      Some e \<Rightarrow> ''snapshot failed: '' @ ErrText env e
                    | None \<Rightarrow> ''saved snapshot to '' @ path @ '' (cat it, or copy from your editor)''),
                  StatusUntil := Some (now + 6 * second_ns)\<rparr>, NoCmd, k)
      | TickMsg \<Rightarrow> Some (m, FetchAndTick, k)
      | DataMsg d \<Rightarrow> Some (apply_data d m, NoCmd, k)
      | OtherMsg \<Rightarrow> Some (m, NoCmd, k))"

section \<open>View\<close>

definition renderConfirm :: "styles \<Rightarrow> 't ui_model \<Rightarrow> string" where
  "renderConfirm st m =
     (let label = (if ConfirmTarget m = ''ueip'' then IP4_String (Uint32ToIP (ConfirmKey m))
                   else ''0x'' @ fmt_08X (ConfirmKey m))
      in PanelStyle st (TitleStyle st ''Confirm delete'' @ newline @ newline @
           ''Delete '' @ ConfirmTarget m @ '' rule for '' @ label @ '' ?'' @ newline @ newline @
           FooterStyle st ''y: confirm   n/esc: cancel''))"

definition manual :: "string list" where
  "manual =
     [''WHAT THIS IS'',
      ''  A per-subscriber view/edit surface over the XDP data plane. Unlike a normal'',
      ''  router (which sees GTP-U as opaque UDP/2152), this acts on an individual'',
      ''  subscriber by TEID or UE IP, in the kernel, before the network stack.'',
      '''',
      ''PANELS'',
      ''  teid_map / ueip_map   forwarding rules (ACTION/IFINDEX/PACKETS/BYTES/PPS)'',
      ''  enforcement           per-subscriber rate-limit / quarantine policy:'',
      ''                        CAP=cap pps  DROPPED=dropped by cap  QUAR=thr/secs'',
      ''                        STATE=armed | HELD (currently blocked)'',
      ''  global verdict        PASS / DROP / REDIRECT totals'',
      '''',
      ''KEYS'',
      ''  tab            switch focus between the teid and ueip panels'',
      ''  up/down (k/j)  move the selection in the focused panel'',
      ''  a              add a rule'',
      ''  e / enter      edit the selected rule (incl. its rate-limit/quarantine)'',
      ''  d / x          delete the selected rule'',
      ''  p              start / stop the traffic ping (output in the traffic pane)'',
      ''  t              add default test rules (populate the panels)'',
      ''  c              save a snapshot to /tmp/gtp-dashboard-snapshot.txt'',
      ''  ? / h          show this manual'',
      ''  q / ctrl+c     quit'',
      '''',
      ''PACKET OPERATIONS (rule actions)'',
      ''  drop      discard the subscriber's traffic'',
      ''  decap     strip GTP-U, forward the inner packet'',
      ''  encap     wrap a bare packet in a fresh GTP-U tunnel'',
      ''  redirect  MAC-rewrite and send out another interface'',
      ''  plus rate-limit (cap pps) and quarantine (auto hard-block) on any rule'',
      '''',
      ''Press any key to return.'']"

definition renderHelp :: "styles \<Rightarrow> string" where
  "renderHelp st =
     PanelStyle st (TitleStyle st ''GTP-U XDP Router - Manual'' @ newline @ newline @
       concat (map (\<lambda>l. l @ newline) (butlast manual)) @ last manual)"

text \<open>The header and the footer of \<open>renderView\<close>.\<close>

definition view_header :: "('t, 'e, 'c, 'k) tui_env \<Rightarrow> 't ui_model \<Rightarrow> string" where
  "view_header env m =
     TitleStyle (Styles env) ''GTP-U XDP Router - Live Dashboard'' @
     (case UpdatedAt m of
        Some t \<Rightarrow> ''   (refresh: '' @ Duration_String (Interval m) @ '', updated: '' @
                  FormatTime env ''15:04:05'' t @ '')''
      | None \<Rightarrow> ''   (loading...)'') @
     (if PingOn m then ''   ping: ON -> '' @ PingTarget m else ''   ping: off'')"

definition view_footer :: "('t, 'e, 'c, 'k) tui_env \<Rightarrow> int \<Rightarrow> 't ui_model \<Rightarrow> string" where
  "view_footer env now m =
     (case StatusUntil m of
        Some t \<Rightarrow> if now < t then FooterStyle (Styles env) (StatusMsg m) @ newline else []
      | None \<Rightarrow> []) @
     FooterStyle (Styles env) (''tab: switch   up/down: select   a: add   e: edit   d: delete   '' @
       ''p: ping   t: test rules   c: snapshot   ?: help   q: quit'')"

definition renderView :: "('t, 'e, 'c, 'k) tui_env \<Rightarrow> int \<Rightarrow> u64 \<Rightarrow> 't ui_model \<Rightarrow> string" where
  "renderView env now ktime m =
     (let st = Styles env;
          onTeid = (Focus m = focusTeid);
          panel = (\<lambda>title body. PanelStyle st (TitleStyle st title @ newline @ body))
      in view_header env m @ newline @ newline @
         panel (if onTeid then ''> teid_map'' else ''  teid_map'')
           (renderPanel (Width m) ''TEID'' 12 (TeidRows m) (if onTeid then TeidSelected m else -1)) @ newline @
         panel (if onTeid then ''  ueip_map'' else ''> ueip_map'')
           (renderPanel (Width m) ''UE IP'' 15 (UeipRows m) (if onTeid then -1 else UeipSelected m)) @ newline @
         panel ''  enforcement (rate-limit / quarantine)'' (renderEnforcement ktime m) @ newline @
         panel ''global verdict counters'' (renderStats m) @ newline @ newline @
         view_footer env now m)"

definition View :: "('t, 'e, 'c, 'k) tui_env \<Rightarrow> int \<Rightarrow> u64 \<Rightarrow> 't ui_model \<Rightarrow> string option" where
  "View env now ktime m =
     (case Err m of
        Some e \<Rightarrow> Some (ErrorStyle (Styles env) (''ERROR: '' @ ErrText env e) @ newline @ newline @
          ''Is the XDP program loaded? Run: sudo bash tools/setup_netns.sh'' @ newline @ newline @
          FooterStyle (Styles env) ''q: quit   ctrl+c: quit'')
      | None \<Rightarrow>
          (case Mode m of
             modeForm \<Rightarrow> Option.bind (FormOpen m) (renderForm (Lib env) (Styles env) (ErrText env))
           | modeConfirmDelete \<Rightarrow> Some (renderConfirm (Styles env) m)
           | modeHelp \<Rightarrow> Some (renderHelp (Styles env))
           | modeView \<Rightarrow> Some (renderView env now ktime m)))"

end
