(* ===== verification/DashboardRuns.thy ===== *)
theory DashboardRuns
  imports Dashboard
begin

text \<open>
  Runs of the dashboard: the runtime delivers the events of the user and the messages of the commands
  in any order while other programs change the kernel (\<open>ui_step\<close>). The invariant \<open>ui_wf\<close> holds in
  every configuration reached from the start, so no handler panics; the contracts say what a refresh
  shows, which events write to the maps, and that a confirmed deletion removes the entry confirmed.
\<close>

section \<open>The invariant of the model\<close>

definition panel_ok ::
  "(u32 \<Rightarrow> string) \<Rightarrow> rule_table \<Rightarrow> u32 list \<Rightarrow> string list list \<Rightarrow> int \<Rightarrow> bool" where
  "panel_ok keyFmt table keys rows sel \<longleftrightarrow>
     distinct (map fst table) \<and> keys = sort (map fst table) \<and> map hd rows = map keyFmt keys
     \<and> (\<forall>r \<in> set rows. length r = 6) \<and> 0 \<le> sel \<and> sel \<le> max (int (length keys) - 1) 0"

definition ui_wf :: "'t ui_model \<Rightarrow> bool" where
  "ui_wf m \<longleftrightarrow>
     (Mode m = modeForm \<longrightarrow> (\<exists>f. FormOpen m = Some f \<and> form_wf f))
     \<and> panel_ok formatTEID (LastTeid m) (TeidKeys m) (TeidRows m) (TeidSelected m)
     \<and> panel_ok formatUEIP (LastUeip m) (UeipKeys m) (UeipRows m) (UeipSelected m)"

definition data_ok :: "data_msg \<Rightarrow> bool" where
  "data_ok d \<longleftrightarrow> distinct (map fst (MTeid d)) \<and> distinct (map fst (MUeip d))"

fun msg_ok :: "'e tea_msg \<Rightarrow> bool" where
  "msg_ok (DataMsg d) = data_ok d"
| "msg_ok _ = True"

lemma clamp_range: "lo \<le> hi \<Longrightarrow> lo \<le> clamp v lo hi \<and> clamp v lo hi \<le> hi"
  by (simp add: clamp_def)

lemma buildRows_panel:
  assumes "buildRows cur prev elapsed have keyFmt = (keys, rows)" and "distinct (map fst cur)"
  shows "panel_ok keyFmt cur keys rows (clamp s 0 (max (int (length keys) - 1) 0))"
  using assms clamp_range [of 0 "max (int (length keys) - 1) 0" s]
  by (auto simp: buildRows_def panel_ok_def build_row_def Let_def split: option.splits)

lemma newModel_wf: "ui_wf (newModel tm um interval)"
  by (simp add: ui_wf_def panel_ok_def newModel_def)

text \<open>An update that keeps the invariant and the two maps.\<close>

definition updated_ok :: "'t ui_model \<Rightarrow> ('t, 'c, 'k) updated \<Rightarrow> bool" where
  "updated_ok m r \<longleftrightarrow> (\<exists>m' c k'. r = Some (m', c, k') \<and> ui_wf m' \<and> Tm m' = Tm m \<and> Um m' = Um m)"

lemma updated_ok_Some [simp]:
  "updated_ok m (Some (m', c, k')) \<longleftrightarrow> ui_wf m' \<and> Tm m' = Tm m \<and> Um m' = Um m"
  by (simp add: updated_ok_def)

lemma updated_ok_if: "(b \<Longrightarrow> updated_ok m x) \<Longrightarrow> (\<not> b \<Longrightarrow> updated_ok m y) \<Longrightarrow> updated_ok m (if b then x else y)"
  by simp

lemma panel_ok_select:
  assumes "panel_ok kf t ks rows s" and "ks \<noteq> []"
  shows "panel_ok kf t ks rows (clamp v 0 (int (length ks) - 1))"
proof -
  have "0 \<le> int (length ks) - 1" using assms(2) by (cases ks) simp_all
  from clamp_range [OF this] this assms(1) show ?thesis
    by (simp only: panel_ok_def) (simp add: max_absorb1)
qed

lemma moveSelection_ok:
  assumes "ui_wf m"
  shows "ui_wf (moveSelection d m) \<and> Tm (moveSelection d m) = Tm m \<and> Um (moveSelection d m) = Um m"
  using assms by (cases "Focus m = focusTeid"; cases "TeidKeys m = []"; cases "UeipKeys m = []")
    (auto simp: moveSelection_def ui_wf_def Let_def intro: panel_ok_select)

lemma open_form_ok:
  assumes "ui_wf m" and "\<exists>f. r = Some f \<and> form_wf f"
  shows "updated_ok m (open_form m r k)"
  using assms by (auto simp: open_form_def ui_wf_def)

lemma updateView_ok:
  assumes "ui_wf m" and "Mode m = modeView"
  shows "updated_ok m (updateView env now ktime key m k)"
proof -
  have w: "ui_wf (m\<lparr>Err := e\<rparr>)" "ui_wf (m\<lparr>StatusMsg := s, StatusUntil := u\<rparr>)" "ui_wf (m\<lparr>Mode := modeHelp\<rparr>)"
    "ui_wf (m\<lparr>Focus := p\<rparr>)" "ui_wf (m\<lparr>Mode := modeConfirmDelete, ConfirmTarget := s, ConfirmKey := x\<rparr>)"
    for e s u p x using assms by (simp_all add: ui_wf_def)
  have add: "updated_ok m (open_form m (newAddForm (Lib env) t) k)" for t
    by (rule open_form_ok [OF assms(1) new_form_wf(1)])
  have edit: "updated_ok m (open_form m (newEditForm (Lib env) (Host env) t x r) k)" for t x r
    by (rule open_form_ok [OF assms(1) new_form_wf(2)])
  show ?thesis
    unfolding updateView_def Let_def
    by (intro updated_ok_if) (auto simp: assms w moveSelection_ok add edit split: prod.splits sum.splits option.splits)
qed

lemma updateConfirmDelete_ok:
  assumes "ui_wf m"
  shows "updated_ok m (updateConfirmDelete env key m k)"
proof -
  have w: "ui_wf (m\<lparr>Mode := modeView, Err := e\<rparr>)" "ui_wf (m\<lparr>Mode := modeView\<rparr>)" for e
    using assms by (simp_all add: ui_wf_def)
  show ?thesis
    unfolding updateConfirmDelete_def Let_def
    by (intro updated_ok_if) (auto simp: assms w split: prod.splits sum.splits)
qed

lemma updateForm_ok:
  assumes "ui_wf m" and "Mode m = modeForm"
  shows "updated_ok m (updateForm env key m k)"
proof -
  obtain f where f: "FormOpen m = Some f" "form_wf f" using assms by (auto simp: ui_wf_def)
  obtain f' c k' where r: "form_key (Lib env) (Host env) (Api env) (Tm m) (Um m) key f k = Some (f', c, k')"
    "\<forall>g. f' = Some g \<longrightarrow> form_wf g"
    using form_key_wf [OF f(2)] unfolding event_ok_def by metis
  show ?thesis
    using f r assms by (cases f') (simp_all add: updateForm_def ui_wf_def)
qed

lemma apply_data_ok:
  assumes "ui_wf m" and "data_ok d"
  shows "ui_wf (apply_data d m) \<and> Tm (apply_data d m) = Tm m \<and> Um (apply_data d m) = Um m"
proof (cases "MErr d")
  case (Some e)
  then show ?thesis using assms by (simp add: apply_data_def ui_wf_def)
next
  case None
  let ?el = "if HaveData m then Seconds (Time_Sub (MFetchedAt d) (LastAt m)) else 0"
  obtain tk tr where t: "buildRows (MTeid d) (LastTeid m) ?el (HaveData m) formatTEID = (tk, tr)" by fastforce
  obtain uk ur where u: "buildRows (MUeip d) (LastUeip m) ?el (HaveData m) formatUEIP = (uk, ur)" by fastforce
  show ?thesis
    using assms None buildRows_panel [OF t] buildRows_panel [OF u]
    by (simp add: apply_data_def t u ui_wf_def data_ok_def Let_def del: if_split)
qed

lemma Update_ok:
  assumes "ui_wf m" and "msg_ok msg"
  shows "updated_ok m (Update env now ktime msg m k)"
proof (cases msg)
  case (KeyMsg key)
  have w: "ui_wf (m\<lparr>Mode := modeView\<rparr>)" using assms by (simp add: ui_wf_def)
  show ?thesis
    using updateForm_ok [OF assms(1)] updateConfirmDelete_ok [OF assms(1)] updateView_ok [OF assms(1)]
    by (cases "Mode m") (simp_all add: KeyMsg Update_def w)
next
  case (DataMsg d)
  with assms apply_data_ok [of m d] show ?thesis by (simp add: Update_def)
qed (use assms in \<open>simp_all add: Update_def ui_wf_def\<close>)

lemma View_total:
  assumes "ui_wf m"
  shows "\<exists>s. View env now ktime m = Some s"
proof (cases "Mode m = modeForm")
  case True
  with assms obtain f where f: "FormOpen m = Some f" "form_wf f" by (auto simp: ui_wf_def)
  then have "\<exists>s. renderForm (Lib env) (Styles env) (ErrText env) f = Some s"
    by (simp add: renderForm_def form_lines_def form_wf_def nat_less_iff)
  with f True show ?thesis by (cases "Err m") (simp_all add: View_def)
next
  case False
  then show ?thesis by (cases "Mode m"; cases "Err m") (simp_all add: View_def)
qed

lemma selected_in_panel:
  assumes "ui_wf m" and "(if Focus m = focusTeid then LastTeid m else LastUeip m) \<noteq> []"
  obtains x r where "selectedRule m = Some (x, Some r)"
    and "map_of (if Focus m = focusTeid then LastTeid m else LastUeip m) x = Some r"
proof -
  have one: "\<exists>r. 0 \<le> s \<and> s < int (length ks) \<and> map_of t (ks ! nat s) = Some r"
    if p: "panel_ok kf t ks rows s" and ne: "t \<noteq> []" for kf t ks rows s
  proof -
    have "length ks = length t" and st: "set ks = fst ` set t" and s: "0 \<le> s" "s \<le> max (int (length ks) - 1) 0"
      using p by (auto simp: panel_ok_def)
    then have l: "s < int (length ks)" using ne by (cases t) auto
    with s have "ks ! nat s \<in> set ks" by (simp add: nat_less_iff)
    with st s l show ?thesis by (metis map_of_eq_None_iff option.exhaust)
  qed
  show thesis
  proof (cases "Focus m = focusTeid")
    case True
    with assms one [of formatTEID "LastTeid m" "TeidKeys m" "TeidRows m" "TeidSelected m"] that show thesis
      by (auto simp: ui_wf_def selectedRule_def Let_def)
  next
    case False
    with assms one [of formatUEIP "LastUeip m" "UeipKeys m" "UeipRows m" "UeipSelected m"] that show thesis
      by (auto simp: ui_wf_def selectedRule_def Let_def)
  qed
qed

section \<open>Runs\<close>

text \<open>
  A configuration is the model, the kernel, the commands not yet run and the messages not yet
  delivered. A step is labelled with the key it consumes, if any. Commands run and messages arrive in
  any order, at any time, and anything else may change the kernel in between.
\<close>

type_synonym ('t, 'e, 'c, 'k) ui_conf = "'t ui_model \<times> 'k \<times> 'c tui_cmd list \<times> 'e tea_msg list"

inductive ui_step ::
  "('t, 'e, 'c, 'k) tui_env \<Rightarrow> 'e option \<Rightarrow> ('t, 'e, 'c, 'k) ui_conf \<Rightarrow> ('t, 'e, 'c, 'k) ui_conf \<Rightarrow> bool"
  for env where
  press: "Update env now ktime (KeyMsg key) m k = Some (m', c, k') \<Longrightarrow>
    ui_step env (Some key) (m, k, cs, ms) (m', k', c # cs, ms)"
| resize: "Update env now ktime (WindowSizeMsg w) m k = Some (m', c, k') \<Longrightarrow>
    ui_step env None (m, k, cs, ms) (m', k', c # cs, ms)"
| deliver: "Update env now ktime msg m k = Some (m', c, k') \<Longrightarrow>
    ui_step env None (m, k, cs, ms1 @ msg # ms2) (m', k', c # cs, ms1 @ ms2)"
| command: "run_cmd env (Tm m) (Um m) now c k = (new, k') \<Longrightarrow>
    ui_step env None (m, k, cs1 @ c # cs2, ms) (m, k', cs1 @ cs2, ms @ new)"
| outside: "ui_step env None (m, k, cs, ms) (m, k', cs, ms)"

inductive_cases ui_step_NoneE: "ui_step env None (m, k, cs, ms) (m', k', cs', ms')"
inductive_cases ui_step_SomeE: "ui_step env (Some key) (m, k, cs, ms) (m', k', cs', ms')"

definition any_step ::
  "('t, 'e, 'c, 'k) tui_env \<Rightarrow> ('t, 'e, 'c, 'k) ui_conf \<Rightarrow> ('t, 'e, 'c, 'k) ui_conf \<Rightarrow> bool" where
  "any_step env a b \<longleftrightarrow> (\<exists>l. ui_step env l a b)"

text \<open>The runtime starts with the command of \<open>Init\<close>.\<close>

definition init_conf :: "'t ui_model \<Rightarrow> 'k \<Rightarrow> ('t, 'e, 'c, 'k) ui_conf" where
  "init_conf m k = (m, k, [FetchAndTick], [])"

definition from_cmd :: "'e tea_msg \<Rightarrow> bool" where
  "from_cmd msg \<longleftrightarrow> msg_ok msg \<and> (\<forall>key. msg \<noteq> KeyMsg key)"

definition ui_inv :: "('t, 'e, 'c, 'k) ui_conf \<Rightarrow> bool" where
  "ui_inv cf \<longleftrightarrow> (case cf of (m, k, cs, ms) \<Rightarrow> ui_wf m \<and> (\<forall>msg \<in> set ms. from_cmd msg))"

lemma ui_inv_simp [simp]: "ui_inv (m, k, cs, ms) \<longleftrightarrow> ui_wf m \<and> (\<forall>msg \<in> set ms. from_cmd msg)"
  by (simp add: ui_inv_def)

lemma list_rules_distinct: "list_rules api m label k = Inr out \<Longrightarrow> distinct (map fst out)"
  by (auto simp: list_rules_def split: prod.splits option.splits dest: collect_rules_distinct [rotated])

lemma fetchCmd_data_ok: "fetchCmd api tm um now k = (d, k') \<Longrightarrow> data_ok d"
  by (auto simp: fetchCmd_def failed_fetch_def data_ok_def TeidMap_List_def UeipMap_List_def
      split: sum.splits prod.splits dest: list_rules_distinct)

lemma run_cmd_msgs: "run_cmd env tm um now c k = (new, k') \<Longrightarrow> msg \<in> set new \<Longrightarrow> from_cmd msg"
  by (auto simp: run_cmd_def from_cmd_def startPingCmd_def stopPingCmd_def copyCmd_def Let_def
      split: tui_cmd.splits prod.splits option.splits) (metis fetchCmd_data_ok)+

lemma Update_inv:
  "ui_wf m \<Longrightarrow> msg_ok msg \<Longrightarrow> Update env now ktime msg m k = Some (m', c, k') \<Longrightarrow> ui_wf m'"
  using Update_ok [of m msg env now ktime k] by simp

lemma ui_step_inv:
  assumes "ui_step env l a b" and "ui_inv a"
  shows "ui_inv b"
  using assms
proof (induction rule: ui_step.induct)
  case (deliver now ktime msg m k m' c k' cs ms1 ms2)
  then show ?case using Update_inv [OF _ _ deliver(1)] by (auto simp: from_cmd_def)
next
  case (command m now c k new k' cs1 cs2 ms)
  then show ?case using run_cmd_msgs [OF command(1)] by auto
qed (auto dest: Update_inv [rotated 2])

lemma reach_inv:
  assumes "(any_step env)\<^sup>*\<^sup>* (init_conf m0 k0) cf" and "ui_wf m0"
  shows "ui_inv cf"
  using assms(1)
proof (induction rule: rtranclp_induct)
  case base
  then show ?case using assms(2) by (simp add: init_conf_def)
next
  case (step a b)
  then show ?case by (auto simp: any_step_def intro: ui_step_inv)
qed

text \<open>Only a key event changes the mode, the focus, the form or what is about to be deleted.\<close>

lemma apply_data_frame:
  "Mode (apply_data d m) = Mode m" "Focus (apply_data d m) = Focus m"
  "FormOpen (apply_data d m) = FormOpen m" "ConfirmTarget (apply_data d m) = ConfirmTarget m"
  "ConfirmKey (apply_data d m) = ConfirmKey m" "Tm (apply_data d m) = Tm m" "Um (apply_data d m) = Um m"
  by (simp_all add: apply_data_def Let_def split: option.splits prod.splits)

definition prompt :: "'t ui_model \<Rightarrow> ui_mode \<times> string \<times> u32 \<times> map_fd \<times> map_fd" where
  "prompt m = (Mode m, ConfirmTarget m, ConfirmKey m, Tm m, Um m)"

lemma background_update:
  assumes "Update env now ktime msg m k = Some (m', c, k')" and "\<And>key. msg \<noteq> KeyMsg key"
  shows "prompt m' = prompt m \<and> k' = k"
  using assms by (cases msg) (auto simp: Update_def prompt_def apply_data_frame)

lemma background_step:
  assumes "ui_step env None (m, k, cs, ms) (m', k', cs', ms')" and "ui_inv (m, k, cs, ms)"
  shows "prompt m' = prompt m"
  using assms(1) by (rule ui_step_NoneE)
    (use assms(2) in \<open>auto simp: from_cmd_def dest: background_update\<close>)

lemma background_run:
  assumes "(ui_step env None)\<^sup>*\<^sup>* a b" and "ui_inv a"
  shows "prompt (fst b) = prompt (fst a) \<and> ui_inv b"
  using assms
proof (induction rule: rtranclp_induct)
  case (step b c)
  have "ui_inv b" "prompt (fst b) = prompt (fst a)" using step.IH [OF step.prems] by blast+
  moreover have "prompt (fst c) = prompt (fst b)"
    using background_step step.hyps(2) \<open>ui_inv b\<close> by (metis prod.collapse)
  ultimately show ?case using ui_step_inv [OF step.hyps(2)] by simp
qed simp

section \<open>The effect on the maps\<close>

text \<open>Signals, files and the terminal are not BPF maps.\<close>

locale dashboard_host = bpf_maps "Api env" pinned entries
  for env :: "('t, 'e, 'c, 'k) tui_env"
    and pinned :: "'k \<Rightarrow> string \<Rightarrow> map_fd option"
    and entries :: "'k \<Rightarrow> map_fd \<Rightarrow> u32 \<Rightarrow> map_value option" +
  assumes pkill_maps: "entries (snd (Exec env (''pkill'' # args) k)) = entries k"
    and file_maps: "entries (snd (WriteFile env path s k)) = entries k"
    and stdout_maps: "entries (WriteStdout env s k) = entries k"

lemma ipKey_Uint32ToIP [simp]: "ipKey (Uint32ToIP x) = Inr x"
  by (simp add: ipKey_def Uint32ToIP_def put_be32_def wire)

context bpf_maps
begin

text \<open>Whatever a put or a deletion returns, no other cell changes.\<close>

lemma teid_put_result:
  "TeidMap_Put api t x rule k = (r, k') \<Longrightarrow>
     entries k' = (if isl r then entries k else cell_set (entries k) t x (Some (RuleV rule)))"
  by (auto simp: TeidMap_Put_def cell_set_def split: prod.splits option.splits dest: put_ok put_err)

lemma ueip_put_result:
  "UeipMap_Put api u ip rule k = (r, k') \<Longrightarrow> ipKey ip = Inr x \<Longrightarrow>
     entries k' = (if isl r then entries k else cell_set (entries k) u x (Some (RuleV rule)))"
  by (auto simp: UeipMap_Put_def cell_set_def split: prod.splits option.splits dest: put_ok put_err)

lemma teid_delete_result:
  "TeidMap_Delete api t x k = (r, k') \<Longrightarrow>
     entries k' = (if isl r then entries k else cell_set (entries k) t x None)"
  by (cases r) (auto simp: cell_set_def dest: teid_delete_entries,
      auto simp: TeidMap_Delete_def split: prod.splits option.splits if_splits dest: delete_err)

lemma ueip_delete_result:
  assumes "UeipMap_Delete api u (Uint32ToIP x) k = (r, k')"
  shows "entries k' = (if isl r then entries k else cell_set (entries k) u x None)"
proof (cases r)
  case (Inl e)
  with assms show ?thesis
    by (auto simp: UeipMap_Delete_def split: prod.splits option.splits if_splits dest: delete_err)
next
  case (Inr v)
  with assms obtain key where "ipKey (Uint32ToIP x) = Inr key"
    "entries k' = (entries k)(u := (entries k u)(key := None))" by (auto elim: ueip_delete_entries)
  with Inr show ?thesis by (simp add: cell_set_def)
qed

end

lemma default_ip: "ipKey (ParseIP ''10.45.0.99'') = Inr (be32 10 45 0 99)"
proof -
  have "dotted 10 45 0 99 = ''10.45.0.99''" by code_simp
  then show ?thesis using ParseIP_dotted [of 10 45 0 99] by (simp add: ipKey_def)
qed

context bpf_maps
begin

lemma default_rules_entries:
  assumes "addDefaultRules api m k = (r, k')" and "entries k' f x \<noteq> entries k f x"
  shows "f = Tm m \<and> x \<in> {0xDEAD, 0xBEEF} \<or> f = Um m \<and> x = be32 10 45 0 99"
proof -
  obtain r1 k1 where 1: "TeidMap_Put api (Tm m) 0xDEAD (zero_rule\<lparr>Action := ActionDrop\<rparr>) k = (r1, k1)" by fastforce
  obtain r2 k2 where 2: "TeidMap_Put api (Tm m) 0xBEEF (zero_rule\<lparr>Action := ActionDrop, RatePPS := 5,
      QuarantineThreshold := 3, QuarantineSeconds := 30\<rparr>) k1 = (r2, k2)" by fastforce
  obtain r3 k3 where 3: "UeipMap_Put api (Um m) (ParseIP ''10.45.0.99'')
      (zero_rule\<lparr>Action := ActionDrop, RatePPS := 10\<rparr>) k2 = (r3, k3)" by fastforce
  have "k' \<in> {k1, k2, k3}"
    using assms(1) 1 2 3 by (auto simp: addDefaultRules_def andThen_def split: sum.splits prod.splits)
  moreover have c: "cell_set E t y v f x = E f x \<or> f = t \<and> x = y" for E t y v
    by (auto simp: cell_set_def)
  have "entries k1 f x = entries k f x \<or> f = Tm m \<and> x = 0xDEAD" using teid_put_result [OF 1] c by metis
  moreover have "entries k2 f x = entries k1 f x \<or> f = Tm m \<and> x = 0xBEEF"
    using teid_put_result [OF 2] c by metis
  moreover have "entries k3 f x = entries k2 f x \<or> f = Um m \<and> x = be32 10 45 0 99"
    using ueip_put_result [OF 3 default_ip] c by metis
  ultimately show ?thesis using assms(2) by (elim insertE emptyE) (metis insertI1 insertI2)+
qed

end

context dashboard_host
begin

lemma confirm_entries:
  assumes "updateConfirmDelete env key m k = Some (m', c, k')"
  shows "entries k' = entries k \<and> Mode m' \<in> {Mode m, modeView} \<and> c = NoCmd
      \<and> (KeyString (Lib env) key \<in> {''y'', ''enter''} \<longrightarrow> Mode m' = modeView \<and> Err m' \<noteq> None)
    \<or> KeyString (Lib env) key \<in> {''y'', ''enter''} \<and> Mode m' = modeView \<and> c = FetchCmd
      \<and> entries k' = cell_set (entries k) (if ConfirmTarget m = ''teid'' then Tm m else Um m) (ConfirmKey m) None"
proof (cases "KeyString (Lib env) key \<in> {''y'', ''enter''}")
  case True
  obtain r k1 where r: "(if ConfirmTarget m = ''teid'' then TeidMap_Delete (Api env) (Tm m) (ConfirmKey m) k
      else UeipMap_Delete (Api env) (Um m) (Uint32ToIP (ConfirmKey m)) k) = (r, k1)" by fastforce
  then have "entries k1 = (if isl r then entries k
      else cell_set (entries k) (if ConfirmTarget m = ''teid'' then Tm m else Um m) (ConfirmKey m) None)"
    using teid_delete_result ueip_delete_result by (auto split: if_splits)
  with True r assms show ?thesis by (cases r) (auto simp: updateConfirmDelete_def)
next
  case False
  with assms show ?thesis by (auto simp: updateConfirmDelete_def Let_def split: if_splits)
qed

lemma form_update_entries:
  assumes "updateForm env key m k = Some (m', c, k')"
  shows "entries k' = entries k \<or>
    (\<exists>f x rule. KeyString (Lib env) key = ''enter'' \<and> FormOpen m = Some f
      \<and> buildRule (Lib env) (Host env) f = Some (Inr (x, rule)) \<and> rule_ok rule
      \<and> entries k' = cell_set (entries k) (if Target f = ''teid'' then Tm m else Um m) x (Some (RuleV rule)))"
proof (cases "FormOpen m")
  case None
  then show ?thesis using assms by (auto simp: updateForm_def split: if_splits)
next
  case (Some f)
  then obtain f' where "form_key (Lib env) (Host env) (Api env) (Tm m) (Um m) key f k = Some (f', c, k')"
    using assms by (auto simp: updateForm_def split: option.splits)
  from form_key_entries [OF this] show ?thesis
    using Some buildRule_Inr(3) form_rule_ok by blast
qed

lemma view_entries:
  assumes "updateView env now ktime key m k = Some (m', c, k')"
  shows "entries k' = entries k \<or> KeyString (Lib env) key = ''t''
    \<and> (\<forall>f x. entries k' f x \<noteq> entries k f x \<longrightarrow>
        f = Tm m \<and> x \<in> {0xDEAD, 0xBEEF} \<or> f = Um m \<and> x = be32 10 45 0 99)"
proof (cases "KeyString (Lib env) key = ''t''")
  case True
  obtain r k1 where r: "addDefaultRules (Api env) m k = (r, k1)" by fastforce
  then have "k' = k1" using assms True by (cases r) (auto simp: updateView_def)
  then show ?thesis using True default_rules_entries [OF r] by blast
next
  case False
  have "k' = k \<or> k' = stopPingSync env (PingTarget m) k"
    using assms False
    by (auto simp: updateView_def open_form_def Let_def split: if_splits option.splits prod.splits)
  then show ?thesis using pkill_maps by (auto simp: stopPingSync_def)
qed

end

section \<open>A refresh\<close>

text \<open>The keys of a table of rules and the row of each, rate apart.\<close>

definition rule_keys :: "(u32 \<Rightarrow> map_value option) \<Rightarrow> u32 list" where
  "rule_keys E = sorted_list_of_set {x. rule_of (E x) \<noteq> None}"

definition counters_row :: "(u32 \<Rightarrow> string) \<Rightarrow> (u32 \<Rightarrow> map_value option) \<Rightarrow> u32 \<Rightarrow> string list" where
  "counters_row keyFmt E x =
     (let r = the (rule_of (E x))
      in [keyFmt x, ActionString (Action r), fmt_d (unat (OutIfindex r)), fmt_d (unat (PktCount r)),
          FormatBytes (ByteCount r)])"

context bpf_maps
begin

lemma buildRows_shows:
  assumes "list_rules api m label k = Inr out" and "buildRows out prev elapsed have keyFmt = (keys, rows)"
  shows "keys = rule_keys (entries k m) \<and> map butlast rows = map (counters_row keyFmt (entries k m)) keys"
  using assms list_rules_keys [OF assms(1)] list_rules_entries(1) [OF assms(1)]
  by (auto simp: buildRows_def rule_keys_def counters_row_def build_row_def Let_def split: option.splits)

lemma fetch_shows:
  assumes "fetchCmd api tm um now k = (d, k')" and "MErr d = None"
  shows "entries k' = entries k \<and> MFetchedAt d = now
    \<and> list_rules api tm ''teid_map iterate'' k = Inr (MTeid d)
    \<and> list_rules api um ''ueip_map iterate'' k = Inr (MUeip d)
    \<and> (\<exists>c. stats_Read api PinStatsMap k = (Inr c, k') \<and> MCounters d = Some c)"
proof -
  obtain c where "stats_Read api PinStatsMap k = (Inr c, k')" "MCounters d = Some c"
    "list_rules api tm ''teid_map iterate'' k = Inr (MTeid d)"
    "list_rules api um ''ueip_map iterate'' k = Inr (MUeip d)" "MFetchedAt d = now"
    using assms by (auto simp: fetchCmd_def failed_fetch_def TeidMap_List_def UeipMap_List_def
        split: sum.splits prod.splits)
  moreover from this(1) have "entries k' = entries k"
    unfolding stats_Read_def by (rule with_map_pinned) auto
  ultimately show ?thesis by blast
qed

lemma refresh_shows:
  assumes "fetchCmd api tm um now k = (d, k')" and "MErr d = None"
  shows "entries k' = entries k
    \<and> TeidKeys (apply_data d m) = rule_keys (entries k tm)
    \<and> map butlast (TeidRows (apply_data d m)) = map (counters_row formatTEID (entries k tm)) (rule_keys (entries k tm))
    \<and> UeipKeys (apply_data d m) = rule_keys (entries k um)
    \<and> map butlast (UeipRows (apply_data d m)) = map (counters_row formatUEIP (entries k um)) (rule_keys (entries k um))
    \<and> Err (apply_data d m) = None \<and> LastStat (apply_data d m) = MCounters d"
proof -
  note f = fetch_shows [OF assms]
  let ?el = "if HaveData m then Seconds (Time_Sub (MFetchedAt d) (LastAt m)) else 0"
  obtain tk tr where t: "buildRows (MTeid d) (LastTeid m) ?el (HaveData m) formatTEID = (tk, tr)" by fastforce
  obtain uk ur where u: "buildRows (MUeip d) (LastUeip m) ?el (HaveData m) formatUEIP = (uk, ur)" by fastforce
  from f have "list_rules api tm ''teid_map iterate'' k = Inr (MTeid d)"
    "list_rules api um ''ueip_map iterate'' k = Inr (MUeip d)" by blast+
  from buildRows_shows [OF this(1) t] buildRows_shows [OF this(2) u] f assms(2) show ?thesis
    by (simp add: apply_data_def t u Let_def del: if_split)
qed

end

section \<open>The rate shown\<close>

lemma pps_zero: "\<not> have \<or> elapsed \<le> 0 \<or> cur < prev \<Longrightarrow> pps cur prev elapsed have = 0"
  by (simp add: pps_def)

lemma rnd_rel:
  assumes "0 \<le> x"
  shows "rnd x \<le> x * (1 + 1 / 2 ^ 53)" and "x * (1 - 1 / 2 ^ 53) \<le> rnd x"
proof -
  have "rnd x \<le> x + x / 2 ^ 53" "x - x / 2 ^ 53 \<le> rnd x" using rnd_error [OF assms] by linarith+
  then show "rnd x \<le> x * (1 + 1 / 2 ^ 53)" "x * (1 - 1 / 2 ^ 53) \<le> rnd x" by (simp_all add: algebra_simps)
qed

lemma pps_error:
  assumes "0 < elapsed" and "prev \<le> cur"
  defines "x \<equiv> of_nat (unat cur - unat prev) / elapsed"
  shows "\<bar>pps cur prev elapsed True - x\<bar> \<le> x / 2 ^ 51"
proof -
  let ?n = "of_nat (unat cur - unat prev) :: rat"
  let ?d = "1 / 2 ^ 53 :: rat"
  have p: "pps cur prev elapsed True = rnd (rnd ?n / elapsed)"
    using assms(1,2) by (simp add: pps_def unat_sub not_less)
  have x: "0 \<le> x" using assms(1) by (simp add: x_def)
  have n: "rnd ?n \<le> ?n * (1 + ?d)" "?n * (1 - ?d) \<le> rnd ?n" using rnd_rel [of ?n] by simp_all
  then have q: "rnd ?n / elapsed \<le> x * (1 + ?d)" "x * (1 - ?d) \<le> rnd ?n / elapsed"
    using assms(1) by (simp_all add: x_def field_simps)
  have "0 \<le> rnd ?n / elapsed" using assms(1) rnd_nonneg [of ?n] by simp
  note r = rnd_rel [OF this, folded p]
  have "pps cur prev elapsed True \<le> x * (1 + ?d) * (1 + ?d)"
    using r(1) mult_right_mono [OF q(1), of "1 + ?d"] by simp
  moreover have "x * (1 - ?d) * (1 - ?d) \<le> pps cur prev elapsed True"
    using r(2) mult_right_mono [OF q(2), of "1 - ?d"] by simp
  moreover have "x * (1 + ?d) * (1 + ?d) \<le> x + x / 2 ^ 51" "x - x / 2 ^ 51 \<le> x * (1 - ?d) * (1 - ?d)"
    using x by (simp_all add: algebra_simps)
  ultimately show ?thesis by linarith
qed

section \<open>What is on the screen\<close>

text \<open>Cells that fit give lines of one length; the heading \<open>IFINDEX\<close> does not fit its column of 5.\<close>

lemma row_cells_aligned:
  "\<forall>(w, c) \<in> set (zip ws cs). length c \<le> w \<Longrightarrow> length (row_cells ws cs) = sum_list ws + 2 * length ws"
  by (induction ws cs rule: row_cells.induct) (auto simp: pad_right_def)

lemma ifindex_heading_overflows:
  "columnsFor 80 ''TEID'' 12 = (hs, ws, False) \<Longrightarrow>
     length (row_cells ws hs) = sum_list ws + 2 * length ws + 2"
  by (auto simp: columnsFor_def fullWidthThreshold_def pad_right_def)

text \<open>While an error is shown the screen is the same in every mode, but keys still go to the mode.\<close>

lemma error_hides_mode:
  "Err m = Some e \<Longrightarrow> View env now ktime (m\<lparr>Mode := x\<rparr>) = View env now ktime m"
  by (simp add: View_def)

section \<open>A reference host\<close>

definition lab_env :: "(ref_text, string, unit, ref_kernel) tui_env" where
  "lab_env =
     \<lparr>Lib = ref_lib, Host = lab_host, Api = ref_api,
      Styles = \<lparr>PanelStyle = (\<lambda>s. s), TitleStyle = (\<lambda>s. s), FooterStyle = (\<lambda>s. s), ErrorStyle = (\<lambda>s. s)\<rparr>,
      ErrText = (\<lambda>e. ''error''), FormatTime = (\<lambda>layout t. ''12:00:00''),
      Exec = (\<lambda>args k. (None, k)), WriteFile = (\<lambda>path s k. (None, k)), WriteStdout = (\<lambda>s k. k)\<rparr>"

lemma lab_env_simps [simp]:
  "Api lab_env = ref_api" "Lib lab_env = ref_lib" "Host lab_env = lab_host" "KeyString ref_lib key = key"
  by (simp_all add: lab_env_def ref_lib_def)

interpretation lab: dashboard_host lab_env Pins ref_entries
  by (intro dashboard_host.intro dashboard_host_axioms.intro) (simp_all add: ref.bpf_maps_axioms lab_env_def)

definition lab_panel :: "ref_text ui_model" where
  "lab_panel = (newModel 0 1 1000000000)\<lparr>LastTeid := [(7, zero_rule)], TeidKeys := [7],
     TeidRows := [[formatTEID 7, '''', '''', '''', '''', '''']]\<rparr>"

lemma lab_panel_wf: "ui_wf lab_panel" "Mode lab_panel = modeView" "Focus lab_panel = focusTeid"
  "Tm lab_panel = 0" "Um lab_panel = 1" "selectedRule lab_panel = Some (7, Some zero_rule)"
  by (simp_all add: lab_panel_def ui_wf_def panel_ok_def newModel_def selectedRule_def)

section \<open>Properties\<close>

text \<open>C17: from the start, whatever keys are pressed, in whatever order the messages arrive and whatever
  else changes the maps, no handler and no rendering of the dashboard panics, and when the focused
  panel has rows, the selection names one of them and the rule shown in it.\<close>
theorem dashboard_never_panics:
  assumes "Run_model (Api env) getenv interval k0 = (Inr m0, k1)"
    and "(any_step env)\<^sup>*\<^sup>* (init_conf m0 k1) (m, k, cs, ms)"
  shows "(\<exists>s. View env now ktime m = Some s)
    \<and> (\<forall>msg. msg \<in> set ms \<or> (\<exists>key. msg = KeyMsg key) \<or> (\<exists>w. msg = WindowSizeMsg w) \<longrightarrow>
        (\<exists>r. Update env now ktime msg m k = Some r))
    \<and> ((if Focus m = focusTeid then LastTeid m else LastUeip m) \<noteq> [] \<longrightarrow>
        (\<exists>x r. selectedRule m = Some (x, Some r)
          \<and> map_of (if Focus m = focusTeid then LastTeid m else LastUeip m) x = Some r))"
proof -
  have "ui_wf m0"
    using assms(1) newModel_wf
    by (auto simp: Run_model_def ui_wf_def newModel_def panel_ok_def split: prod.splits sum.splits)
  from reach_inv [OF assms(2) this] have inv: "ui_wf m" "\<forall>msg \<in> set ms. from_cmd msg" by simp_all
  have "\<exists>r. Update env now ktime msg m k = Some r"
    if "msg \<in> set ms \<or> (\<exists>key. msg = KeyMsg key) \<or> (\<exists>w. msg = WindowSizeMsg w)" for msg
  proof -
    have "msg_ok msg" using that inv(2) by (auto simp: from_cmd_def)
    from Update_ok [OF inv(1) this, of env now ktime k] show ?thesis unfolding updated_ok_def by metis
  qed
  then show ?thesis
    using View_total [OF inv(1)] selected_in_panel [OF inv(1)] by metis
qed

lemma lab_run_start: "\<exists>m0. Run_model ref_api (\<lambda>x. []) 1 loaded_kernel = (Inr m0, loaded_kernel) \<and> Mode m0 = modeView \<and> Err m0 = None"
  by (simp add: Run_model_def OpenTeidMap_def OpenUeipMap_def open_pinned_def ref_api_def loaded_kernel_def
      pin_defs newModel_def)

lemma dashboard_never_panics_witness:
  "\<exists>m0 m k cs ms s. (any_step lab_env)\<^sup>*\<^sup>* (init_conf (m0 :: ref_text ui_model) loaded_kernel) (m, k, cs, ms)
     \<and> Mode m = modeForm \<and> View lab_env 0 0 m = Some s"
proof -
  obtain m0 :: "ref_text ui_model" where m0: "Run_model ref_api (\<lambda>x. []) 1 loaded_kernel = (Inr m0, loaded_kernel)"
    "Mode m0 = modeView" using lab_run_start by blast
  obtain f where f: "newAddForm ref_lib (focusTarget m0) = Some f" using new_form_wf(1) by blast
  have "ui_step lab_env (Some ''a'') (m0, loaded_kernel, [FetchAndTick], [])
      (m0\<lparr>Mode := modeForm, FormOpen := Some f\<rparr>, loaded_kernel, [NoCmd, FetchAndTick], [])"
    by (rule ui_step.press [where now = 0 and ktime = 0]) (simp add: Update_def m0 updateView_def open_form_def f)
  then have s: "(any_step lab_env)\<^sup>*\<^sup>* (init_conf m0 loaded_kernel)
      (m0\<lparr>Mode := modeForm, FormOpen := Some f\<rparr>, loaded_kernel, [NoCmd, FetchAndTick], [])"
    unfolding init_conf_def by (intro r_into_rtranclp) (auto simp: any_step_def)
  have "\<exists>s. View lab_env 0 0 (m0\<lparr>Mode := modeForm, FormOpen := Some f\<rparr>) = Some s"
    using dashboard_never_panics [of lab_env "\<lambda>x. []" 1 loaded_kernel m0 loaded_kernel, OF _ s] m0 by simp
  with s show ?thesis by fastforce
qed

text \<open>C37: a handler writes to the maps only on a key event that asks for it: \<open>enter\<close> in a form that builds a
  valid rule writes that rule, \<open>y\<close> or \<open>enter\<close> in the confirmation removes the entry to confirm, and
  \<open>t\<close> in the view touches the three test entries; ticks, data, resizes and every other key leave all
  cells as they are.\<close>
theorem dashboard_writes_on_request:
  assumes "dashboard_host env pinned entries"
    and "Update env now ktime msg m k = Some (m', c, k')"
  shows "entries k' = entries k \<or> (\<exists>key. msg = KeyMsg key \<and>
      (Mode m = modeForm \<and> KeyString (Lib env) key = ''enter''
        \<and> (\<exists>f x rule. FormOpen m = Some f \<and> buildRule (Lib env) (Host env) f = Some (Inr (x, rule)) \<and> rule_ok rule
            \<and> entries k' = cell_set (entries k) (if Target f = ''teid'' then Tm m else Um m) x (Some (RuleV rule)))
      \<or> Mode m = modeConfirmDelete \<and> KeyString (Lib env) key \<in> {''y'', ''enter''}
        \<and> entries k' = cell_set (entries k) (if ConfirmTarget m = ''teid'' then Tm m else Um m) (ConfirmKey m) None
      \<or> Mode m = modeView \<and> KeyString (Lib env) key = ''t''
        \<and> (\<forall>f x. entries k' f x \<noteq> entries k f x \<longrightarrow>
            f = Tm m \<and> x \<in> {0xDEAD, 0xBEEF} \<or> f = Um m \<and> x = be32 10 45 0 99)))"
proof (cases "\<exists>key. msg = KeyMsg key")
  case True
  then obtain key where key: "msg = KeyMsg key" by blast
  show ?thesis
    using assms(2) key dashboard_host.form_update_entries [OF assms(1), of key m k m' c k']
      dashboard_host.confirm_entries [OF assms(1), of key m k m' c k']
      dashboard_host.view_entries [OF assms(1), of now ktime key m k m' c k']
    by (cases "Mode m") (auto simp: Update_def)
next
  case False
  with background_update [OF assms(2)] show ?thesis by blast
qed

lemma dashboard_writes_on_request_witness:
  "\<exists>m' c k'. Update lab_env 0 0 (KeyMsg ''t'') lab_panel loaded_kernel = Some (m', c, k')
     \<and> ref_entries k' 0 7 = ref_entries loaded_kernel 0 7"
proof -
  obtain m' c k' where u: "Update lab_env 0 0 (KeyMsg ''t'') lab_panel loaded_kernel = Some (m', c, k')"
    using Update_ok [OF lab_panel_wf(1), of "KeyMsg ''t''" lab_env 0 0 loaded_kernel] by (auto simp: updated_ok_def)
  have "ref_entries k' 0 7 = ref_entries loaded_kernel 0 7"
  proof (rule ccontr)
    assume "ref_entries k' 0 7 \<noteq> ref_entries loaded_kernel 0 7"
    with dashboard_writes_on_request [OF lab.dashboard_host_axioms u] lab_panel_wf show False
      by (auto dest!: spec [of _ "0 :: nat"] spec [of _ "7 :: u32"])
  qed
  with u show ?thesis by blast
qed

text \<open>C18: what is deleted is what was selected: after \<open>d\<close> on a selected entry, and however many refreshes,
  resizes and outside changes reorder the panel before the answer, \<open>y\<close> removes the entry that was
  selected and touches no other cell, or reports an error and removes nothing; the prompt is gone in
  both cases.\<close>
theorem confirmed_deletion:
  assumes "dashboard_host env pinned entries" and "ui_inv (m, k, cs, ms)" and "Mode m = modeView"
    and "selectedRule m = Some (x, r)" and "KeyString (Lib env) d \<in> {''d'', ''x''}"
    and "ui_step env (Some d) (m, k, cs, ms) c1"
    and "(ui_step env None)\<^sup>*\<^sup>* c1 (m2, k2, cs2, ms2)"
    and "KeyString (Lib env) y \<in> {''y'', ''enter''}"
    and "Update env now ktime (KeyMsg y) m2 k2 = Some (m3, c, k3)"
  shows "Mode m2 = modeConfirmDelete \<and> ConfirmKey m2 = x \<and> Mode m3 = modeView
    \<and> (entries k3 = cell_set (entries k2) (if Focus m = focusTeid then Tm m else Um m) x None \<and> c = FetchCmd
       \<or> entries k3 = entries k2 \<and> Err m3 \<noteq> None \<and> c = NoCmd)"
proof -
  obtain m1 k1 cs1 ms1 where c1: "c1 = (m1, k1, cs1, ms1)" by (metis prod.exhaust)
  from assms(6) [unfolded c1] have p1: "prompt m1 = (modeConfirmDelete, focusTarget m, x, Tm m, Um m)"
    by (rule ui_step_SomeE) (use assms(3-5) in \<open>auto simp: Update_def updateView_def prompt_def\<close>)
  have "ui_inv c1" by (rule ui_step_inv [OF assms(6,2)])
  with background_run [OF assms(7)] c1 p1 have "prompt m2 = (modeConfirmDelete, focusTarget m, x, Tm m, Um m)" by simp
  then have m2: "Mode m2 = modeConfirmDelete" "ConfirmKey m2 = x" "ConfirmTarget m2 = focusTarget m"
    "Tm m2 = Tm m" "Um m2 = Um m" by (simp_all add: prompt_def)
  from m2(1) assms(9) have u: "updateConfirmDelete env y m2 k2 = Some (m3, c, k3)" by (simp add: Update_def)
  have "(if ConfirmTarget m2 = ''teid'' then Tm m2 else Um m2) = (if Focus m = focusTeid then Tm m else Um m)"
    by (simp add: m2 focusTarget_def)
  with dashboard_host.confirm_entries [OF assms(1) u] assms(8) m2 show ?thesis by auto
qed

lemma confirmed_deletion_witness:
  "\<exists>m3 c k3. Update lab_env 0 0 (KeyMsg ''y'')
       (lab_panel\<lparr>Mode := modeConfirmDelete, ConfirmTarget := ''teid'', ConfirmKey := 7\<rparr>)
       (set_cell 0 7 (Some (RuleV zero_rule)) loaded_kernel) = Some (m3, c, k3)
     \<and> Mode m3 = modeView \<and> (Err m3 = None \<longrightarrow> ref_entries k3 0 7 = None)"
proof -
  let ?m = "lab_panel\<lparr>Mode := modeConfirmDelete, ConfirmTarget := ''teid'', ConfirmKey := 7\<rparr>"
  let ?k = "set_cell 0 7 (Some (RuleV zero_rule)) loaded_kernel"
  have i: "ui_inv (lab_panel, loaded_kernel, [], [])" using lab_panel_wf by simp
  have s1: "ui_step lab_env (Some ''d'') (lab_panel, loaded_kernel, [], []) (?m, loaded_kernel, [NoCmd], [])"
    by (rule ui_step.press [where now = 0 and ktime = 0])
      (simp add: Update_def updateView_def lab_panel_wf focusTarget_def)
  have s2: "(ui_step lab_env None)\<^sup>*\<^sup>* (?m, loaded_kernel, [NoCmd], []) (?m, ?k, [NoCmd], [])"
    by (intro r_into_rtranclp ui_step.outside)
  have "ui_wf ?m" using lab_panel_wf by (simp add: ui_wf_def)
  then obtain m3 c k3 where u: "Update lab_env 0 0 (KeyMsg ''y'') ?m ?k = Some (m3, c, k3)"
    using Update_ok [of ?m "KeyMsg ''y''" lab_env 0 0 ?k] by (auto simp: updated_ok_def)
  from confirmed_deletion [OF lab.dashboard_host_axioms i lab_panel_wf(2,6) _ s1 s2 _ u] u lab_panel_wf
  show ?thesis by auto
qed

text \<open>C38: a refresh shows the maps: when the three reads succeed, the panels list exactly the rules the two
  maps held, in the order of their keys, each with its action, interface and counters, and the stored
  verdict counters are those read; the maps are left alone.\<close>
theorem refresh_shows_maps:
  assumes "bpf_maps api pinned entries" and "fetchCmd api tm um now k = (d, k')" and "MErr d = None"
  shows "entries k' = entries k
    \<and> TeidKeys (apply_data d m) = rule_keys (entries k tm)
    \<and> map butlast (TeidRows (apply_data d m)) = map (counters_row formatTEID (entries k tm)) (rule_keys (entries k tm))
    \<and> UeipKeys (apply_data d m) = rule_keys (entries k um)
    \<and> map butlast (UeipRows (apply_data d m)) = map (counters_row formatUEIP (entries k um)) (rule_keys (entries k um))
    \<and> Err (apply_data d m) = None \<and> LastStat (apply_data d m) = MCounters d"
  by (rule bpf_maps.refresh_shows [OF assms])

lemma counted_kernel_fetch: "\<exists>d k'. fetchCmd ref_api 0 1 now counted_kernel = (d, k') \<and> MErr d = None"
proof -
  obtain c k' where "stats_Read ref_api PinStatsMap counted_kernel = (Inr c, k')" using counted_kernel_read by blast
  then show ?thesis
    by (simp add: fetchCmd_def TeidMap_List_def UeipMap_List_def list_rules_def ref_api_def counted_kernel_def
        loaded_kernel_def set_cell_def)
qed

lemma refresh_shows_maps_witness:
  "\<exists>d k'. fetchCmd ref_api 0 1 0 counted_kernel = (d, k') \<and> TeidKeys (apply_data d lab_panel) = []"
proof -
  obtain d k' where f: "fetchCmd ref_api 0 1 0 counted_kernel = (d, k')" "MErr d = None"
    using counted_kernel_fetch by blast
  have "ref_entries counted_kernel 0 = Map.empty"
    by (simp add: ref_entries_def counted_kernel_def loaded_kernel_def set_cell_def)
  with refresh_shows_maps [OF ref.bpf_maps_axioms f, of lab_panel] f show ?thesis by (auto simp: rule_keys_def)
qed

text \<open>The rate shown is the packets of the interval over its length, within \<open>2 ^ -51\<close> of itself for
  the two roundings of the \<open>float64\<close> arithmetic, and 0 when there is no previous sample, no time passed or
  the counter was reset in between, so a counter that restarts never shows as a huge rate.\<close>
theorem shown_rate:
  assumes "0 < elapsed" and "prev \<le> cur"
  shows "\<bar>pps cur prev elapsed True - of_nat (unat cur - unat prev) / elapsed\<bar>
      \<le> of_nat (unat cur - unat prev) / elapsed / 2 ^ 51
    \<and> (prev < cur \<longrightarrow> pps prev cur elapsed True = 0) \<and> pps cur prev elapsed False = 0
    \<and> pps cur prev 0 True = 0"
  using pps_error [OF assms] by (simp add: pps_zero)

lemma shown_rate_witness: "\<bar>pps 10 4 2 True - 3\<bar> \<le> 3 / 2 ^ 51"
  using shown_rate [of 2 4 10] by simp

end
