(* ===== verification/TypedSystem.thy ===== *)
theory TypedSystem
  imports Sessions Router DashboardRuns
begin

text \<open>
  The invariant of the pinned maps over everything that writes to them: the commands, the loader, the
  XDP program and the handlers of the dashboard. \<open>maps_typed\<close> says that every pinned map holds values
  of its kind, that every rule in a rule map passes \<open>ValidateRule\<close> and that no two pins share a map;
  \<open>system_step\<close> interleaves the writers. The last section instantiates the system with the reference
  tables.
\<close>

section \<open>Typed maps\<close>

definition rule_cells_ok :: "(u32 \<Rightarrow> map_value option) \<Rightarrow> bool" where
  "rule_cells_ok c \<longleftrightarrow> (\<forall>x v. c x = Some v \<longrightarrow> (\<exists>r. v = RuleV r \<and> rule_ok r))"

definition port_cells_ok :: "(u32 \<Rightarrow> map_value option) \<Rightarrow> bool" where
  "port_cells_ok c \<longleftrightarrow> (\<forall>x v. c x = Some v \<longrightarrow> v = PortV x)"

text \<open>No two of the pins refer to one map, and the pinned maps hold what they should.\<close>

definition maps_typed :: "pins \<Rightarrow> contents \<Rightarrow> bool" where
  "maps_typed ps E \<longleftrightarrow>
     (\<forall>p \<in> set rule_pins. \<forall>q \<in> set rule_pins. \<forall>m. ps p = Some m \<longrightarrow> ps q = Some m \<longrightarrow> p = q)
     \<and> (\<forall>p \<in> {PinTeidMap, PinUeipMap, PinNatMap}. \<forall>m. ps p = Some m \<longrightarrow> rule_cells_ok (E m))
     \<and> (\<forall>m. ps PinTxPort = Some m \<longrightarrow> port_cells_ok (E m))"

text \<open>Fewer pins to maps with the same contents.\<close>

lemma maps_typed_mono:
  assumes "maps_typed ps E" and "\<And>p m. ps' p = Some m \<Longrightarrow> ps p = Some m \<and> E' m = E m"
  shows "maps_typed ps' E'"
  unfolding maps_typed_def
proof (intro conjI ballI allI impI)
  fix p q m assume "p \<in> set rule_pins" "q \<in> set rule_pins" "ps' p = Some m" "ps' q = Some m"
  then show "p = q" using assms by (auto simp: maps_typed_def)
next
  fix p m assume "p \<in> {PinTeidMap, PinUeipMap, PinNatMap}" "ps' p = Some m"
  then show "rule_cells_ok (E' m)" using assms(1) assms(2) [of p m] by (auto simp: maps_typed_def)
next
  fix m assume "ps' PinTxPort = Some m"
  then show "port_cells_ok (E' m)" using assms(1) assms(2) [of PinTxPort m] by (auto simp: maps_typed_def)
qed

fun write_ok :: "map_write \<Rightarrow> bool" where
  "write_ok (PutTeid x r) = rule_ok r"
| "write_ok (PutUeip x r) = rule_ok r"
| "write_ok (PutNat x r) = rule_ok r"
| "write_ok _ = True"

lemma cells_ok_set:
  "rule_cells_ok c \<Longrightarrow> rule_ok r \<Longrightarrow> rule_cells_ok (c(x \<mapsto> RuleV r))"
  "rule_cells_ok c \<Longrightarrow> rule_cells_ok (c(x := None))"
  "port_cells_ok c \<Longrightarrow> port_cells_ok (c(i \<mapsto> PortV i))"
  by (auto simp: rule_cells_ok_def port_cells_ok_def)

text \<open>One cell of a map changes, to something the map may hold under each of its pins.\<close>

lemma maps_typed_cell:
  assumes "maps_typed ps E"
    and "\<And>p. p \<in> {PinTeidMap, PinUeipMap, PinNatMap} \<Longrightarrow> ps p = Some m \<Longrightarrow>
      rule_cells_ok ((E m)(x := c))"
    and "ps PinTxPort = Some m \<Longrightarrow> port_cells_ok ((E m)(x := c))"
  shows "maps_typed ps (cell_set E m x c)"
  using assms by (auto simp: maps_typed_def cell_set_def)

lemma rule_pin_cases: "p \<in> {PinTeidMap, PinUeipMap, PinNatMap} \<Longrightarrow> p \<in> set rule_pins \<and> p \<noteq> PinTxPort"
  using pins_distinct by (auto simp: rule_pins_def)

lemma tx_pin: "PinTxPort \<in> set rule_pins"
  by (simp add: rule_pins_def)

text \<open>A rule that passes \<open>ValidateRule\<close> may be put under any of the rule pins, and any rule removed.\<close>

lemma maps_typed_rule:
  assumes "maps_typed ps E" and "p \<in> {PinTeidMap, PinUeipMap, PinNatMap}"
    and "\<And>q. q \<in> set rule_pins \<Longrightarrow> ps q = Some m \<Longrightarrow> q = p" and "\<And>r. c = Some r \<Longrightarrow> \<exists>q. r = RuleV q \<and> rule_ok q"
  shows "maps_typed ps (cell_set E m x c)"
proof (rule maps_typed_cell [OF assms(1)])
  fix q assume "q \<in> {PinTeidMap, PinUeipMap, PinNatMap}" and q: "ps q = Some m"
  then have "rule_cells_ok (E m)" using assms(1) by (auto simp: maps_typed_def)
  then show "rule_cells_ok ((E m)(x := c))"
    using assms(4) by (cases c) (auto intro: cells_ok_set)
next
  assume "ps PinTxPort = Some m"
  then have "PinTxPort = p" using assms(3) tx_pin by blast
  then show "port_cells_ok ((E m)(x := c))" using rule_pin_cases [OF assms(2)] by simp
qed

lemma maps_typed_write:
  assumes "maps_typed ps E" and "ps (pin_of w) \<noteq> None" and "write_ok w"
  shows "maps_typed ps (write_map ps w E)"
proof -
  obtain m where m: "ps (pin_of w) = Some m" using assms(2) by auto
  have one: "q = pin_of w" if "q \<in> set rule_pins" "ps q = Some m" for q
    using assms(1) m that by (cases w) (auto simp: maps_typed_def rule_pins_def)
  show ?thesis
  proof (cases w)
    case (AddPort i)
    then have tx: "ps PinTxPort = Some m" using m by simp
    show ?thesis
      unfolding AddPort write_map.simps tx option.sel
    proof (rule maps_typed_cell [OF assms(1)])
      fix q assume "q \<in> {PinTeidMap, PinUeipMap, PinNatMap}" and "ps q = Some m"
      with one [of q] rule_pin_cases [of q] AddPort show "rule_cells_ok ((E m)(i \<mapsto> PortV i))" by auto
    next
      show "port_cells_ok ((E m)(i \<mapsto> PortV i))"
        using assms(1) tx by (auto simp: maps_typed_def intro: cells_ok_set)
    qed
  qed (use assms m one in \<open>auto intro!: maps_typed_rule [where p = "pin_of w"]\<close>)
qed

lemma maps_typed_written:
  assumes "written ps ws E E'" and "maps_typed ps E" and "\<forall>w \<in> set ws. write_ok w"
  shows "maps_typed ps E'"
proof -
  have "maps_typed ps (fold (write_map ps) ws E)"
    using assms(2,3) assms(1) [unfolded written_def, THEN conjunct1]
    by (induction ws arbitrary: E) (simp_all add: maps_typed_write)
  then show ?thesis using assms(1) by (simp add: written_def)
qed

lemma writes_of_ok: "\<forall>w \<in> set (writes_of ifaces c given). write_ok w"
  by (auto simp: writes_of_def key_write_def port_writes_def split: subcommand.splits sum.splits
      prod.splits if_splits dest: add_teid_build_ok add_ueip_build_ok add_nat_build_ok
      add_teid_build_ok [OF sym] add_ueip_build_ok [OF sym] add_nat_build_ok [OF sym])

definition sys_typed :: "sysview \<Rightarrow> bool" where
  "sys_typed v \<longleftrightarrow> maps_typed (map_pins v) (VEntries v)"

lemma wrote_typed:
  assumes "wrote ws r v v'" and "sys_typed v" and "\<forall>w \<in> set ws. write_ok w"
  shows "sys_typed v'"
proof -
  obtain n where "map_pins v' = map_pins v" and w: "written (map_pins v) (take n ws) (VEntries v) (VEntries v')"
    using assms(1) by (auto simp: wrote_def)
  moreover have "\<forall>w \<in> set (take n ws). write_ok w" using assms(3) set_take_subset by fast
  ultimately show ?thesis using assms(2) maps_typed_written unfolding sys_typed_def by metis
qed

section \<open>Loading and unloading\<close>

text \<open>The contents stay and no pin to a map is added.\<close>

definition fewer_maps :: "sysview \<Rightarrow> sysview \<Rightarrow> bool" where
  "fewer_maps v v' \<longleftrightarrow> VEntries v' = VEntries v
     \<and> (\<forall>p m. VPins v' p = Some (MapObj m) \<longrightarrow> VPins v p = Some (MapObj m))"

lemma fewer_maps_refl [simp]: "fewer_maps v v"
  by (simp add: fewer_maps_def)

lemma fewer_maps_trans: "fewer_maps v v' \<Longrightarrow> fewer_maps v' v'' \<Longrightarrow> fewer_maps v v''"
  by (simp add: fewer_maps_def)

lemma fewer_maps_typed: "fewer_maps v v' \<Longrightarrow> sys_typed v \<Longrightarrow> sys_typed v'"
  unfolding sys_typed_def by (erule maps_typed_mono) (simp add: fewer_maps_def map_pins_Some)

text \<open>While the new objects are pinned: each of the new maps is pinned under its own name only.\<close>

definition loading :: "objs \<Rightarrow> sysview \<Rightarrow> bool" where
  "loading ob v \<longleftrightarrow> sys_typed v
     \<and> (\<forall>(p, m) \<in> set (pin_list ob). \<forall>q. VPins v q = Some (MapObj m) \<longrightarrow> q = p)
     \<and> rule_cells_ok (VEntries v (TeidFd ob)) \<and> rule_cells_ok (VEntries v (UeipFd ob))
     \<and> rule_cells_ok (VEntries v (NatFd ob)) \<and> port_cells_ok (VEntries v (TxFd ob))"

lemma loading_typed: "loading ob v \<Longrightarrow> sys_typed v"
  by (simp add: loading_def)

lemma fewer_maps_loading: "fewer_maps v v' \<Longrightarrow> loading ob v \<Longrightarrow> loading ob v'"
  unfolding loading_def using fewer_maps_typed by (fastforce simp: fewer_maps_def)

text \<open>The maps of the loader start empty.\<close>

locale bpf_fresh = bpf_system lapi view for lapi :: "'k loader_api" and view :: "'k \<Rightarrow> sysview" +
  assumes new_maps_empty: "LoadAndAssign lapi spec k = (Inr ob, k') \<Longrightarrow>
      m \<in> {TeidFd ob, UeipFd ob, NatFd ob, TxFd ob} \<Longrightarrow> VEntries (view k') m x = None"
begin

lemma load_objects_loading:
  assumes "LoadGtpXdpObjects lapi k = (Inr ob, k')" and "sys_typed (view k)"
  shows "loading ob (view k')" and "distinct (map snd (pin_list ob))"
proof -
  obtain spec where l: "LoadAndAssign lapi spec k = (Inr ob, k')"
    using assms(1) by (auto simp: LoadGtpXdpObjects_def split: sum.splits)
  note o = load_objects(1) [OF assms(1)]
  have "view k' = (view k)\<lparr>VEntries := VEntries (view k')\<rparr>" using o by blast
  from arg_cong [OF this, of VPins] have pins: "VPins (view k') = VPins (view k)" by simp
  have fresh: "VPins (view k') p \<noteq> Some (MapObj m)" if "m \<in> object_fds ob" for p m
    using o that pins by (auto simp: fresh_objs_def)
  show "distinct (map snd (pin_list ob))" using o by (auto simp: fresh_objs_def pin_list_def)
  have same: "VEntries (view k') m = VEntries (view k) m" if "map_pins (view k') p = Some m" for p m
    using o fresh [of m p] that by (auto simp: map_pins_Some)
  have "map_pins (view k') = map_pins (view k)" using pins by (simp add: map_pins_def [abs_def])
  then have "sys_typed (view k')"
    unfolding sys_typed_def
    by (intro maps_typed_mono [OF assms(2) [unfolded sys_typed_def]]) (simp add: same)
  moreover have "VEntries (view k') m = (\<lambda>x. None)" if "m \<in> {TeidFd ob, UeipFd ob, NatFd ob, TxFd ob}" for m
    using new_maps_empty [OF l that] by auto
  moreover have "\<forall>(p, m) \<in> set (pin_list ob). \<forall>q. VPins (view k') q = Some (MapObj m) \<longrightarrow> q = p"
    using fresh by (auto simp: pin_list_def object_fds_def)
  ultimately show "loading ob (view k')"
    by (simp add: loading_def rule_cells_ok_def port_cells_ok_def)
qed

lemma remove_fewer: "fewer_maps (view k) (view (snd (RemovePath lapi p k)))"
  using remove_view [of p k] by (auto simp: fewer_maps_def split: if_splits)

lemma link_ops_fewer:
  "fewer_maps (view k) (view (snd (LinkPin lapi l p k)))"
  "fewer_maps (view k) (view (snd (LinkUnpin lapi l k)))"
  "fewer_maps (view k) (view (snd (LinkClose lapi l k)))"
  "fewer_maps (view k) (view (snd (LoadPinnedLink lapi p k)))"
  "fewer_maps (view k) (view (snd (AttachXDP lapi pr i fl k)))"
proof -
  obtain r k' where 1: "LinkPin lapi l p k = (r, k')" by fastforce
  then show "fewer_maps (view k) (view (snd (LinkPin lapi l p k)))"
    using link_pin by (cases r) (auto simp: fewer_maps_def split: if_splits)
  obtain r k' where 2: "LinkUnpin lapi l k = (r, k')" by fastforce
  then show "fewer_maps (view k) (view (snd (LinkUnpin lapi l k)))"
    using link_unpin by (cases r) (auto simp: fewer_maps_def split: if_splits)
  show "fewer_maps (view k) (view (snd (LinkClose lapi l k)))"
    by (simp add: link_close fewer_maps_def)
  obtain r k' where 3: "LoadPinnedLink lapi p k = (r, k')" by fastforce
  then show "fewer_maps (view k) (view (snd (LoadPinnedLink lapi p k)))"
    using load_link by (cases r) (auto simp: fewer_maps_def)
  obtain r k' where 4: "AttachXDP lapi pr i fl k = (r, k')" by fastforce
  then show "fewer_maps (view k) (view (snd (AttachXDP lapi pr i fl k)))"
    using attach by (cases r) (auto simp: fewer_maps_def)
qed

lemma Unload_fewer:
  assumes "Unload lapi ifaces name k = (r, k')"
  shows "fewer_maps (view k) (view k')"
proof -
  have closed: "fewer_maps (view k) (view (close_pinned lapi p k))" for p k
  proof -
    obtain r1 k1 where l: "LoadPinnedLink lapi p k = (r1, k1)" by fastforce
    with link_ops_fewer(4) [of k p] have "fewer_maps (view k) (view k1)" by simp
    with l link_ops_fewer(3) show ?thesis
      by (cases r1) (auto simp: close_pinned_def intro: fewer_maps_trans)
  qed
  have "fewer_maps (view k) (view (fold (\<lambda>p k. snd (RemovePath lapi p k)) ps k))" for ps k
    by (induction ps arbitrary: k) (auto intro: fewer_maps_trans remove_fewer)
  then have "fewer_maps (view k) (view (fold (\<lambda>p k. snd (RemovePath lapi p k)) unload_paths
      (close_pinned lapi PinProgDownlink (close_pinned lapi PinProg k))))"
    by (meson closed fewer_maps_trans)
  then show ?thesis using assms by (auto simp: Unload_def split: sum.splits)
qed

lemma pin_list_roles:
  assumes "(p, m) \<in> set (pin_list ob)"
  shows "p = PinTeidMap \<Longrightarrow> m = TeidFd ob" "p = PinUeipMap \<Longrightarrow> m = UeipFd ob"
    "p = PinNatMap \<Longrightarrow> m = NatFd ob" "p = PinTxPort \<Longrightarrow> m = TxFd ob"
  using assms pins_distinct by (auto simp: pin_list_def)

lemma pin_map_loading:
  assumes "loading ob (view k)" and "(p, m) \<in> set (pin_list ob)" and "distinct (map snd (pin_list ob))"
    and "PinMap lapi m p k = (r, k')"
  shows "loading ob (view k')"
proof (cases r)
  case (Some e)
  then show ?thesis using assms(1,4) pin_map(2) by simp
next
  case None
  then have v: "view k' = (view k)\<lparr>VPins := (VPins (view k))(p \<mapsto> MapObj m)\<rparr>"
    using assms(4) pin_map(1) by simp
  have own: "q = p'" if "(p', m') \<in> set (pin_list ob)" "VPins (view k) q = Some (MapObj m')" for p' m' q
    using assms(1) that by (auto simp: loading_def)
  have one: "p' = p" if "(p', m) \<in> set (pin_list ob)" for p'
  proof -
    have "inj_on snd (set (pin_list ob))" using assms(3) by (simp add: distinct_map)
    from inj_onD [OF this _ that assms(2)] show ?thesis by simp
  qed
  have cells: "rule_cells_ok (VEntries (view k) (TeidFd ob))" "rule_cells_ok (VEntries (view k) (UeipFd ob))"
    "rule_cells_ok (VEntries (view k) (NatFd ob))" "port_cells_ok (VEntries (view k) (TxFd ob))"
    and typed: "maps_typed (map_pins (view k)) (VEntries (view k))"
    using assms(1) by (auto simp: loading_def sys_typed_def)
  have pins: "map_pins (view k') = (map_pins (view k))(p \<mapsto> m)"
    using v by (auto simp: map_pins_def fun_eq_iff)
  have "maps_typed ((map_pins (view k))(p \<mapsto> m)) (VEntries (view k))"
    unfolding maps_typed_def
  proof (intro conjI ballI allI impI)
    fix p1 q1 x assume r: "p1 \<in> set rule_pins" "q1 \<in> set rule_pins"
      and x: "((map_pins (view k))(p \<mapsto> m)) p1 = Some x" "((map_pins (view k))(p \<mapsto> m)) q1 = Some x"
    have old: "q = p" if "map_pins (view k) q = Some m" for q
      using own [OF assms(2)] that by (simp add: map_pins_Some)
    have "p1 = q1" if "map_pins (view k) p1 = Some x" "map_pins (view k) q1 = Some x"
      using typed r that unfolding maps_typed_def by blast
    then show "p1 = q1" using x old [of p1] old [of q1] by (auto split: if_splits)
  next
    fix p1 x assume p1: "p1 \<in> {PinTeidMap, PinUeipMap, PinNatMap}"
      and x: "((map_pins (view k))(p \<mapsto> m)) p1 = Some x"
    show "rule_cells_ok (VEntries (view k) x)"
    proof (cases "p1 = p")
      case True
      then show ?thesis using x p1 pin_list_roles [OF assms(2)] cells by auto
    next
      case False
      then show ?thesis using x p1 typed by (auto simp: maps_typed_def)
    qed
  next
    fix x assume x: "((map_pins (view k))(p \<mapsto> m)) PinTxPort = Some x"
    show "port_cells_ok (VEntries (view k) x)"
    proof (cases "PinTxPort = p")
      case True
      then show ?thesis using x pin_list_roles(4) [OF assms(2)] cells(4) by auto
    next
      case False
      then show ?thesis using x typed by (auto simp: maps_typed_def)
    qed
  qed
  then have "sys_typed (view k')" using pins v by (simp add: sys_typed_def)
  moreover have "q = p'" if "(p', m') \<in> set (pin_list ob)" "VPins (view k') q = Some (MapObj m')" for p' m' q
    using that own one v by (auto split: if_splits)
  ultimately show ?thesis using cells v by (auto simp: loading_def)
qed

lemma pin_maps_loading:
  assumes "loading ob (view k)" and "set ps \<subseteq> set (pin_list ob)" and "distinct (map snd (pin_list ob))"
    and "pin_maps lapi ps k = (r, k')"
  shows "loading ob (view k')"
  using assms(1,2,4)
proof (induction ps arbitrary: k)
  case (Cons x ps)
  obtain p m where x: "x = (p, m)" by fastforce
  let ?k = "snd (RemovePath lapi p k)"
  obtain r1 k1 where m: "PinMap lapi m p ?k = (r1, k1)" by fastforce
  have "loading ob (view ?k)" by (rule fewer_maps_loading [OF remove_fewer Cons.prems(1)])
  from pin_map_loading [OF this _ assms(3) m] Cons.prems(2) x have "loading ob (view k1)" by auto
  with Cons.IH [of k1] Cons.prems(2,3) x m show ?case by (auto split: option.splits)
qed simp

lemma ensure_port_loading:
  assumes "loading ob (view k)" and "distinct (map snd (pin_list ob))"
    and "ensure_port lapi ob i name k = (r, k')"
  shows "loading ob (view k')"
proof -
  let ?x = "word_of_int i :: u32"
  obtain r1 where t: "TxPortMap_Ensure (Maps lapi) (TxFd ob) ?x k = (r1, k')"
    using assms(3) by (auto simp: ensure_port_def split: sum.splits prod.splits)
  obtain r2 where p: "MapPut (Maps lapi) (TxFd ob) ?x (PortV ?x) k = (r2, k')"
    using t by (auto simp: TxPortMap_Ensure_def split: prod.splits option.splits)
  show ?thesis
  proof (cases r2)
    case (Some e)
    have "view k' = (view k)\<lparr>VEntries := VEntries (view k')\<rparr>" by (rule put_frame [OF p])
    with put_err [OF p [unfolded Some]] have "fewer_maps (view k) (view k')"
      by (auto simp: fewer_maps_def map_pins_Some dest: arg_cong [of _ _ VPins])
    then show ?thesis by (rule fewer_maps_loading [OF _ assms(1)])
  next
    case None
    have v: "VEntries (view k') = cell_set (VEntries (view k)) (TxFd ob) ?x (Some (PortV ?x))"
      using put_ok [OF p [unfolded None]] by (simp add: cell_set_def)
    have "view k' = (view k)\<lparr>VEntries := VEntries (view k')\<rparr>" by (rule put_frame [OF p])
    from arg_cong [OF this, of VPins] have pins: "VPins (view k') = VPins (view k)" by simp
    then have mp: "map_pins (view k') = map_pins (view k)" by (simp add: map_pins_def [abs_def])
    have l: "(PinTxPort, TxFd ob) \<in> set (pin_list ob)" by (simp add: pin_list_def)
    have own: "q = PinTxPort" if "map_pins (view k) q = Some (TxFd ob)" for q
      using assms(1) l that by (auto simp: loading_def map_pins_Some)
    have port: "port_cells_ok ((VEntries (view k) (TxFd ob))(?x \<mapsto> PortV ?x))"
      using assms(1) by (auto simp: loading_def intro: cells_ok_set)
    have "maps_typed (map_pins (view k)) (VEntries (view k'))"
      unfolding v
    proof (rule maps_typed_cell)
      show "maps_typed (map_pins (view k)) (VEntries (view k))"
        using assms(1) by (simp add: loading_def sys_typed_def)
    next
      fix q assume "q \<in> {PinTeidMap, PinUeipMap, PinNatMap}" "map_pins (view k) q = Some (TxFd ob)"
      then show "rule_cells_ok ((VEntries (view k) (TxFd ob))(?x \<mapsto> PortV ?x))"
        using own [of q] rule_pin_cases [of q] by auto
    qed (rule port)
    moreover have "TxFd ob \<noteq> TeidFd ob" "TxFd ob \<noteq> UeipFd ob" "TxFd ob \<noteq> NatFd ob"
      using assms(2) by (auto simp: pin_list_def)
    ultimately show ?thesis
      using assms(1) port pins mp v by (auto simp: loading_def sys_typed_def cell_set_def)
  qed
qed

lemma Loader_Close_fewer: "fewer_maps (view k) (view (Loader_Close lapi l k))"
  by (simp add: Loader_Close_view fewer_maps_def)

lemma cleanup_fewer: "fewer_maps (view k) (view (cleanup lapi x l k))"
  unfolding cleanup_def by (rule fewer_maps_trans [OF link_ops_fewer(2) Loader_Close_fewer])

lemma replace_pin_fewer: "fewer_maps (view k) (view (replace_pin lapi l p k))"
  unfolding replace_pin_def by (rule fewer_maps_trans [OF remove_fewer link_ops_fewer(1)])

lemma load_downlink_loading:
  assumes "loading ob (view k)" and "distinct (map snd (pin_list ob))" and "Objs l = ob"
    and "load_downlink lapi ifaces x l dl mode k = (r, k')"
  shows "loading ob (view k')"
proof (cases "ifaces dl")
  case (Inl e)
  with assms show ?thesis
    by (auto simp: load_downlink_def intro: fewer_maps_loading [OF cleanup_fewer])
next
  case (Inr i)
  obtain r1 k1 where p: "ensure_port lapi ob i dl k = (r1, k1)" by fastforce
  have k1: "loading ob (view k1)" by (rule ensure_port_loading [OF assms(1,2) p])
  obtain r2 k2 where a: "AttachXDP lapi (XdpGtpRouter ob) i mode k1 = (r2, k2)" by fastforce
  have k2: "loading ob (view k2)"
    using fewer_maps_loading [OF link_ops_fewer(5) k1, of "XdpGtpRouter ob" i mode] a by simp
  show ?thesis
    using assms(3,4) Inr p a fewer_maps_loading [OF cleanup_fewer k1]
      fewer_maps_loading [OF cleanup_fewer k2] fewer_maps_loading [OF replace_pin_fewer k2]
    by (cases r1; cases r2) (auto simp: load_downlink_def)
qed

lemma load_uplink_loading:
  assumes "loading ob (view k)" and "distinct (map snd (pin_list ob))"
    and "load_uplink lapi ifaces ob i up mode dl dmode k = (r, k')"
  shows "loading ob (view k')"
proof -
  obtain r1 k1 where a: "AttachXDP lapi (XdpGtpRouter ob) i mode k = (r1, k1)" by fastforce
  have k1: "loading ob (view k1)"
    using fewer_maps_loading [OF link_ops_fewer(5) assms(1), of "XdpGtpRouter ob" i mode] a by simp
  show ?thesis
  proof (cases r1)
    case (Inl e)
    with a assms(3) k1 show ?thesis by (auto simp: load_uplink_def)
  next
    case (Inr x)
    obtain r2 k2 where p: "ensure_port lapi ob i up (replace_pin lapi x PinProg k1) = (r2, k2)"
      by fastforce
    have k2: "loading ob (view k2)"
      by (rule ensure_port_loading [OF fewer_maps_loading [OF replace_pin_fewer k1] assms(2) p])
    have "loading ob (view (snd (LinkClose lapi x (snd (LinkUnpin lapi x k2)))))"
      by (intro fewer_maps_loading [OF link_ops_fewer(3)] fewer_maps_loading [OF link_ops_fewer(2) k2])
    moreover have "loading ob (view k')"
      if "load_downlink lapi ifaces x \<lparr>Objs = ob, Xdp = Some x, XdpDL = None, Iface = i\<rparr> dl dmode k2 = (r, k')"
      by (rule load_downlink_loading [OF k2 assms(2) _ that]) simp
    ultimately show ?thesis
      using assms(3) a Inr p k2
      by (cases r2) (auto simp: load_uplink_def Let_def split: if_splits)
  qed
qed

lemma Load_typed:
  assumes "sys_typed (view k)" and "Load lapi ifaces up mode dl dmode k = (r, k')"
  shows "sys_typed (view k')"
proof (cases "ifaces up")
  case (Inl e)
  with assms show ?thesis by (auto simp: Load_def)
next
  case (Inr i)
  obtain r1 k1 where l: "LoadGtpXdpObjects lapi k = (r1, k1)" by fastforce
  show ?thesis
  proof (cases r1)
    case (Inl e)
    with l load_objects(2) [of k e k1] assms Inr show ?thesis by (auto simp: Load_def)
  next
    case ob: (Inr ob)
    note o = load_objects_loading [OF l [unfolded ob] assms(1)]
    obtain r2 k2 where m: "MkdirAll lapi PinDir k1 = (r2, k2)" by fastforce
    have k2: "loading ob (view k2)" using o(1) mkdir [of PinDir k1] m by simp
    obtain r3 k3 where p: "pin_maps lapi (pin_list ob) k2 = (r3, k3)" by fastforce
    have k3: "loading ob (view k3)" by (rule pin_maps_loading [OF k2 subset_refl o(2) p])
    show ?thesis
      using assms(2) Inr l ob m p loading_typed [OF k2] loading_typed [OF k3]
        loading_typed [OF load_uplink_loading [OF k3 o(2)]]
      by (cases r2; cases r3) (auto simp: Load_def)
  qed
qed

lemma load_RunE_typed:
  assumes "sys_typed (view k)" and "load_RunE lapi ifaces up mode dl dmode k = (r, k')"
  shows "sys_typed (view k')"
proof -
  have "sys_typed (view k1)" if "Load lapi ifaces up m dl d k = (q, k1)" for m d q k1
    by (rule Load_typed [OF assms(1) that])
  then show ?thesis
    using assms fewer_maps_typed [OF Loader_Close_fewer]
    by (auto simp: load_RunE_def split: if_splits sum.splits prod.splits)
qed

lemma unload_RunE_typed:
  "sys_typed (view k) \<Longrightarrow> unload_RunE lapi ifaces name k = (r, k') \<Longrightarrow> sys_typed (view k')"
  by (auto simp: unload_RunE_def split: if_splits dest: Unload_fewer intro: fewer_maps_typed)

text \<open>Every command but the dashboard, whatever it returns.\<close>

lemma RunE_typed:
  assumes "KernelApi h = lapi" and "c \<noteq> DashboardCmd" and "RunE h evs c given k = (r, k')"
    and "sys_typed (view k)"
  shows "sys_typed (view k')"
proof (cases "map_command c")
  case True
  from wrote_typed [OF RunE_wrote [OF assms(1) True assms(3)] assms(4) writes_of_ok] show ?thesis .
next
  case False
  then have "c = LoadCmd \<or> c = UnloadCmd" using assms(2) by (auto simp: map_command_def)
  then show ?thesis
  proof
    assume "c = LoadCmd"
    then show ?thesis using assms(1,3,4)
      by (auto simp: RunE_def Let_def result_of_def split: sum.splits prod.splits dest: load_RunE_typed)
  next
    assume "c = UnloadCmd"
    then show ?thesis using assms(1,3,4)
      by (auto simp: RunE_def Let_def result_of_def split: sum.splits prod.splits dest: unload_RunE_typed)
  qed
qed

end

section \<open>A frame in the data plane\<close>

text \<open>The program writes the rules it changed back into the maps.\<close>

definition write_back :: "pins \<Rightarrow> dp_state \<Rightarrow> contents \<Rightarrow> contents" where
  "write_back ps st E =
     (\<lambda>m. if ps PinTeidMap = Some m then map_option RuleV \<circ> teid_map st
          else if ps PinUeipMap = Some m then map_option RuleV \<circ> ueip_map st
          else if ps PinNatMap = Some m then map_option RuleV \<circ> nat_map st
          else E m)"

lemma rule_of_RuleV [simp]: "rule_of (map_option RuleV r) = r"
  by (cases r) simp_all

lemma plane_write_back:
  assumes "all_pinned ps" and "tx_port st = tx_port (plane E ps stats)"
  shows "plane (write_back ps st E) ps (stats_map st) = st"
proof -
  obtain t u n x where p: "ps PinTeidMap = Some t" "ps PinUeipMap = Some u" "ps PinNatMap = Some n"
    "ps PinTxPort = Some x" and d: "distinct [t, u, n, x]"
    using assms(1) by (auto simp: all_pinned_def rule_pins_def)
  show ?thesis
    using assms(2) p d by (auto simp: plane_def write_back_def intro!: dp_state.equality)
qed

lemma rule_ok_settings: "settings_of r = settings_of r' \<Longrightarrow> rule_ok r = rule_ok r'"
proof -
  have "rule_ok (settings_of r) = rule_ok r" for r
    by (simp add: settings_of_def config_of_def rule_ok_def deliverable_def)
  then show "settings_of r = settings_of r' \<Longrightarrow> rule_ok r = rule_ok r'" by metis
qed

lemma router_same_config:
  assumes "xdp_gtp_router adj now p st = Some (v, q, st')"
  shows "same_config st st'"
proof (cases "classify p = Truncated")
  case True
  then show ?thesis using assms by (simp add: router_dispatch)
next
  case False
  from accounted_dispatch [OF False] assms show ?thesis
    unfolding router_dispatch accounted_def by blast
qed

lemma write_back_typed:
  assumes "maps_typed ps E" and "all_pinned ps"
    and "xdp_gtp_router adj now p (plane E ps stats) = Some (v, q, st)"
  shows "maps_typed ps (write_back ps st E)"
proof -
  obtain t u n x where pin: "ps PinTeidMap = Some t" "ps PinUeipMap = Some u" "ps PinNatMap = Some n"
    "ps PinTxPort = Some x" and d: "distinct [t, u, n, x]"
    using assms(2) by (auto simp: all_pinned_def rule_pins_def)
  note same = router_same_config [OF assms(3), unfolded same_config_def]
  have keep: "rule_cells_ok (map_option RuleV \<circ> g)"
    if g: "\<And>y. map_option settings_of (g y) = map_option settings_of (rule_of (E m y))"
      and c: "rule_cells_ok (E m)" for g m
    unfolding rule_cells_ok_def
  proof (intro allI impI)
    fix y w assume "(map_option RuleV \<circ> g) y = Some w"
    then obtain r where r: "g y = Some r" "w = RuleV r" by auto
    then obtain r0 where "rule_of (E m y) = Some r0" "settings_of r = settings_of r0"
      using g [of y] by (cases "rule_of (E m y)") auto
    moreover from this(1) have "E m y = Some (RuleV r0)"
      by (auto simp: rule_of_def split: option.splits map_value.splits)
    ultimately have "rule_ok r" using c rule_ok_settings unfolding rule_cells_ok_def by blast
    with r show "\<exists>r. w = RuleV r \<and> rule_ok r" by blast
  qed
  have tc: "rule_cells_ok (E t)" "rule_cells_ok (E u)" "rule_cells_ok (E n)" "port_cells_ok (E x)"
    using assms(1) pin by (auto simp: maps_typed_def)
  have "rule_cells_ok (write_back ps st E t)" "rule_cells_ok (write_back ps st E u)"
    "rule_cells_ok (write_back ps st E n)" "write_back ps st E x = E x"
    using same [THEN conjunct2, THEN spec, of "TeidSlot y" for y]
      same [THEN conjunct2, THEN spec, of "UeipSlot y" for y]
      same [THEN conjunct2, THEN spec, of "NatSlot y" for y] pin d tc
    by (auto simp: write_back_def plane_def intro!: keep simp del: map_option_eq_Some)
  then show ?thesis using assms(1) tc(4) pin by (auto simp: maps_typed_def)
qed

section \<open>A handler of the dashboard\<close>

text \<open>Sending a signal pins nothing and unpins nothing.\<close>

locale dashboard_system = dashboard_host env pinned entries
  for env :: "('t, 'e, 'c, 'k) tui_env"
    and pinned :: "'k \<Rightarrow> string \<Rightarrow> map_fd option"
    and entries :: "'k \<Rightarrow> map_fd \<Rightarrow> u32 \<Rightarrow> map_value option" +
  assumes pkill_pins: "pinned (snd (Exec env (''pkill'' # args) k)) = pinned k"

text \<open>The two maps the dashboard has opened are not pinned under the name of another map.\<close>

definition opened :: "pins \<Rightarrow> 't ui_model \<Rightarrow> bool" where
  "opened ps m \<longleftrightarrow> (\<forall>p \<in> set rule_pins. (ps p = Some (Tm m) \<longrightarrow> p = PinTeidMap)
     \<and> (ps p = Some (Um m) \<longrightarrow> p = PinUeipMap))"

context bpf_maps
begin

text \<open>So it is when the dashboard starts on typed maps. If they are not there it does not start.\<close>

lemma Run_model_opened:
  assumes "Run_model api getenv interval k = (Inr m, k')" and "maps_typed (pinned k) E"
  shows "opened (pinned k) m \<and> pinned k' = pinned k \<and> entries k' = entries k
    \<and> pinned k PinTeidMap = Some (Tm m) \<and> pinned k PinUeipMap = Some (Um m)"
proof -
  have p: "pinned k PinTeidMap = Some (Tm m)" "pinned k PinUeipMap = Some (Um m)" "k' = k"
    using assms(1)
    by (auto simp: Run_model_def OpenTeidMap_def OpenUeipMap_def open_pinned_def load_pinned newModel_def
        split: sum.splits prod.splits option.splits dest: load_pinned)
  moreover have "PinTeidMap \<in> set rule_pins" "PinUeipMap \<in> set rule_pins" by (simp_all add: rule_pins_def)
  ultimately show ?thesis using assms(2) unfolding opened_def maps_typed_def by metis
qed

lemma Run_needs_load:
  assumes "pinned k PinTeidMap = None \<or> pinned k PinUeipMap = None"
  shows "\<exists>e k'. Run api getenv program interval k = (Inl e, k')
    \<and> pinned k' = pinned k \<and> entries k' = entries k"
  using assms
  by (auto simp: Run_def Run_model_def OpenTeidMap_def OpenUeipMap_def open_pinned_def load_pinned close_map
      split: sum.splits prod.splits option.splits)

lemma put_pins:
  "TeidMap_Put api t x rule k = (r, k') \<Longrightarrow> pinned k' = pinned k"
  "UeipMap_Put api u ip rule k = (r, k') \<Longrightarrow> pinned k' = pinned k"
  by (auto simp: TeidMap_Put_def UeipMap_Put_def split: prod.splits option.splits sum.splits
      dest: put_ok put_err)

lemma delete_pins:
  "TeidMap_Delete api t x k = (r, k') \<Longrightarrow> pinned k' = pinned k"
  "UeipMap_Delete api u ip k = (r, k') \<Longrightarrow> pinned k' = pinned k"
  by (auto simp: TeidMap_Delete_def UeipMap_Delete_def split: prod.splits option.splits sum.splits if_splits
      dest: delete_ok delete_err)

text \<open>A valid rule written to one of the two maps, or a rule removed from it.\<close>

lemma typed_cell:
  assumes "maps_typed ps E" and "opened ps m" and "f = Tm m \<or> f = Um m"
    and "\<And>r. c = Some r \<Longrightarrow> \<exists>q. r = RuleV q \<and> rule_ok q"
  shows "maps_typed ps (cell_set E f x c)"
proof (cases "f = Tm m")
  case True
  show ?thesis
    by (rule maps_typed_rule [OF assms(1), of PinTeidMap]) (use assms True in \<open>auto simp: opened_def\<close>)
next
  case False
  then show ?thesis
    by (intro maps_typed_rule [OF assms(1), of PinUeipMap]) (use assms in \<open>auto simp: opened_def\<close>)
qed

lemma put_typed:
  assumes "maps_typed (pinned k) (entries k)" and "opened (pinned k) m" and "rule_ok rule"
  shows "TeidMap_Put api (Tm m) x rule k = (r, k') \<Longrightarrow>
      pinned k' = pinned k \<and> maps_typed (pinned k) (entries k')"
    and "UeipMap_Put api (Um m) ip rule k = (r, k') \<Longrightarrow> ipKey ip = Inr y \<Longrightarrow>
      pinned k' = pinned k \<and> maps_typed (pinned k) (entries k')"
proof -
  have c: "maps_typed (pinned k) (cell_set (entries k) f y (Some (RuleV rule)))"
    if "f = Tm m \<or> f = Um m" for f y
    by (rule typed_cell [OF assms(1,2) that]) (use assms(3) in simp)
  show "TeidMap_Put api (Tm m) x rule k = (r, k') \<Longrightarrow>
      pinned k' = pinned k \<and> maps_typed (pinned k) (entries k')"
    using teid_put_result [of "Tm m" x rule k r k'] put_pins(1) [of "Tm m" x rule k r k'] c assms(1)
    by (auto split: if_splits)
  show "UeipMap_Put api (Um m) ip rule k = (r, k') \<Longrightarrow> ipKey ip = Inr y \<Longrightarrow>
      pinned k' = pinned k \<and> maps_typed (pinned k) (entries k')"
    using ueip_put_result [of "Um m" ip rule k r k' y] put_pins(2) [of "Um m" ip rule k r k'] c assms(1)
    by (auto split: if_splits)
qed

lemma default_rules_typed:
  assumes "maps_typed (pinned k) (entries k)" and "opened (pinned k) m"
    and "addDefaultRules api m k = (r, k')"
  shows "pinned k' = pinned k \<and> maps_typed (pinned k) (entries k')"
proof -
  obtain r1 k1 where 1: "TeidMap_Put api (Tm m) 0xDEAD (zero_rule\<lparr>Action := ActionDrop\<rparr>) k = (r1, k1)" by fastforce
  obtain r2 k2 where 2: "TeidMap_Put api (Tm m) 0xBEEF (zero_rule\<lparr>Action := ActionDrop, RatePPS := 5,
      QuarantineThreshold := 3, QuarantineSeconds := 30\<rparr>) k1 = (r2, k2)" by fastforce
  obtain r3 k3 where 3: "UeipMap_Put api (Um m) (ParseIP ''10.45.0.99'')
      (zero_rule\<lparr>Action := ActionDrop, RatePPS := 10\<rparr>) k2 = (r3, k3)" by fastforce
  have ok: "rule_ok (zero_rule\<lparr>Action := ActionDrop\<rparr>)"
    "rule_ok (zero_rule\<lparr>Action := ActionDrop, RatePPS := 5, QuarantineThreshold := 3, QuarantineSeconds := 30\<rparr>)"
    "rule_ok (zero_rule\<lparr>Action := ActionDrop, RatePPS := 10\<rparr>)"
    by (simp_all add: rule_ok_def zero_rule_def)
  note t1 = put_typed(1) [OF assms(1,2) ok(1) 1]
  then have o1: "maps_typed (pinned k1) (entries k1)" "opened (pinned k1) m" using assms(2) by simp_all
  note t2 = put_typed(1) [OF o1 ok(2) 2]
  then have o2: "maps_typed (pinned k2) (entries k2)" "opened (pinned k2) m" using o1(2) by simp_all
  note t3 = put_typed(2) [OF o2 ok(3) 3 default_ip]
  have "k' \<in> {k1, k2, k3}"
    using assms(3) 1 2 3 by (auto simp: addDefaultRules_def andThen_def split: sum.splits prod.splits)
  then show ?thesis using t1 t2 t3 by auto
qed

lemma form_submit_typed:
  assumes "maps_typed (pinned k) (entries k)" and "opened (pinned k) m"
    and "form_submit lib host api (Tm m) (Um m) f k = Some (f', c, k')"
  shows "pinned k' = pinned k \<and> maps_typed (pinned k) (entries k')"
proof (cases "\<exists>key rule. buildRule lib host f = Some (Inr (key, rule))")
  case True
  then obtain key rule where b: "buildRule lib host f = Some (Inr (key, rule))" by blast
  have ok: "rule_ok rule" using buildRule_Inr(3) [OF b] form_rule_ok by blast
  obtain r k1 where p: "(if Target f = ''teid'' then TeidMap_Put api (Tm m) key rule k
      else UeipMap_Put api (Um m) (Uint32ToIP key) rule k) = (r, k1)" by fastforce
  then have "k' = k1" using assms(3) b by (cases r) (auto simp: form_submit_def)
  then show ?thesis
    using p put_typed(1) [OF assms(1,2) ok] put_typed(2) [OF assms(1,2) ok _ ipKey_Uint32ToIP]
    by (auto split: if_splits)
next
  case False
  then have "k' = k" using assms(3) by (auto simp: form_submit_def split: option.splits sum.splits)
  then show ?thesis using assms(1) by simp
qed

end

context dashboard_system
begin

lemma Update_typed:
  assumes "Update env now ktime msg m k = Some (m', c, k')"
    and "maps_typed (pinned k) (entries k)" and "opened (pinned k) m"
  shows "pinned k' = pinned k \<and> maps_typed (pinned k) (entries k')"
proof (cases "k' = k")
  case True
  then show ?thesis using assms(2) by simp
next
  case False
  then obtain key where key: "msg = KeyMsg key"
    using assms(1) background_update [of env now ktime msg m k m' c k'] by blast
  show ?thesis
  proof (cases "Mode m")
    case modeForm
    then have "updateForm env key m k = Some (m', c, k')" using assms(1) key by (simp add: Update_def)
    then obtain f f' where "form_key (Lib env) (Host env) (Api env) (Tm m) (Um m) key f k = Some (f', c, k')"
      using False by (auto simp: updateForm_def split: option.splits if_splits)
    then have "form_submit (Lib env) (Host env) (Api env) (Tm m) (Um m) f k = Some (f', c, k')"
      using False by (auto simp: form_key_def Let_def split: if_splits)
    from form_submit_typed [OF assms(2,3) this] show ?thesis .
  next
    case modeConfirmDelete
    then have u: "updateConfirmDelete env key m k = Some (m', c, k')" using assms(1) key by (simp add: Update_def)
    then obtain r where r: "(if ConfirmTarget m = ''teid'' then TeidMap_Delete (Api env) (Tm m) (ConfirmKey m) k
        else UeipMap_Delete (Api env) (Um m) (Uint32ToIP (ConfirmKey m)) k) = (r, k')"
      using False by (auto simp: updateConfirmDelete_def Let_def split: if_splits prod.splits sum.splits)
    have "pinned k' = pinned k" using r delete_pins by (auto split: if_splits)
    moreover have "maps_typed (pinned k) (cell_set (entries k) f x None)" if "f = Tm m \<or> f = Um m" for f x
      by (rule typed_cell [OF assms(2,3) that]) simp
    ultimately show ?thesis
      using confirm_entries [OF u] assms(2) by auto
  next
    case modeView
    then have u: "updateView env now ktime key m k = Some (m', c, k')" using assms(1) key by (simp add: Update_def)
    show ?thesis
    proof (cases "KeyString (Lib env) key = ''t''")
      case True
      obtain r k1 where r: "addDefaultRules (Api env) m k = (r, k1)" by fastforce
      then have "k' = k1" using u True by (cases r) (auto simp: updateView_def)
      then show ?thesis using default_rules_typed [OF assms(2,3) r] by simp
    next
      case no: False
      then have "k' = stopPingSync env (PingTarget m) k"
        using u False
        by (auto simp: updateView_def open_form_def Let_def split: if_splits option.splits prod.splits)
      then show ?thesis using pkill_maps pkill_pins assms(2) by (simp add: stopPingSync_def)
    qed
  next
    case modeHelp
    then show ?thesis using assms(1) key False by (simp add: Update_def)
  qed
qed

end

section \<open>The whole system\<close>

text \<open>
  A step of the system: a command of any user with any arguments runs to its end; a frame is handled
  by the program over the pinned maps; a handler of a dashboard runs. (The commands a dashboard starts
  read the maps, run a program and write a file.)
\<close>

inductive system_step ::
  "cobra \<Rightarrow> 'k cli_host \<Rightarrow> ('k \<Rightarrow> sysview) \<Rightarrow> ('t, 'e, 'c, 'k) tui_env \<Rightarrow> 'k \<Rightarrow> 'k \<Rightarrow> bool"
  for cb h view env where
  cli: "rootCmd_Execute cb (h\<lparr>Getuid := uid, ClockGettime := t\<rparr>) evs args k = (r, k') \<Longrightarrow>
    parsed_command cb args \<noteq> Some DashboardCmd \<Longrightarrow> system_step cb h view env k k'"
| frame: "all_pinned (map_pins (view k)) \<Longrightarrow>
    xdp_gtp_router adj now p (plane (VEntries (view k)) (map_pins (view k)) stats) = Some (v, q, st) \<Longrightarrow>
    view k' = (view k)\<lparr>VEntries := write_back (map_pins (view k)) st (VEntries (view k))\<rparr> \<Longrightarrow>
    system_step cb h view env k k'"
| handler: "Update env now ktime msg m k = Some (m', c, k') \<Longrightarrow> opened (map_pins (view k)) m \<Longrightarrow>
    system_step cb h view env k k'"

lemma system_step_typed:
  assumes "bpf_fresh lapi view" and "KernelApi h = lapi"
    and "dashboard_system env (\<lambda>k. map_pins (view k)) (\<lambda>k. VEntries (view k))"
    and "system_step cb h view env k k'" and "sys_typed (view k)"
  shows "sys_typed (view k')"
  using assms(4)
proof cases
  case (cli t uid evs args r)
  let ?h = "h\<lparr>Getuid := uid, ClockGettime := t\<rparr>"
  from execute_runs [OF cli(1)] show ?thesis
  proof (elim disjE conjE exE)
    fix name given c
    assume p: "Parse cb registered args = Inr (Some (name, given))" "command_named name = Some c"
      and r: "RunE ?h evs c given k = (r, k')"
    then have "c \<noteq> DashboardCmd" using cli(2) by (auto simp: parsed_command_def)
    from bpf_fresh.RunE_typed [OF assms(1) _ this r assms(5)] show ?thesis using assms(2) by simp
  qed (use assms(5) in simp_all)
next
  case (frame adj now p stats v q st)
  have "maps_typed (map_pins (view k)) (write_back (map_pins (view k)) st (VEntries (view k)))"
    using write_back_typed [OF _ frame(1,2)] assms(5) by (simp add: sys_typed_def)
  then show ?thesis using frame(3) by (simp add: sys_typed_def map_pins_def [abs_def])
next
  case (handler now ktime msg m m' c)
  from dashboard_system.Update_typed [OF assms(3) handler(1) _ handler(2)] assms(5)
  show ?thesis by (simp add: sys_typed_def)
qed

lemma system_typed:
  assumes "bpf_fresh lapi view" and "KernelApi h = lapi"
    and "dashboard_system env (\<lambda>k. map_pins (view k)) (\<lambda>k. VEntries (view k))"
    and "(system_step cb h view env)\<^sup>*\<^sup>* k0 k" and "sys_typed (view k0)"
  shows "sys_typed (view k)"
  using assms(4) by (induction rule: rtranclp_induct)
    (auto intro: assms(5) system_step_typed [OF assms(1-3)])

lemma unpinned_typed: "(\<And>p m. VPins v p \<noteq> Some (MapObj m)) \<Longrightarrow> sys_typed v"
  by (auto simp: sys_typed_def maps_typed_def map_pins_Some)

lemma typed_all_pinned:
  assumes "sys_typed v" and "\<And>p. p \<in> set rule_pins \<Longrightarrow> map_pins v p \<noteq> None"
  shows "all_pinned (map_pins v)"
proof -
  have "inj_on (map_pins v) (set rule_pins)"
    using assms unfolding sys_typed_def maps_typed_def by (intro inj_onI) (metis not_None_eq)
  moreover have "distinct rule_pins" using pins_distinct by (simp add: rule_pins_def)
  ultimately show ?thesis using assms(2) by (auto simp: all_pinned_def distinct_map)
qed

section \<open>The reference system\<close>

interpretation rsf: bpf_fresh "ref_loader pinnable" ref_view for pinnable
proof (unfold_locales, goal_cases)
  case (1 spec k ob k' m x)
  then have "ref_load k = (Inr ob, k')" by (simp add: ref_loader_def)
  with 1(2) show ?case by (auto simp: ref_load_def Let_def ref_entries_def)
qed

definition sys_env :: "(ref_text, string, unit, ref_sys) tui_env" where
  "sys_env =
     \<lparr>Lib = ref_lib, Host = lab_host, Api = ref_maps, Styles = Styles lab_env,
      ErrText = (\<lambda>e. ''error''), FormatTime = (\<lambda>layout t. ''12:00:00''),
      Exec = (\<lambda>args k. (None, k)), WriteFile = (\<lambda>path s k. (None, k)), WriteStdout = (\<lambda>s k. k)\<rparr>"

interpretation sysd: dashboard_system sys_env "\<lambda>k. map_pins (ref_view k)" "\<lambda>k. VEntries (ref_view k)"
  by (intro dashboard_system.intro dashboard_system_axioms.intro dashboard_host.intro
      dashboard_host_axioms.intro)
    (use ref_maps_laws in \<open>simp_all add: sys_env_def\<close>)

text \<open>The kernel after \<open>gtp-ctrl load\<close> on the lab host.\<close>

lemma lab_loaded:
  obtains out k where "rootCmd_Execute ref_cobra (ref_host 0) [] load_args empty_sys = (Printed out, k)"
    and "sys_typed (ref_view empty_sys)" and "sys_typed (ref_view k)" and "all_pinned (map_pins (ref_view k))"
proof -
  obtain out k where r: "rootCmd_Execute ref_cobra (ref_host 0) [] load_args empty_sys = (Printed out, k)"
    and l: "load_RunE (ref_loader True) lab_ifaces ''veth-ran'' ''native'' ''eth0'' ''generic'' empty_sys = (Inr (), k)"
    using run_load_args by blast
  have e: "sys_typed (ref_view empty_sys)"
    by (rule unpinned_typed) (simp add: empty_sys_def)
  have k: "sys_typed (ref_view k)" by (rule rsf.load_RunE_typed [OF e l])
  have "all_pinned (map_pins (ref_view k))"
  proof (rule typed_all_pinned [OF k])
    fix p assume "p \<in> set rule_pins"
    then show "map_pins (ref_view k) p \<noteq> None"
      using rs.load_RunE_provides [OF ref_bpffs_works l]
      by (auto simp: map_pins_Some pin_list_def rule_pins_def)
  qed
  with r e k that show thesis by blast
qed

section \<open>Properties\<close>

text \<open>C3: the maps stay well typed: from a system in which no map is pinned, whatever commands run (by
  whoever, with whatever arguments, succeeding or failing half-way), whatever frames the program
  handles and whatever keys are pressed in a dashboard, the rule maps behind the pins hold only rules
  that pass \<open>ValidateRule\<close>, \<open>tx_port\<close> maps each interface to itself, and no two pins share a map.\<close>
theorem maps_stay_typed:
  assumes "bpf_fresh lapi view" and "KernelApi h = lapi"
    and "dashboard_system env (\<lambda>k. map_pins (view k)) (\<lambda>k. VEntries (view k))"
    and "\<forall>p m. VPins (view k0) p \<noteq> Some (MapObj m)"
    and "(system_step cb h view env)\<^sup>*\<^sup>* k0 k"
  shows "(\<forall>p \<in> {PinTeidMap, PinUeipMap, PinNatMap}. \<forall>m x v. map_pins (view k) p = Some m \<longrightarrow>
      VEntries (view k) m x = Some v \<longrightarrow> (\<exists>rule. v = RuleV rule \<and> ValidateRule rule = Inr ()))
    \<and> (\<forall>m x v. map_pins (view k) PinTxPort = Some m \<longrightarrow> VEntries (view k) m x = Some v \<longrightarrow> v = PortV x)
    \<and> (\<forall>p \<in> set rule_pins. \<forall>q \<in> set rule_pins. \<forall>m.
        map_pins (view k) p = Some m \<longrightarrow> map_pins (view k) q = Some m \<longrightarrow> p = q)"
proof -
  have "sys_typed (view k0)" using assms(4) by (intro unpinned_typed) simp
  from system_typed [OF assms(1-3,5) this] have "maps_typed (map_pins (view k)) (VEntries (view k))"
    by (simp add: sys_typed_def)
  then show ?thesis
    unfolding maps_typed_def rule_cells_ok_def port_cells_ok_def ValidateRule_iff by blast
qed

lemma maps_stay_typed_witness:
  "\<exists>k m. map_pins (ref_view k) PinTeidMap = Some m \<and> (system_step ref_cobra (ref_host 0) ref_view sys_env)\<^sup>*\<^sup>* empty_sys k
     \<and> (\<forall>x v. VEntries (ref_view k) m x = Some v \<longrightarrow> (\<exists>rule. v = RuleV rule \<and> ValidateRule rule = Inr ()))"
proof -
  obtain out k where r: "rootCmd_Execute ref_cobra (ref_host 0) [] load_args empty_sys = (Printed out, k)"
    and p: "all_pinned (map_pins (ref_view k))" by (rule lab_loaded)
  have c: "command_named ''load'' = Some LoadCmd" using command_named_Use [of LoadCmd] by simp
  have "(ref_host 0)\<lparr>Getuid := 0, ClockGettime := Inr (5, 0)\<rparr> = ref_host 0" by (simp add: ref_host_def)
  with r have "system_step ref_cobra (ref_host 0) ref_view sys_env empty_sys k"
    by (intro system_step.cli [where uid = 0 and t = "Inr (5, 0)" and evs = "[]" and args = load_args])
      (simp_all add: parsed_command_def parse_load_args c)
  then have s: "(system_step ref_cobra (ref_host 0) ref_view sys_env)\<^sup>*\<^sup>* empty_sys k" by simp
  obtain m where m: "map_pins (ref_view k) PinTeidMap = Some m" using p by (auto simp: all_pinned_def rule_pins_def)
  have h: "KernelApi (ref_host 0) = ref_loader True" "\<forall>p m. VPins (ref_view empty_sys) p \<noteq> Some (MapObj m)"
    by (simp_all add: ref_host_def empty_sys_def)
  have "\<forall>x v. VEntries (ref_view k) m x = Some v \<longrightarrow> (\<exists>rule. v = RuleV rule \<and> ValidateRule rule = Inr ())"
    using maps_stay_typed [OF rsf.bpf_fresh_axioms h(1) sysd.dashboard_system_axioms h(2) s,
        THEN conjunct1] m by simp
  with m s show ?thesis by blast
qed

text \<open>A session of rule commands, of listings and of counter readings acts on the three rule tables and on
  the set of provisioned interfaces exactly as the insertions and deletions its command lines ask for: an
  invocation that succeeds carries out all of its writes in order, a failed one a prefix of them.\<close>
theorem session_refines_tables:
  assumes "bpf_system lapi view" and "KernelApi h = lapi" and "map_commands cb session"
    and "all_pinned (map_pins (view k))" and "run_session cb h session k = (rs, k')"
  shows "\<exists>wss. length wss = length session \<and> map_pins (view k') = map_pins (view k)
    \<and> tables_of (map_pins (view k)) (VEntries (view k')) =
        fold apply_write (concat wss) (tables_of (map_pins (view k)) (VEntries (view k)))
    \<and> (\<forall>(args, r, ws) \<in> set (zip session (zip rs wss)).
        (\<exists>n. ws = take n (asked cb h args)) \<and> (failed r \<or> ws = asked cb h args))"
  using assms by (rule bpf_system.session_wrote)

definition lab_session :: "string list list" where
  "lab_session = [[''add-teid'', ''--teid'', ''0xDEAD'', ''--action'', ''drop''], [''list''],
     [''del-teid'', ''--teid'', ''0xDEAD'']]"

lemma lab_session_map_commands: "map_commands ref_cobra lab_session"
proof -
  have "map (parsed_command ref_cobra) lab_session = [Some AddTeidCmd, Some ListCmd, Some DelTeidCmd]"
    by code_simp
  then show ?thesis by (auto simp: map_commands_def map_command_def lab_session_def)
qed

lemma session_refines_tables_witness:
  "\<exists>k rs k' wss. all_pinned (map_pins (ref_view k))
     \<and> run_session ref_cobra (ref_host 0) lab_session k = (rs, k') \<and> length wss = 3
     \<and> tables_of (map_pins (ref_view k)) (VEntries (ref_view k')) =
        fold apply_write (concat wss) (tables_of (map_pins (ref_view k)) (VEntries (ref_view k)))"
proof -
  obtain out k where "rootCmd_Execute ref_cobra (ref_host 0) [] load_args empty_sys = (Printed out, k)"
    and p: "all_pinned (map_pins (ref_view k))" by (rule lab_loaded)
  obtain rs k' where r: "run_session ref_cobra (ref_host 0) lab_session k = (rs, k')" by fastforce
  have h: "KernelApi (ref_host 0) = ref_loader True" by (simp add: ref_host_def)
  have "length lab_session = 3" by (simp add: lab_session_def)
  with session_refines_tables [OF rs.bpf_system_axioms h lab_session_map_commands p r] p r
  show ?thesis by auto
qed

end
