(* ===== verification/EndToEnd.thy ===== *)
theory EndToEnd
  imports TypedSystem
begin

text \<open>
  From \<open>gtp-ctrl load\<close> to the frames: the tables a load leaves, the XDP program after a session of
  commands as a function of the tables, the downlink path of a subscriber on a freshly loaded
  router, and what is left to do after an unload.
\<close>

section \<open>The tables after a load\<close>

text \<open>No rules, and the interfaces \<open>is\<close> provisioned.\<close>

definition loaded_tables :: "int list \<Rightarrow> rule_tables" where
  "loaded_tables is = \<lparr>TTeid = (\<lambda>_. None), TUeip = (\<lambda>_. None), TNat = (\<lambda>_. None),
     TPorts = word_of_int ` set is\<rparr>"

text \<open>The interfaces named on the command line of \<open>load\<close>.\<close>

definition load_ports :: "interfaces \<Rightarrow> string \<Rightarrow> string \<Rightarrow> int list \<Rightarrow> bool" where
  "load_ports ifaces up dl is \<longleftrightarrow> (\<exists>i. ifaces up = Inr i
     \<and> (dl = [] \<and> is = [i] \<or> dl \<noteq> [] \<and> (\<exists>j. ifaces dl = Inr j \<and> is = [i, j])))"

lemma port_cells_eq:
  "port_cells ob is E m x =
     (if m = TxFd ob \<and> x \<in> word_of_int ` set is then Some (PortV x) else E m x)"
  unfolding port_cells_def by (induction "is" arbitrary: E) (auto simp: cell_set_def)

context bpf_fresh
begin

lemma load_leaves_tables:
  assumes "bpffs_works lapi view" and "load_RunE lapi ifaces up mode dl dlmode k = (Inr (), k')"
  shows "\<exists>is. load_ports ifaces up dl is \<and> all_pinned (map_pins (view k')) \<and> sys_typed (view k')
    \<and> tables_of (map_pins (view k')) (VEntries (view k')) = loaded_tables is"
proof -
  obtain i ob k1 "is" where i: "ifaces up = Inr i" and o: "LoadGtpXdpObjects lapi k = (Inr ob, k1)"
    and v: "VEntries (view k') = port_cells ob is (VEntries (view k1))"
    and ports: "dl = [] \<and> is = [i] \<or> dl \<noteq> [] \<and> (\<exists>j. ifaces dl = Inr j \<and> is = [i, j])"
    and pins: "\<forall>(p, m) \<in> set (pin_list ob). VPins (view k') p = Some (MapObj m)"
    using load_RunE_provides [OF assms] by blast
  have d: "distinct [NatFd ob, StatsFd ob, TeidFd ob, TxFd ob, UeipFd ob]"
    using load_objects(1) [OF o] by (simp add: fresh_objs_def)
  obtain spec where l: "LoadAndAssign lapi spec k = (Inr ob, k1)"
    using o by (auto simp: LoadGtpXdpObjects_def split: sum.splits)
  note empty = new_maps_empty [OF l]
  have ps: "map_pins (view k') PinTeidMap = Some (TeidFd ob)"
    "map_pins (view k') PinUeipMap = Some (UeipFd ob)"
    "map_pins (view k') PinNatMap = Some (NatFd ob)"
    "map_pins (view k') PinTxPort = Some (TxFd ob)"
    using pins by (simp_all add: map_pins_Some pin_list_def)
  have cells: "VEntries (view k') (TeidFd ob) x = None" "VEntries (view k') (UeipFd ob) x = None"
    "VEntries (view k') (NatFd ob) x = None"
    "VEntries (view k') (TxFd ob) x = (if x \<in> word_of_int ` set is then Some (PortV x) else None)" for x
    using d empty by (auto simp: v port_cells_eq)
  have "all_pinned (map_pins (view k'))"
    using ps d by (auto simp: all_pinned_def rule_pins_def)
  moreover have "sys_typed (view k')"
    using ps cells d
    by (auto simp: sys_typed_def maps_typed_def rule_pins_def rule_cells_ok_def port_cells_ok_def
        split: if_splits)
  moreover have "tables_of (map_pins (view k')) (VEntries (view k')) = loaded_tables is"
    using ps cells by (auto simp: tables_of_def loaded_tables_def rule_of_def split: if_splits)
  moreover have "load_ports ifaces up dl is" using i ports by (simp add: load_ports_def)
  ultimately show ?thesis by blast
qed

lemma execute_typed:
  assumes "KernelApi h = lapi" and "\<forall>c. parsed_command cb args = Some c \<longrightarrow> map_command c"
    and "rootCmd_Execute cb h evs args k = (r, k')" and "sys_typed (view k)"
  shows "sys_typed (view k')"
  by (rule wrote_typed [OF execute_wrote [OF assms(1-3)] assms(4)])
    (auto simp: asked_def split: sum.splits option.splits dest: writes_of_ok [rule_format])

lemma session_typed:
  assumes "KernelApi h = lapi" and "map_commands cb session" and "sys_typed (view k)"
    and "run_session cb h session k = (rs, k')"
  shows "sys_typed (view k')"
  using assms(2-4)
proof (induction session arbitrary: k rs)
  case (Cons args session)
  obtain r k1 where x: "rootCmd_Execute cb h [] args k = (r, k1)" by fastforce
  have "\<forall>c. parsed_command cb args = Some c \<longrightarrow> map_command c" and rest: "map_commands cb session"
    using Cons.prems(1) by (auto simp: map_commands_def)
  from execute_typed [OF assms(1) this(1) x Cons.prems(2)] Cons.IH [OF rest] Cons.prems(3) x
  show ?case by (auto split: prod.splits)
qed simp

end

section \<open>The program over the tables\<close>

definition plane_of_tables :: "rule_tables \<Rightarrow> (u32 \<Rightarrow> (u64 \<times> u64) option) \<Rightarrow> dp_state" where
  "plane_of_tables t stats =
     \<lparr>teid_map = TTeid t, ueip_map = TUeip t, nat_map = TNat t,
      tx_port = (\<lambda>i. if i \<in> TPorts t then Some i else None), stats_map = stats\<rparr>"

lemma plane_tables:
  assumes "sys_typed v" and "all_pinned (map_pins v)"
  shows "plane (VEntries v) (map_pins v) stats = plane_of_tables (tables_of (map_pins v) (VEntries v)) stats"
proof -
  obtain m where "map_pins v PinTxPort = Some m" using assms(2) by (auto simp: all_pinned_def rule_pins_def)
  then have "port_of (VEntries v m x) = (if VEntries v m x \<noteq> None then Some x else None)"
    and "the (map_pins v PinTxPort) = m" for x
    using assms(1) by (cases "VEntries v m x"; force simp: sys_typed_def maps_typed_def port_cells_ok_def port_of_def)+
  then show ?thesis by (simp add: plane_def plane_of_tables_def tables_of_def)
qed

lemma plane_after_writes:
  assumes "all_pinned (map_pins v)" and "sys_typed v"
    and "map_pins v' = map_pins v" and "VEntries v' = fold (write_map (map_pins v)) ws (VEntries v)"
    and "\<forall>w \<in> set ws. write_ok w"
  shows "plane (VEntries v') (map_pins v') stats =
    plane_of_tables (fold apply_write ws (tables_of (map_pins v) (VEntries v))) stats"
proof -
  have "pin_of w \<in> set rule_pins" for w by (cases w) (simp_all add: rule_pins_def)
  then have "written (map_pins v) ws (VEntries v) (VEntries v')"
    using assms(1,4) by (auto simp: written_def all_pinned_def)
  from maps_typed_written [OF this _ assms(5)] have "sys_typed v'"
    using assms(2,3) by (simp add: sys_typed_def)
  from plane_tables [OF this] assms(1,3,4) show ?thesis by (simp add: tables_of_writes)
qed

section \<open>The egress interface of a command\<close>

lemma forward_flags_egress:
  assumes "forward_flags ifaces oif dm sm dip sip rule = Inr r" and "oif \<noteq> []"
  shows "\<exists>i. ifaces oif = Inr i \<and> OutIfindex r = word_of_int i"
proof -
  obtain r1 r2 r3 r4 where s: "opt_flag oif (egress_flag ifaces) rule = Inr r1"
    "opt_flag dm (mac_flag ''--dmac'' (\<lambda>m r. r\<lparr>DMac := m\<rparr>)) r1 = Inr r2"
    "opt_flag sm (mac_flag ''--smac'' (\<lambda>m r. r\<lparr>SMac := m\<rparr>)) r2 = Inr r3"
    "opt_flag dip (ip_flag ''--dst-ip'' (\<lambda>n r. r\<lparr>DstIP := n\<rparr>)) r3 = Inr r4"
    "opt_flag sip (ip_flag ''--src-ip'' (\<lambda>n r. r\<lparr>SrcIP := n\<rparr>)) r4 = Inr r"
    using assms(1) by (simp only: forward_flags_def check_eq_Inr) blast
  have "OutIfindex r = OutIfindex r1"
    using flag_frame(2) [OF s(2)] flag_frame(3) [OF s(3)] flag_frame(4) [OF s(4)] flag_frame(5) [OF s(5)]
    by force
  moreover have "\<exists>i. ifaces oif = Inr i \<and> OutIfindex r1 = word_of_int i"
    using s(1) assms(2) by (auto simp: flag_Inr)
  ultimately show ?thesis by simp
qed

lemma add_ueip_egress:
  assumes "add_ueip_build ifaces f = Inr (ip, rule)" and "addUeipOutIface f \<noteq> []"
  shows "\<exists>i. ifaces (addUeipOutIface f) = Inr i \<and> OutIfindex rule = word_of_int i"
  using assms unfolding add_ueip_build_def
  by (elim check_InrE) (drule forward_flags_egress, auto)

lemma loaded_port:
  assumes "load_ports ifaces up dl is" and "oif = up \<or> oif = dl \<and> dl \<noteq> []" and "ifaces oif = Inr i"
  shows "word_of_int i \<in> TPorts (loaded_tables is)"
  using assms by (auto simp: load_ports_def loaded_tables_def)

lemma load_RunE_named: "load_RunE lapi ifaces up mode dl dlmode k = (Inr (), k') \<Longrightarrow> up \<noteq> []"
  by (auto simp: load_RunE_def)

section \<open>Encapsulation and translation of a frame\<close>

lemma encap_with_fits:
  assumes "xdp_head adj" and "34 \<le> length p" and "adj (- int n) p \<noteq> None"
    and "\<And>tot. length (headers tot) = 14 + n"
  shows "encap_with n headers adj p = Some (True, headers (be16 (p ! 16) (p ! 17)) @ drop 14 p)"
proof -
  obtain r fresh where r: "adj (- int n) p = Some r" "length fresh = n" "r = fresh @ p"
    using assms(3) xdp_head.grow [OF assms(1)] by blast
  then have "drop (14 + n) r = drop 14 p" by simp
  then show ?thesis
    using assms(2,4) r by (simp add: encap_with_def load16_def store_def)
qed

lemma encap_fits:
  "xdp_head adj \<Longrightarrow> 34 \<le> length p \<Longrightarrow> adj (- int ENCAP_OVERHEAD) p \<noteq> None \<Longrightarrow>
     encap_gtpu adj rule p = Some (True, encap_headers rule (be16 (p ! 16) (p ! 17)) @ drop 14 p)"
  "xdp_head adj \<Longrightarrow> 34 \<le> length p \<Longrightarrow> adj (- int ENCAP_5G_OVERHEAD) p \<noteq> None \<Longrightarrow>
     encap_gtpu_5g adj rule p = Some (True, encap_5g_headers rule (be16 (p ! 16) (p ! 17)) @ drop 14 p)"
  unfolding encap_gtpu_def encap_gtpu_5g_def by (rule encap_with_fits; simp)+

lemma classify_Downlink: "classify p = Downlink d \<Longrightarrow> 34 \<le> length p"
  by (auto simp: classify_def Let_def split: if_splits)

lemma nat_rewrite_address:
  assumes "nat_rewrite field p old new = Some (True, q)" and f: "field = 12 \<or> field = 16"
  shows "34 \<le> length q \<and> region (14 + field) 4 q = put_be32 new"
proof -
  obtain p1 p2 where s: "34 \<le> length p" "20 \<le> unat (p ! 14 AND 0xf) * 4"
    "store p (14 + field) (put_be32 new) = Some p1"
    "update_check p1 24 old new = Some p2" "length p2 = length p"
    "rewrite_l4 p2 (unat (p ! 14 AND 0xf) * 4) old new = Some (True, q)" "length q = length p"
    using assms by (rule nat_rewrite_steps)
  have "region (14 + field) 4 p1 = put_be32 new"
    using region_store_in [of p "14 + field" 0 "put_be32 new" p1 4] s(1,3) f by (auto simp: region_length)
  moreover have "region (14 + field) 4 p2 = region (14 + field) 4 p1"
    using update_check_out [OF s(4)] f by auto
  moreover have "region (14 + field) 4 q = region (14 + field) 4 p2"
    using rewrite_l4_result [OF s(6)] s(1,2,5) f
    by (auto split: option.splits dest!: update_check_if_set_out [where off = "14 + field" and n = 4])
  ultimately show ?thesis using s(1,7) by simp
qed

section \<open>Without a load\<close>

context bpf_maps
begin

lemma unpinned_fails:
  assumes "pinned k p = None"
  shows "\<exists>e. with_map api (open_pinned api p label) body k = (Inl e, k)"
  using assms load_pinned [of p k]
  by (cases "LoadPinnedMap api p k") (auto simp: with_map_def andThen_def open_pinned_def)

text \<open>Each of these commands opens a map first, if it accepts its flags; the dashboard does, too.\<close>

lemma unpinned_command_fails:
  assumes "\<forall>p \<in> set rule_pins. pinned k p = None"
  shows "\<exists>e. add_teid_RunE api ifaces tf k = (Inl e, k)" "\<exists>e. add_ueip_RunE api ifaces uf k = (Inl e, k)"
    "\<exists>e. add_nat_RunE api ifaces nf k = (Inl e, k)" "\<exists>e. del_teid_RunE api teid k = (Inl e, k)"
    "\<exists>e. del_ueip_RunE api ip k = (Inl e, k)" "\<exists>e. del_nat_RunE api ip k = (Inl e, k)"
    "\<exists>e. list_RunE api now k = (Inl e, k)" "\<exists>e. Run api getenv program d k = (Inl e, k)"
proof -
  have p: "pinned k PinTeidMap = None" "pinned k PinUeipMap = None" "pinned k PinNatMap = None"
    using assms by (simp_all add: rule_pins_def)
  note f = p [THEN unpinned_fails]
  show "\<exists>e. add_teid_RunE api ifaces tf k = (Inl e, k)"
    using f(1) by (auto simp: add_teid_RunE_def OpenTeidMap_def split: sum.splits)
  show "\<exists>e. add_ueip_RunE api ifaces uf k = (Inl e, k)"
    using f(2) by (auto simp: add_ueip_RunE_def OpenUeipMap_def split: sum.splits)
  show "\<exists>e. add_nat_RunE api ifaces nf k = (Inl e, k)"
    using f(3) by (auto simp: add_nat_RunE_def OpenNatMap_def split: sum.splits)
  show "\<exists>e. del_teid_RunE api teid k = (Inl e, k)"
    using f(1) by (auto simp: del_teid_RunE_def OpenTeidMap_def split: sum.splits)
  show "\<exists>e. del_ueip_RunE api ip k = (Inl e, k)"
    using f(2) by (auto simp: del_ueip_RunE_def OpenUeipMap_def)
  show "\<exists>e. del_nat_RunE api ip k = (Inl e, k)"
    using f(3) by (auto simp: del_nat_RunE_def OpenNatMap_def)
  show "\<exists>e. list_RunE api now k = (Inl e, k)"
    using f(1) by (simp add: list_RunE_def OpenTeidMap_def)
  show "\<exists>e. Run api getenv program d k = (Inl e, k)"
    using p(1) load_pinned [of PinTeidMap k]
    by (cases "LoadPinnedMap api PinTeidMap k")
      (auto simp: Run_def Run_model_def OpenTeidMap_def open_pinned_def)
qed

end

lemma result_of_error: "result_of g x = (r, k') \<Longrightarrow> \<exists>e. x = (Inl e, k) \<Longrightarrow> k' = k \<and> failed r"
  by (auto simp: result_of_def failed_def)

context bpf_system
begin

lemma unload_pins:
  assumes "bpffs_works lapi view" and "unload_RunE lapi ifaces name k = (Inr (), k')" and "p \<in> set unload_paths"
  shows "VPins (view k') p = None"
  using assms(2,3) remove_all_view [OF assms(1), of unload_paths]
  by (auto simp: unload_RunE_def Unload_def split: if_splits sum.splits)

end

section \<open>Properties\<close>

text \<open>C2: what an operator configures after a load is what the XDP program runs on: after a successful
  \<open>gtp-ctrl load\<close> and any session of rule commands, the program sees the tables that start empty, with
  the loaded interfaces provisioned, and then take exactly the writes the command lines ask for.\<close>
theorem loaded_session_configures:
  assumes "bpf_fresh lapi view" and "bpffs_works lapi view" and "KernelApi h = lapi"
    and "load_RunE lapi ifaces up mode dl dlmode k0 = (Inr (), k)"
    and "map_commands cb session" and "run_session cb h session k = (rs, k')"
  shows "\<exists>is wss. load_ports ifaces up dl is \<and> length wss = length session
    \<and> plane (VEntries (view k')) (map_pins (view k')) stats =
        plane_of_tables (fold apply_write (concat wss) (loaded_tables is)) stats
    \<and> (\<forall>(args, r, ws) \<in> set (zip session (zip rs wss)).
        (\<exists>n. ws = take n (asked cb h args)) \<and> (failed r \<or> ws = asked cb h args))"
proof -
  obtain "is" where l: "load_ports ifaces up dl is" "all_pinned (map_pins (view k))" "sys_typed (view k)"
    "tables_of (map_pins (view k)) (VEntries (view k)) = loaded_tables is"
    using bpf_fresh.load_leaves_tables [OF assms(1,2,4)] by blast
  obtain wss where w: "length wss = length session" "map_pins (view k') = map_pins (view k)"
    "tables_of (map_pins (view k)) (VEntries (view k')) =
        fold apply_write (concat wss) (tables_of (map_pins (view k)) (VEntries (view k)))"
    "\<forall>(args, r, ws) \<in> set (zip session (zip rs wss)).
        (\<exists>n. ws = take n (asked cb h args)) \<and> (failed r \<or> ws = asked cb h args)"
    using bpf_system.session_wrote [OF bpf_fresh.axioms(1) [OF assms(1)] assms(3,5) l(2) assms(6)] by blast
  have "sys_typed (view k')" by (rule bpf_fresh.session_typed [OF assms(1,3,5) l(3) assms(6)])
  from plane_tables [OF this, of stats] l w show ?thesis by auto
qed

lemma loaded_session_configures_witness:
  "\<exists>k rs k' wss. load_RunE (ref_loader True) lab_ifaces ''veth-ran'' ''native'' ''eth0'' ''generic''
       empty_sys = (Inr (), k)
     \<and> run_session ref_cobra (ref_host 0) lab_session k = (rs, k') \<and> length wss = 3
     \<and> plane (VEntries (ref_view k')) (map_pins (ref_view k')) (\<lambda>_. None) =
        plane_of_tables (fold apply_write (concat wss) (loaded_tables [5, 2])) (\<lambda>_. None)"
proof -
  obtain k where l: "load_RunE (ref_loader True) lab_ifaces ''veth-ran'' ''native'' ''eth0'' ''generic''
      empty_sys = (Inr (), k)"
    using run_load_args by blast
  obtain rs k' where r: "run_session ref_cobra (ref_host 0) lab_session k = (rs, k')" by fastforce
  have h: "KernelApi (ref_host 0) = ref_loader True" by (simp add: ref_host_def)
  have "length lab_session = 3" by (simp add: lab_session_def)
  moreover have "is = [5, 2]" if "load_ports lab_ifaces ''veth-ran'' ''eth0'' is" for "is"
    using that by (simp add: load_ports_def lab_ifaces_def)
  ultimately show ?thesis
    using loaded_session_configures [OF rsf.bpf_fresh_axioms ref_bpffs_works h l
        lab_session_map_commands r, of "\<lambda>_. None"] l r by fastforce
qed

text \<open>C8: on a freshly loaded router a UE added with \<open>add-ueip --action encap\<close> without rate cap, whose
  egress interface is one of those loaded, is reachable: the next downlink frame for it leaves by that
  interface, behind the outer headers of the rule, when the kernel has room for these headers. (The
  positive case of \<open>added_ueip_is_aborted\<close>: \<open>load\<close> has provisioned the interface, which
  \<open>add-ueip\<close> does not.)\<close>
theorem loaded_ueip_reachable:
  assumes "bpf_fresh lapi view" and "bpffs_works lapi view" and "xdp_head adj"
    and load: "load_RunE lapi ifaces up mode dl dlmode k0 = (Inr (), k)"
    and run: "add_ueip_RunE (Maps lapi) ifaces f k = (Inr out, k')"
    and "ParseAction (addUeipAction f) = Inr ActionEncapFwd" and "addUeipRatePPS f = 0"
    and oif: "addUeipOutIface f = up \<or> addUeipOutIface f = dl \<and> dl \<noteq> []"
    and "ipKey (ParseIP (addUeipIP f)) = Inr ue" and "classify p = Downlink ue"
    and room: "adj (- int ENCAP_OVERHEAD) p \<noteq> None"
  shows "\<exists>rule index st'. add_ueip_build ifaces f = Inr (ParseIP (addUeipIP f), rule)
    \<and> ifaces (addUeipOutIface f) = Inr index
    \<and> xdp_gtp_router adj now p (plane (VEntries (view k')) (map_pins (view k')) stats) =
        Some (XDP_REDIRECT (word_of_int index),
          encap_headers rule (be16 (p ! 16) (p ! 17)) @ drop 14 p, st')"
proof -
  have maps: "bpf_maps (Maps lapi) (\<lambda>k. map_pins (view k)) (\<lambda>k. VEntries (view k))"
    using assms(1) by (intro bpf_system.axioms(1) bpf_fresh.axioms(1))
  obtain "is" where l: "load_ports ifaces up dl is" "all_pinned (map_pins (view k))" "sys_typed (view k)"
    "tables_of (map_pins (view k)) (VEntries (view k)) = loaded_tables is"
    using bpf_fresh.load_leaves_tables [OF assms(1,2) load] by blast
  obtain ip key rule m where b: "add_ueip_build ifaces f = Inr (ip, rule)"
    "ipKey ip = Inr key" "map_pins (view k) PinUeipMap = Some m"
    "VEntries (view k') = cell_set (VEntries (view k)) m key (Some (RuleV rule))"
    "map_pins (view k') = map_pins (view k)"
    by (rule bpf_maps.add_ueip_run [OF maps run])
  have ip: "ip = ParseIP (addUeipIP f)" and key: "key = ue" and ok: "rule_ok rule"
    using add_ueip_build_ok [OF b(1)] b(2) assms(9) by auto
  have act: "Action rule = ActionEncapFwd" and rate: "RatePPS rule = 0"
    using add_ueip_build_shape [OF b(1)] assms(6,7) by (auto simp: zero_rule_def)
  have "addUeipOutIface f \<noteq> []" using oif load_RunE_named [OF load] by auto
  then obtain i where i: "ifaces (addUeipOutIface f) = Inr i" "OutIfindex rule = word_of_int i"
    using add_ueip_egress [OF b(1)] by blast
  let ?st = "plane (VEntries (view k')) (map_pins (view k')) stats"
  have st: "?st = plane_of_tables (fold apply_write [PutUeip ue rule] (loaded_tables is)) stats"
    unfolding l(4) [symmetric]
    by (rule plane_after_writes [OF l(2,3) b(5)]) (use b(3,4) key ok in simp_all)
  have maps: "ueip_map ?st ue = Some rule" "nat_map ?st ue = None"
    "tx_port ?st (OutIfindex rule) = Some (OutIfindex rule)"
    using loaded_port [OF l(1) oif i(1)] i(2) by (simp_all add: st plane_of_tables_def loaded_tables_def)
  have e: "enforce_policy now rule = (False, rule)"
    using fresh_unlimited_admits build_fresh(2) [OF b(1)] rate by blast
  let ?q = "encap_headers rule (be16 (p ! 16) (p ! 17)) @ drop 14 p"
  have enc: "encap_gtpu adj rule p = Some (True, ?q)"
    using encap_fits(1) [OF assms(3) _ room] classify_Downlink [OF assms(10)] by blast
  have "xdp_gtp_router adj now p ?st =
      go_redirect (of_nat (length p)) (UeipSlot ue) rule ?q (map_write (UeipSlot ue) rule ?st)"
    by (simp add: router_dispatch assms(10) try_encap_def try_encap_ueip_def Let_def act maps e enc
        del: map_write.simps)
  moreover have "redirect_out ?st (OutIfindex rule) = XDP_REDIRECT (OutIfindex rule)"
    by (simp add: redirect_out_def maps)
  ultimately show ?thesis
    using b(1) ip i
    unfolding go_redirect_result by (auto simp del: map_write.simps)
qed

text \<open>The lab host, loaded and then configured.\<close>

lemmas configure_eval = load_eval with_map_def andThen_def OpenUeipMap_def OpenNatMap_def open_pinned_def
  UeipMap_Put_def NatMap_Put_def EnsureTxPort_def OpenTxPortMap_def
  Loader_Close_def close_link_def Objects_Close_def Programs_Close_def Maps_Close_def

lemma lab_load_ueip:
  "\<exists>k out k'. load_RunE (ref_loader True) lab_ifaces ''veth-ran'' ''native'' ''eth0'' ''generic'' empty_sys = (Inr (), k)
     \<and> add_ueip_RunE ref_maps lab_ifaces lab_ueip_flags k = (Inr out, k')"
  unfolding add_ueip_RunE_def lab_ueip_build sum.case prod.case
  by (simp add: configure_eval ipKey_def del: ref_kern_ops ref_maps_simps)

lemma lab_load_nat:
  "\<exists>k out k'. load_RunE (ref_loader True) lab_ifaces ''veth-ran'' ''native'' ''eth0'' ''generic'' empty_sys = (Inr (), k)
     \<and> add_nat_RunE ref_maps lab_ifaces lab_nat_flags k = (Inr out, k')"
  unfolding add_nat_RunE_def lab_nat_build sum.case prod.case
  by (simp add: configure_eval ipKey_def lab_nat_rule_def zero_rule_def del: ref_kern_ops ref_maps_simps)

lemma loaded_ueip_reachable_witness:
  "\<exists>k out k' st'. load_RunE (ref_loader True) lab_ifaces ''veth-ran'' ''native'' ''eth0'' ''generic''
       empty_sys = (Inr (), k)
     \<and> add_ueip_RunE ref_maps lab_ifaces lab_ueip_flags k = (Inr out, k')
     \<and> xdp_gtp_router (ref_adjust 256) 9 demo_ping
         (plane (VEntries (ref_view k')) (map_pins (ref_view k')) (\<lambda>_. Some (0, 0))) =
         Some (XDP_REDIRECT 5, encap_headers lab_ueip_rule (be16 (demo_ping ! 16) (demo_ping ! 17))
           @ drop 14 demo_ping, st')"
proof -
  obtain k out k' where r: "load_RunE (ref_loader True) lab_ifaces ''veth-ran'' ''native'' ''eth0'' ''generic''
      empty_sys = (Inr (), k)" "add_ueip_RunE (Maps (ref_loader True)) lab_ifaces lab_ueip_flags k = (Inr out, k')"
    "add_ueip_RunE ref_maps lab_ifaces lab_ueip_flags k = (Inr out, k')"
    using lab_load_ueip by (auto simp: ref_loader_def)
  have f: "ParseAction (addUeipAction lab_ueip_flags) = Inr ActionEncapFwd"
    "addUeipRatePPS lab_ueip_flags = 0" "addUeipOutIface lab_ueip_flags = ''veth-ran''
      \<or> addUeipOutIface lab_ueip_flags = ''eth0'' \<and> ''eth0'' \<noteq> []"
    by (simp_all add: lab_ueip_flags_def add_ueip_defaults_def ParseAction_def)
  have ue: "ipKey (ParseIP (addUeipIP lab_ueip_flags)) = Inr (be32 10 1 0 2)"
    by (simp add: lab_ueip_flags_def lab_parsed ipKey_def)
  have i: "lab_ifaces (addUeipOutIface lab_ueip_flags) = Inr 5"
    by (simp add: lab_ueip_flags_def lab_ifaces_def)
  have room: "ref_adjust 256 (- int ENCAP_OVERHEAD) demo_ping \<noteq> None"
    by (simp add: ref_adjust_def ENCAP_OVERHEAD_def)
  show ?thesis
    using loaded_ueip_reachable [OF rsf.bpf_fresh_axioms ref_bpffs_works ref_head.xdp_head_axioms r(1,2) f ue
      demo_ping_class room, of 9 "\<lambda>_. Some (0, 0)"] r(1,3) lab_ueip_build i by auto
qed

text \<open>C10: a UE behind NAT is reachable from outside: on a freshly loaded router, after a successful
  \<open>add-nat\<close>, every downlink frame for the public address whose addresses can be rewritten leaves by the
  egress interface of the command in a 5G tunnel with its TEID, its inner packet addressed to the UE.\<close>
theorem loaded_nat_reachable:
  assumes "bpf_fresh lapi view" and "bpffs_works lapi view" and "xdp_head adj"
    and load: "load_RunE lapi ifaces up mode dl dlmode k0 = (Inr (), k)"
    and run: "add_nat_RunE (Maps lapi) ifaces f k = (Inr out, k')"
    and "ipKey (ParseIP (addNatNatIP f)) = Inr pub" and "IPToUint32 (ParseIP (addNatUeIP f)) = Inr ue"
    and "classify p = Downlink pub" and rw: "nat_dst_rewrite p pub ue = Some (True, p')"
    and room: "adj (- int ENCAP_5G_OVERHEAD) p' \<noteq> None"
  shows "\<exists>rule q st'. add_nat_build ifaces f = Inr (ParseIP (addNatNatIP f), rule)
    \<and> xdp_gtp_router adj now p (plane (VEntries (view k')) (map_pins (view k')) stats) =
        Some (XDP_REDIRECT (OutIfindex rule), q, st')
    \<and> q = encap_5g_headers rule (be16 (p' ! 16) (p' ! 17)) @ drop 14 p'
    \<and> TeidOut rule = addNatTeidOut f \<and> region 74 4 q = put_be32 ue"
proof -
  have maps: "bpf_maps (Maps lapi) (\<lambda>k. map_pins (view k)) (\<lambda>k. VEntries (view k))"
    using assms(1) by (intro bpf_system.axioms(1) bpf_fresh.axioms(1))
  obtain "is" where l: "load_ports ifaces up dl is" "all_pinned (map_pins (view k))" "sys_typed (view k)"
    "tables_of (map_pins (view k)) (VEntries (view k)) = loaded_tables is"
    using bpf_fresh.load_leaves_tables [OF assms(1,2) load] by blast
  obtain ip key rule m where b: "add_nat_build ifaces f = Inr (ip, rule)" "ipKey ip = Inr key"
    "map_pins (view k) PinNatMap = Some m"
    "provisioned (map_pins (view k) PinTxPort) (OutIfindex rule)
       (cell_set (VEntries (view k)) m key (Some (RuleV rule))) (VEntries (view k'))"
    "map_pins (view k') = map_pins (view k)"
    by (rule bpf_maps.add_nat_run [OF maps run])
  note rule = add_nat_build_rule [OF b(1)]
  have ip: "ip = ParseIP (addNatNatIP f)" and key: "key = pub" and ok: "rule_ok rule"
    using add_nat_build_ok [OF b(1)] b(2) assms(6) by auto
  have ue: "NatIP rule = ue" using rule(2) assms(7) by simp
  have oif: "OutIfindex rule \<noteq> 0" using ok rule(1) by (auto simp: rule_ok_def deliverable_def)
  let ?st = "plane (VEntries (view k')) (map_pins (view k')) stats"
  have st: "?st = plane_of_tables (fold apply_write [PutNat pub rule, AddPort (OutIfindex rule)]
      (loaded_tables is)) stats"
    unfolding l(4) [symmetric]
    by (rule plane_after_writes [OF l(2,3) b(5)])
      (use b(3,4) key ok oif in \<open>auto simp: provisioned_def\<close>)
  have maps: "nat_map ?st pub = Some rule" "tx_port ?st (OutIfindex rule) = Some (OutIfindex rule)"
    by (simp_all add: st plane_of_tables_def)
  have e: "enforce_policy now rule = (False, rule)"
    using fresh_unlimited_admits build_fresh(3) [OF b(1)] rule(4) by blast
  let ?q = "encap_5g_headers rule (be16 (p' ! 16) (p' ! 17)) @ drop 14 p'"
  have p': "34 \<le> length p'" "region 30 4 p' = put_be32 ue"
    using nat_rewrite_address [of 16 p pub ue p'] rw by (auto simp: nat_dst_rewrite_def)
  have enc: "encap_gtpu_5g adj rule p' = Some (True, ?q)" by (rule encap_fits(2) [OF assms(3) p'(1) room])
  have "xdp_gtp_router adj now p ?st =
      go_redirect (of_nat (length p)) (NatSlot pub) rule ?q (map_write (NatSlot pub) rule ?st)"
    by (simp add: router_dispatch assms(8) try_encap_def Let_def rule(1) maps e rw ue enc
        del: map_write.simps)
  moreover have "redirect_out ?st (OutIfindex rule) = XDP_REDIRECT (OutIfindex rule)"
    by (simp add: redirect_out_def maps)
  moreover have "region 74 4 ?q = put_be32 ue"
    using p'(2) by (simp add: region_def ENCAP_5G_OVERHEAD_def)
  ultimately show ?thesis
    using b(1) ip rule(3) unfolding go_redirect_result by (auto simp del: map_write.simps)
qed

definition demo_reply :: frame where
  "demo_reply = replicate 12 0 @ [8, 0] @ [0x45, 0, 0, 28, 0, 0, 0, 0, 64, 17, 0, 0] @
     [8, 8, 8, 8] @ [203, 0, 113, 7] @ [0, 53, 0, 53, 0, 8, 0, 0]"

lemma demo_reply_facts:
  "classify demo_reply = Downlink (be32 203 0 113 7)"
  "map_option fst (nat_dst_rewrite demo_reply (be32 203 0 113 7) (be32 10 1 0 2)) = Some True"
  by code_simp+

lemma loaded_nat_reachable_witness:
  "\<exists>k out k' q st'. load_RunE (ref_loader True) lab_ifaces ''veth-ran'' ''native'' ''eth0'' ''generic''
       empty_sys = (Inr (), k)
     \<and> add_nat_RunE ref_maps lab_ifaces lab_nat_flags k = (Inr out, k')
     \<and> xdp_gtp_router (ref_adjust 256) 9 demo_reply
         (plane (VEntries (ref_view k')) (map_pins (ref_view k')) (\<lambda>_. Some (0, 0))) =
         Some (XDP_REDIRECT 5, q, st') \<and> region 74 4 q = [10, 1, 0, 2]"
proof -
  obtain k out k' where r: "load_RunE (ref_loader True) lab_ifaces ''veth-ran'' ''native'' ''eth0'' ''generic''
      empty_sys = (Inr (), k)" "add_nat_RunE (Maps (ref_loader True)) lab_ifaces lab_nat_flags k = (Inr out, k')"
    "add_nat_RunE ref_maps lab_ifaces lab_nat_flags k = (Inr out, k')"
    using lab_load_nat by (auto simp: ref_loader_def)
  have f: "ipKey (ParseIP (addNatNatIP lab_nat_flags)) = Inr (be32 203 0 113 7)"
    "IPToUint32 (ParseIP (addNatUeIP lab_nat_flags)) = Inr (be32 10 1 0 2)"
    by (simp_all add: lab_nat_flags_def lab_parsed ipKey_def)
  obtain p' where p': "nat_dst_rewrite demo_reply (be32 203 0 113 7) (be32 10 1 0 2) = Some (True, p')"
    using demo_reply_facts(2) by auto
  have room: "ref_adjust 256 (- int ENCAP_5G_OVERHEAD) p' \<noteq> None"
    by (simp add: ref_adjust_def ENCAP_5G_OVERHEAD_def)
  have "OutIfindex lab_nat_rule = 5" "put_be32 (be32 10 1 0 2) = [10, 1, 0, 2]"
    by (simp_all add: lab_nat_rule_def) code_simp
  then show ?thesis
    using loaded_nat_reachable [OF rsf.bpf_fresh_axioms ref_bpffs_works ref_head.xdp_head_axioms r(1,2) f
      demo_reply_facts(1) p' room, of 9 "\<lambda>_. Some (0, 0)"] r(1,3) lab_nat_build by auto
qed

text \<open>C40: after an unload the router is out of reach: whatever command runs then, other than \<open>load\<close> and
  \<open>unload\<close>, it changes nothing, and every one but \<open>stats\<close> (which may be waiting) fails with an error.\<close>
theorem unloaded_router_refuses:
  assumes "bpf_system lapi view" and "bpffs_works lapi view" and "KernelApi h = lapi"
    and "\<forall>d. TuiRun h d = Run (Maps lapi) getenv program d"
    and "unload_RunE lapi ifaces name k0 = (Inr (), k)"
    and "parsed_command cb args = Some c" and "c \<notin> {LoadCmd, UnloadCmd}"
    and "rootCmd_Execute cb h evs args k = (r, k')"
  shows "k' = k \<and> (c \<noteq> StatsCmd \<longrightarrow> failed r)"
proof -
  have maps: "bpf_maps (Maps lapi) (\<lambda>k. map_pins (view k)) (\<lambda>k. VEntries (view k))"
    by (rule bpf_system.axioms(1) [OF assms(1)])
  have "VPins (view k) p = None" if "p \<in> set rule_pins" for p
    using bpf_system.unload_pins [OF assms(1,2,5)] that by (auto simp: rule_pins_def unload_paths_def)
  then have "\<forall>p \<in> set rule_pins. map_pins (view k) p = None" by (simp add: map_pins_def)
  note fails = bpf_maps.unpinned_command_fails [OF maps this]
  obtain name given where p: "Parse cb registered args = Inr (Some (name, given))" "command_named name = Some c"
    using assms(6) by (auto simp: parsed_command_def split: sum.splits option.splits prod.splits)
  have "k' = k \<and> (c \<noteq> StatsCmd \<longrightarrow> failed r)" if "RunE h evs c given k = (r, k')"
    using that assms(4,7)
    by (cases c) (auto simp: RunE_def Let_def assms(3) dest!: result_of_error [OF _ fails(1)]
      result_of_error [OF _ fails(2)] result_of_error [OF _ fails(3)] result_of_error [OF _ fails(4)]
      result_of_error [OF _ fails(5)] result_of_error [OF _ fails(6)] result_of_error [OF _ fails(7)]
      result_of_error [OF _ fails(8)])
  then show ?thesis
    using execute_runs [OF assms(8)] p by auto
qed

lemma unloaded_router_refuses_witness:
  "\<exists>k r. unload_RunE (ref_loader True) lab_ifaces ''eth0'' empty_sys = (Inr (), k)
     \<and> rootCmd_Execute ref_cobra (ref_host 0\<lparr>TuiRun := Run ref_maps (\<lambda>x. []) (\<lambda>(m :: ref_text ui_model) k. (Inr (), k))\<rparr>) []
         [''list''] k = (r, k) \<and> failed r"
proof -
  let ?h = "ref_host 0\<lparr>TuiRun := Run ref_maps (\<lambda>x. []) (\<lambda>(m :: ref_text ui_model) k. (Inr (), k))\<rparr>"
  obtain k where u: "unload_RunE (ref_loader True) lab_ifaces ''eth0'' empty_sys = (Inr (), k)"
    by (simp add: unload_RunE_def Unload_def lab_ifaces_def)
  obtain r k' where r: "rootCmd_Execute ref_cobra ?h [] [''list''] k = (r, k')" by fastforce
  have h: "KernelApi ?h = ref_loader True"
    "\<forall>d. TuiRun ?h d = Run (Maps (ref_loader True)) (\<lambda>x. []) (\<lambda>(m :: ref_text ui_model) k. (Inr (), k)) d"
    by (simp_all add: ref_host_def ref_loader_def)
  have "parsed_command ref_cobra [''list''] = Some ListCmd" by code_simp
  from unloaded_router_refuses [OF rs.bpf_system_axioms ref_bpffs_works h u this _ r] u r
  show ?thesis by auto
qed

end
