(* ===== verification/NatPath.thy ===== *)
theory NatPath
  imports EndToEnd
begin

text \<open>
  A subscriber behind a public address: the uplink rule of \<open>add-teid --nat-ip\<close> and the downlink rule
  of \<open>add-nat\<close> together, over any run of frames.
\<close>

section \<open>What traffic cannot change\<close>

lemma same_config_trans: "same_config st st1 \<Longrightarrow> same_config st1 st2 \<Longrightarrow> same_config st st2"
  by (simp add: same_config_def)

lemma route_all_same_config: "route_all adj xs st = Some (vs, st') \<Longrightarrow> same_config st st'"
proof (induction xs arbitrary: st vs)
  case (Cons x xs)
  obtain now p where "x = (now, p)" by fastforce
  with Cons.prems obtain v q st1 ws where "xdp_gtp_router adj now p st = Some (v, q, st1)"
    and "route_all adj xs st1 = Some (ws, st')"
    by (auto simp: bind_eq_Some_conv)
  then show ?case using Cons.IH router_same_config same_config_trans by blast
qed simp

lemma route_all_total: "\<exists>vs st'. route_all adj xs st = Some (vs, st')"
proof (induction xs arbitrary: st)
  case (Cons x xs)
  obtain now p where "x = (now, p)" by fastforce
  moreover obtain v q st1 where "xdp_gtp_router adj now p st = Some (v, q, st1)"
    using safe_router [of adj now p st] by (auto simp: safe_def)
  ultimately show ?case using Cons.IH [of st1] by auto
qed simp

lemma same_config_rule:
  assumes "same_config st st'" and "map_lookup s st = Some r"
  obtains r' where "map_lookup s st' = Some r'" and "settings_of r' = settings_of r"
proof -
  have "map_option settings_of (map_lookup s st') = Some (settings_of r)"
    using assms by (simp add: same_config_def)
  then show thesis using that by auto
qed

section \<open>One frame\<close>

text \<open>A frame that leaves does so by the egress interface, rewritten; otherwise it is dropped.\<close>

definition leaves_as :: "u32 \<Rightarrow> (frame \<Rightarrow> bool) \<Rightarrow> outcome \<Rightarrow> bool" where
  "leaves_as oif P out \<longleftrightarrow> (\<forall>v q st. out = Some (v, q, st) \<longrightarrow>
     v = XDP_DROP \<or> v = XDP_REDIRECT oif \<and> P q)"

lemma leaves_as_rules:
  "(\<And>x. m = Some x \<Longrightarrow> leaves_as oif P (f x)) \<Longrightarrow> leaves_as oif P (m \<bind> f)"
  "(b \<Longrightarrow> leaves_as oif P r) \<Longrightarrow> (\<not> b \<Longrightarrow> leaves_as oif P s) \<Longrightarrow> leaves_as oif P (if b then r else s)"
  "(\<And>x y. pr = (x, y) \<Longrightarrow> leaves_as oif P (h x y)) \<Longrightarrow>
     leaves_as oif P (case pr of (x, y) \<Rightarrow> h x y)"
  "leaves_as oif P (go_drop n p st)"
  "leaves_as oif P (go_drop_counted n slot rule p st)"
  by (auto simp: leaves_as_def bind_eq_Some_conv go_drop_def go_drop_counted_def split: prod.splits)

lemma leaves_as_redirect:
  assumes "tx_port st (OutIfindex r) = Some (OutIfindex r)" and "P q"
  shows "leaves_as (OutIfindex r) P (go_redirect n s r q st)"
  using assms by (cases s) (simp_all add: leaves_as_def go_redirect_def Let_def redirect_out_def bump_stats_def
    split: option.splits)

text \<open>The uplink: behind \<open>decap_gtpu\<close> the source address is replaced.\<close>

lemma uplink_translated:
  assumes "classify p = Gpdu strip teid src dst" and "teid_map st teid = Some rule"
    and "Action rule = ActionDecapFwd" and "NatIP rule \<noteq> 0"
    and "tx_port st (OutIfindex rule) = Some (OutIfindex rule)"
  shows "leaves_as (OutIfindex rule) (\<lambda>q. region 26 4 q = put_be32 (NatIP rule)) (xdp_gtp_router adj now p st)"
proof -
  obtain d r1 where e: "enforce_policy now rule = (d, r1)" by fastforce
  note same = settings_fields [OF settings_enforce [OF e]]
  have f: "find_rule st teid dst = Some (TeidSlot teid, rule)"
    by (simp add: find_rule_def assms(2))
  have tx: "tx_port (map_write (TeidSlot teid) r1 st) (OutIfindex r1) = Some (OutIfindex r1)"
    using assms(5) same by simp
  have nat: "region 26 4 q = put_be32 (NatIP rule)" if "nat_src_rewrite p' src (NatIP rule) = Some (True, q)" for p' q
    using nat_rewrite_address [of 12 p' src "NatIP rule" q] that by (simp add: nat_src_rewrite_def)
  have act: "leaves_as (OutIfindex r1) (\<lambda>q. region 26 4 q = put_be32 (NatIP rule))
      (apply_action adj n strip src (TeidSlot teid) r1 p (map_write (TeidSlot teid) r1 st))" for n
    unfolding apply_action_def using assms(3,4) same
    by (intro leaves_as_rules leaves_as_redirect [OF tx]) (auto simp: nat)
  show ?thesis
    using act same
    by (simp add: router_dispatch assms(1) handle_gpdu_def f e Let_def leaves_as_rules del: map_write.simps)
qed

text \<open>The downlink: the destination is replaced before the frame is encapsulated.\<close>

lemma downlink_translated:
  assumes "xdp_head adj" and "classify p = Downlink pub" and "nat_map st pub = Some rule"
    and "Action rule = ActionEncapFwd" and "tx_port st (OutIfindex rule) = Some (OutIfindex rule)"
  shows "leaves_as (OutIfindex rule)
    (\<lambda>q. region 74 4 q = put_be32 (NatIP rule) \<and> region 46 4 q = put_be32 (TeidOut rule))
    (xdp_gtp_router adj now p st)"
proof -
  obtain d r1 where e: "enforce_policy now rule = (d, r1)" by fastforce
  note same = settings_fields [OF settings_enforce [OF e]]
  have tx: "tx_port (map_write (NatSlot pub) r1 st) (OutIfindex r1) = Some (OutIfindex r1)"
    using assms(5) same by simp
  have q: "region 74 4 q = put_be32 (NatIP rule) \<and> region 46 4 q = put_be32 (TeidOut rule)"
    if rw: "nat_dst_rewrite p pub (NatIP r1) = Some (True, p')" and enc: "encap_gtpu_5g adj r1 p' = Some (True, q)"
    for p' q
  proof -
    have "region 30 4 p' = put_be32 (NatIP rule)"
      using nat_rewrite_address [of 16 p pub "NatIP r1" p'] rw same by (simp add: nat_dst_rewrite_def)
    moreover obtain tot where "q = encap_5g_headers r1 tot @ drop 14 p'"
      using encap_result(2) [OF assms(1) enc] by blast
    ultimately show ?thesis
      using same by (simp add: region_def ENCAP_5G_OVERHEAD_def encap_5g_headers_def gtpu_header_def
        outer_ip_def outer_udp_def put_be32_def put_be16_def new_eth_def)
  qed
  have "leaves_as (OutIfindex r1)
      (\<lambda>q. region 74 4 q = put_be32 (NatIP rule) \<and> region 46 4 q = put_be32 (TeidOut rule))
      (try_encap adj now pub n p st)" for n
    unfolding try_encap_def Let_def using assms(3,4) e
    by (auto intro!: leaves_as_rules leaves_as_redirect [OF tx] dest: q simp del: map_write.simps)
  then show ?thesis using same by (simp add: router_dispatch assms(2))
qed

section \<open>Properties\<close>

lemma add_teid_nat:
  assumes "add_teid_build ifaces f = Inr (teid, rule)" and "addTeidNatIP f \<noteq> []"
  shows "IPToUint32 (ParseIP (addTeidNatIP f)) = Inr (NatIP rule)"
  using assms unfolding add_teid_build_def
  by (elim check_InrE) (auto simp: flag_Inr)

lemma ipKey_IPToUint32: "IPToUint32 ip = Inr x \<Longrightarrow> ipKey ip = Inr x"
  by (auto simp: IPToUint32_def ipKey_def split: list.splits)

text \<open>The tables after \<open>load\<close>, \<open>add-teid\<close> and \<open>add-nat\<close>.\<close>

definition nat_writes :: "u32 \<Rightarrow> fwd_rule \<Rightarrow> u32 \<Rightarrow> fwd_rule \<Rightarrow> map_write list" where
  "nat_writes teid up pub dn =
     [PutTeid teid up, AddPort (OutIfindex up), PutNat pub dn, AddPort (OutIfindex dn)]"

lemma nat_configured:
  assumes "bpf_fresh lapi view" and "bpffs_works lapi view"
    and "load_RunE lapi ifaces up mode dl dlmode k0 = (Inr (), k)"
    and run1: "add_teid_RunE (Maps lapi) ifaces f k = (Inr out1, k1)"
    and run2: "add_nat_RunE (Maps lapi) ifaces g k1 = (Inr out2, k2)"
    and "ParseAction (addTeidAction f) = Inr ActionDecapFwd"
  shows "\<exists>is teid r1 pub r2. add_teid_build ifaces f = Inr (teid, r1)
    \<and> add_nat_build ifaces g = Inr (ParseIP (addNatNatIP g), r2) \<and> ipKey (ParseIP (addNatNatIP g)) = Inr pub
    \<and> plane (VEntries (view k2)) (map_pins (view k2)) stats =
        plane_of_tables (fold apply_write (nat_writes teid r1 pub r2) (loaded_tables is)) stats"
proof -
  have maps: "bpf_maps (Maps lapi) (\<lambda>k. map_pins (view k)) (\<lambda>k. VEntries (view k))"
    using assms(1) by (intro bpf_system.axioms(1) bpf_fresh.axioms(1))
  obtain "is" where l: "all_pinned (map_pins (view k))" "sys_typed (view k)"
    "tables_of (map_pins (view k)) (VEntries (view k)) = loaded_tables is"
    using bpf_fresh.load_leaves_tables [OF assms(1-3)] by blast
  obtain teid r1 m where a: "add_teid_build ifaces f = Inr (teid, r1)" "map_pins (view k) PinTeidMap = Some m"
    "provisioned (map_pins (view k) PinTxPort) (OutIfindex r1)
       (cell_set (VEntries (view k)) m teid (Some (RuleV r1))) (VEntries (view k1))"
    "map_pins (view k1) = map_pins (view k)"
    by (rule bpf_maps.add_teid_run [OF maps run1])
  obtain ip pub r2 n where b: "add_nat_build ifaces g = Inr (ip, r2)" "ipKey ip = Inr pub"
    "map_pins (view k1) PinNatMap = Some n"
    "provisioned (map_pins (view k1) PinTxPort) (OutIfindex r2)
       (cell_set (VEntries (view k1)) n pub (Some (RuleV r2))) (VEntries (view k2))"
    "map_pins (view k2) = map_pins (view k1)"
    by (rule bpf_maps.add_nat_run [OF maps run2])
  have ok: "rule_ok r1" "rule_ok r2" and ip: "ip = ParseIP (addNatNatIP g)"
    using add_teid_build_ok [OF a(1)] add_nat_build_ok [OF b(1)] by auto
  have "Action r1 = ActionDecapFwd" "Action r2 = ActionEncapFwd"
    using add_teid_build_shape [OF a(1)] assms(6) add_nat_build_rule(1) [OF b(1)] by (auto simp: zero_rule_def)
  with ok have oif: "OutIfindex r1 \<noteq> 0" "OutIfindex r2 \<noteq> 0" by (auto simp: rule_ok_def deliverable_def)
  have w1: "VEntries (view k1) = fold (write_map (map_pins (view k))) [PutTeid teid r1, AddPort (OutIfindex r1)]
      (VEntries (view k))"
    using a(2,3) oif(1) by (auto simp: provisioned_def)
  have w2: "VEntries (view k2) = fold (write_map (map_pins (view k))) [PutNat pub r2, AddPort (OutIfindex r2)]
      (VEntries (view k1))"
    using b(3,4) a(4) oif(2) by (auto simp: provisioned_def)
  have "plane (VEntries (view k2)) (map_pins (view k2)) stats =
      plane_of_tables (fold apply_write (nat_writes teid r1 pub r2) (loaded_tables is)) stats"
    unfolding l(3) [symmetric]
    by (rule plane_after_writes [OF l(1,2)]) (use a(4) b(5) w1 w2 ok in \<open>simp_all add: nat_writes_def\<close>)
  with a(1) b(1,2) ip show ?thesis by blast
qed

text \<open>C9: a UE behind NAT is never seen from outside, nor another one reached: after a load, \<open>add-teid --action
  decap --nat-ip\<close> and \<open>add-nat\<close> for the same public address, and whatever traffic since, a G-PDU of the
  UE's tunnel either is dropped or leaves by the egress interface with the public address as its
  source, and a downlink frame for the public address either is dropped or leaves for the gNB in a
  tunnel of the given TEID with the UE as its inner destination, whether or not the rules are capped.\<close>
theorem nat_translates_both_ways:
  assumes "bpf_fresh lapi view" and "bpffs_works lapi view" and "xdp_head adj"
    and "load_RunE lapi ifaces uplink mode dl dlmode k0 = (Inr (), k)"
    and "add_teid_RunE (Maps lapi) ifaces f k = (Inr out1, k1)"
    and "add_nat_RunE (Maps lapi) ifaces g k1 = (Inr out2, k2)"
    and act: "ParseAction (addTeidAction f) = Inr ActionDecapFwd" and given: "addTeidNatIP f \<noteq> []"
    and pub: "IPToUint32 (ParseIP (addTeidNatIP f)) = Inr pub" "IPToUint32 (ParseIP (addNatNatIP g)) = Inr pub"
    and "pub \<noteq> 0" and ue: "IPToUint32 (ParseIP (addNatUeIP g)) = Inr ue"
    and traffic: "route_all adj xs (plane (VEntries (view k2)) (map_pins (view k2)) stats) = Some (vs, st)"
  shows "\<exists>teid r1 r2. add_teid_build ifaces f = Inr (teid, r1)
    \<and> add_nat_build ifaces g = Inr (ParseIP (addNatNatIP g), r2)
    \<and> (\<forall>now p strip src dst v q st'. classify p = Gpdu strip teid src dst \<longrightarrow>
        xdp_gtp_router adj now p st = Some (v, q, st') \<longrightarrow>
        v = XDP_DROP \<or> v = XDP_REDIRECT (OutIfindex r1) \<and> region 26 4 q = put_be32 pub)
    \<and> (\<forall>now p v q st'. classify p = Downlink pub \<longrightarrow> xdp_gtp_router adj now p st = Some (v, q, st') \<longrightarrow>
        v = XDP_DROP \<or> v = XDP_REDIRECT (OutIfindex r2) \<and> region 74 4 q = put_be32 ue
          \<and> region 46 4 q = put_be32 (addNatTeidOut g))"
proof -
  obtain "is" teid r1 pub' r2 where c: "add_teid_build ifaces f = Inr (teid, r1)"
    "add_nat_build ifaces g = Inr (ParseIP (addNatNatIP g), r2)" "ipKey (ParseIP (addNatNatIP g)) = Inr pub'"
    "plane (VEntries (view k2)) (map_pins (view k2)) stats =
        plane_of_tables (fold apply_write (nat_writes teid r1 pub' r2) (loaded_tables is)) stats"
    using nat_configured [OF assms(1,2,4-6) act, of stats] by blast
  let ?st = "plane_of_tables (fold apply_write (nat_writes teid r1 pub' r2) (loaded_tables is)) stats"
  have p: "pub' = pub" using ipKey_IPToUint32 [OF pub(2)] c(3) by simp
  have same: "same_config ?st st" using route_all_same_config [OF traffic] c(4) by simp
  obtain s1 where s1: "teid_map st teid = Some s1" "settings_of s1 = settings_of r1"
    by (rule same_config_rule [OF same, of "TeidSlot teid" r1]) (auto simp: plane_of_tables_def nat_writes_def)
  obtain s2 where s2: "nat_map st pub = Some s2" "settings_of s2 = settings_of r2"
    by (rule same_config_rule [OF same, of "NatSlot pub" r2]) (auto simp: plane_of_tables_def nat_writes_def p)
  have tx: "tx_port st (OutIfindex r1) = Some (OutIfindex r1)" "tx_port st (OutIfindex r2) = Some (OutIfindex r2)"
    using same by (simp_all add: same_config_def plane_of_tables_def nat_writes_def)
  have n1: "Action r1 = ActionDecapFwd" "NatIP r1 = pub"
    using add_teid_build_shape [OF c(1)] act add_teid_nat [OF c(1) given] pub(1) by (auto simp: zero_rule_def)
  have n2: "Action r2 = ActionEncapFwd" "NatIP r2 = ue" "TeidOut r2 = addNatTeidOut g"
    using add_nat_build_rule(1-3) [OF c(2)] ue by auto
  note e1 = settings_fields [OF s1(2)] and e2 = settings_fields [OF s2(2)]
  have up: "leaves_as (OutIfindex r1) (\<lambda>q. region 26 4 q = put_be32 pub) (xdp_gtp_router adj now p st)"
    if "classify p = Gpdu strip teid src dst" for now p strip src dst
    using uplink_translated [OF that s1(1)] e1 n1 tx assms(11) by simp
  have down: "leaves_as (OutIfindex r2)
      (\<lambda>q. region 74 4 q = put_be32 ue \<and> region 46 4 q = put_be32 (addNatTeidOut g)) (xdp_gtp_router adj now p st)"
    if "classify p = Downlink pub" for now p
    using downlink_translated [OF assms(3) that s2(1)] e2 n2 tx by simp
  show ?thesis
    using c(1,2) up down unfolding leaves_as_def by (intro exI conjI allI impI) blast+
qed

definition lab_natted_flags :: add_teid_flags where
  "lab_natted_flags = lab_plain_flags\<lparr>addTeidNatIP := ''203.0.113.7''\<rparr>"

lemma lab_natted_build:
  "add_teid_build lab_ifaces lab_natted_flags =
     Inr (0xDEAD, lab_teid_rule\<lparr>RatePPS := 0, NatIP := be32 203 0 113 7\<rparr>)"
  by (simp add: add_teid_build_def lab_natted_flags_def lab_plain_flags_def lab_teid_flags_def
      add_teid_defaults_def lab_teid_rule_def lab_parseTEID build_eval)

lemma lab_load_natted:
  "\<exists>k out1 k1 out2 k2.
     load_RunE (ref_loader True) lab_ifaces ''veth-ran'' ''native'' ''eth0'' ''generic'' empty_sys = (Inr (), k)
     \<and> add_teid_RunE ref_maps lab_ifaces lab_natted_flags k = (Inr out1, k1)
     \<and> add_nat_RunE ref_maps lab_ifaces lab_nat_flags k1 = (Inr out2, k2)"
  unfolding add_teid_RunE_def add_nat_RunE_def lab_natted_build lab_nat_build sum.case prod.case
  by (simp add: configure_eval OpenTeidMap_def TeidMap_Put_def ipKey_def lab_nat_rule_def lab_teid_rule_def
      zero_rule_def del: ref_kern_ops ref_maps_simps)

lemma nat_translates_both_ways_witness:
  "\<exists>k2 vs st. route_all (ref_adjust 256) [(8, lab_gpdu), (9, demo_reply)]
       (plane (VEntries (ref_view k2)) (map_pins (ref_view k2)) (\<lambda>_. None)) = Some (vs, st)
     \<and> (\<forall>v q st'. xdp_gtp_router (ref_adjust 256) 10 lab_gpdu st = Some (v, q, st') \<longrightarrow>
          v = XDP_DROP \<or> v = XDP_REDIRECT 2 \<and> region 26 4 q = [203, 0, 113, 7])
     \<and> (\<forall>v q st'. xdp_gtp_router (ref_adjust 256) 10 demo_reply st = Some (v, q, st') \<longrightarrow>
          v = XDP_DROP \<or> v = XDP_REDIRECT 5 \<and> region 74 4 q = [10, 1, 0, 2])"
proof -
  obtain k out1 k1 out2 k2 where
    l: "load_RunE (ref_loader True) lab_ifaces ''veth-ran'' ''native'' ''eth0'' ''generic'' empty_sys = (Inr (), k)"
    and r: "add_teid_RunE (Maps (ref_loader True)) lab_ifaces lab_natted_flags k = (Inr out1, k1)"
    "add_nat_RunE (Maps (ref_loader True)) lab_ifaces lab_nat_flags k1 = (Inr out2, k2)"
    using lab_load_natted by (auto simp: ref_loader_def)
  have f: "ParseAction (addTeidAction lab_natted_flags) = Inr ActionDecapFwd" "addTeidNatIP lab_natted_flags \<noteq> []"
    "IPToUint32 (ParseIP (addTeidNatIP lab_natted_flags)) = Inr (be32 203 0 113 7)"
    "IPToUint32 (ParseIP (addNatNatIP lab_nat_flags)) = Inr (be32 203 0 113 7)"
    "IPToUint32 (ParseIP (addNatUeIP lab_nat_flags)) = Inr (be32 10 1 0 2)"
    by (simp_all add: lab_natted_flags_def lab_plain_flags_def lab_teid_flags_def add_teid_defaults_def
        lab_nat_flags_def ParseAction_def lab_parsed)
  have nz: "be32 203 0 113 7 \<noteq> 0" by code_simp
  obtain vs st where t: "route_all (ref_adjust 256) [(8, lab_gpdu), (9, demo_reply)]
      (plane (VEntries (ref_view k2)) (map_pins (ref_view k2)) (\<lambda>_. None)) = Some (vs, st)"
    using route_all_total by blast
  obtain src dst where c: "classify lab_gpdu = Gpdu 36 0xDEAD src dst" using lab_gpdu_class by blast
  have bytes: "put_be32 (be32 203 0 113 7) = [203, 0, 113, 7]" "put_be32 (be32 10 1 0 2) = [10, 1, 0, 2]"
    by code_simp+
  have oif: "OutIfindex (lab_teid_rule\<lparr>RatePPS := 0, NatIP := be32 203 0 113 7\<rparr>) = 2" "OutIfindex lab_nat_rule = 5"
    by (simp_all add: lab_teid_rule_def lab_nat_rule_def)
  obtain teid r1 r2 where b: "add_teid_build lab_ifaces lab_natted_flags = Inr (teid, r1)"
    "add_nat_build lab_ifaces lab_nat_flags = Inr (ParseIP (addNatNatIP lab_nat_flags), r2)"
    and up: "\<And>now p strip src dst v q st'. classify p = Gpdu strip teid src dst \<Longrightarrow>
        xdp_gtp_router (ref_adjust 256) now p st = Some (v, q, st') \<Longrightarrow>
        v = XDP_DROP \<or> v = XDP_REDIRECT (OutIfindex r1) \<and> region 26 4 q = put_be32 (be32 203 0 113 7)"
    and down: "\<And>now p v q st'. classify p = Downlink (be32 203 0 113 7) \<Longrightarrow>
        xdp_gtp_router (ref_adjust 256) now p st = Some (v, q, st') \<Longrightarrow>
        v = XDP_DROP \<or> v = XDP_REDIRECT (OutIfindex r2) \<and> region 74 4 q = put_be32 (be32 10 1 0 2)
          \<and> region 46 4 q = put_be32 (addNatTeidOut lab_nat_flags)"
    using nat_translates_both_ways [OF rsf.bpf_fresh_axioms ref_bpffs_works ref_head.xdp_head_axioms l r f(1-4) nz f(5) t]
    by blast
  have "teid = 0xDEAD" "OutIfindex r1 = 2" "OutIfindex r2 = 5"
    using b oif by (auto simp: lab_natted_build lab_nat_build)
  then show ?thesis using t up [OF c [folded \<open>teid = 0xDEAD\<close>]] down [OF demo_reply_facts(1)] bytes by metis
qed

end
