(* ===== verification/TrafficGen.thy ===== *)
theory TrafficGen
  imports Router
begin

text \<open>
  \<open>tools/gen_gtp_traffic.py\<close>, the traffic generator of the verification scripts. The library scapy,
  which serialises a stack of protocol layers, is the parameter \<open>build\<close> of the locale \<open>scapy\<close>, whose
  laws are the wire formats of Ethernet, IPv4 and UDP; what the headers hold beyond the fields the
  script sets (identification, flags, checksums) is left open, and so are stacks whose 16-bit lengths
  do not fit. The number of frames and their contents are modelled (for counts and lengths that are
  not negative), the pauses between them and the progress output are not.
\<close>

section \<open>Layers\<close>

text \<open>\<open>IP()\<close> without a \<open>ttl\<close> has the default 64, which the script also sets elsewhere.\<close>

datatype layer =
    EtherLayer string string      \<comment> \<open>\<open>Ether(src, dst)\<close>\<close>
  | IPLayer string string         \<comment> \<open>\<open>IP(src, dst, ttl=64)\<close>\<close>
  | UDPLayer u16 u16              \<comment> \<open>\<open>UDP(sport, dport)\<close>\<close>
  | RawLayer "u8 list"            \<comment> \<open>\<open>Raw(load)\<close>\<close>

text \<open>What the script puts above IP, and the protocol number scapy writes for it.\<close>

fun layer_proto :: "layer list \<Rightarrow> u8 option" where
  "layer_proto [UDPLayer s d, RawLayer load] = Some 17"
| "layer_proto [RawLayer load] = Some 0"
| "layer_proto _ = None"

locale scapy =
  fixes build :: "layer list \<Rightarrow> u8 list" and mac_of :: "string \<Rightarrow> u8 list" and ip_of :: "string \<Rightarrow> u8 list"
  assumes macs: "length (mac_of m) = 6" and ips: "length (ip_of a) = 4"
    and raw: "build [RawLayer load] = load"
    and udp: "8 + length load < 65536 \<Longrightarrow> \<exists>c. length c = 2 \<and> build [UDPLayer sport dport, RawLayer load] =
        put_be16 sport @ put_be16 dport @ put_be16 (of_nat (8 + length load)) @ c @ load"
    and ip: "layer_proto ls = Some proto \<Longrightarrow> 20 + length (build ls) < 65536 \<Longrightarrow> \<exists>ident c. length ident = 4 \<and> length c = 2 \<and> build (IPLayer src dst # ls) =
        [0x45, 0] @ put_be16 (of_nat (20 + length (build ls))) @ ident @ [64, proto] @ c @
        ip_of src @ ip_of dst @ build ls"
    and ether: "build (EtherLayer smac dmac # IPLayer src dst # ls) =
        mac_of dmac @ mac_of smac @ [8, 0] @ build (IPLayer src dst # ls)"

section \<open>The script\<close>

text \<open>\<open>struct.pack("!BBHI", ...)\<close> raises for values that do not fit their field.\<close>

definition build_gtpu_header :: "int \<Rightarrow> nat \<Rightarrow> u8 list option" where
  "build_gtpu_header teid payload_len =
     (if payload_len < 65536 \<and> 0 \<le> teid \<and> teid < 4294967296
      then Some ([0x30, 0xFF] @ put_be16 (of_nat payload_len) @ put_be32 (word_of_int teid))
      else None)"

definition craft_gtpu_packet ::
  "(layer list \<Rightarrow> u8 list) \<Rightarrow> string \<Rightarrow> string \<Rightarrow> string \<Rightarrow> string \<Rightarrow> string \<Rightarrow> string \<Rightarrow> int \<Rightarrow> u8 list
     \<Rightarrow> u8 list option" where
  "craft_gtpu_packet build src_mac dst_mac outer_src outer_dst inner_src inner_dst teid payload =
     (let inner_bytes = build [IPLayer inner_src inner_dst, RawLayer payload]
      in map_option (\<lambda>gtp_hdr. build [EtherLayer src_mac dst_mac, IPLayer outer_src outer_dst,
           UDPLayer 2152 2152, RawLayer (gtp_hdr @ inner_bytes)])
         (build_gtpu_header teid (length inner_bytes)))"

definition craft_downlink_packet ::
  "(layer list \<Rightarrow> u8 list) \<Rightarrow> string \<Rightarrow> string \<Rightarrow> string \<Rightarrow> string \<Rightarrow> u8 list \<Rightarrow> u8 list" where
  "craft_downlink_packet build src_mac dst_mac src_ip ue_ip payload =
     build [EtherLayer src_mac dst_mac, IPLayer src_ip ue_ip, UDPLayer 4096 9999, RawLayer payload]"

text \<open>\<open>bytes(range(n % 256)) * (n // 256 + 1)\<close>, cut to \<open>n\<close> bytes.\<close>

definition gen_payload :: "nat \<Rightarrow> u8 list" where
  "gen_payload n = take n (concat (replicate (n div 256 + 1) (map of_nat [0..<n mod 256])))"

record gen_args =
  GTeid :: int
  GSrcIP :: string
  GDstIP :: string
  GInnerSrc :: string
  GInnerDst :: string
  GCount :: nat
  GPayloadLen :: nat
  GDownlink :: bool

text \<open>The frames of a run, each sent once; \<open>None\<close> when the script stops with an exception.\<close>

definition gen_frames ::
  "(layer list \<Rightarrow> u8 list) \<Rightarrow> string \<Rightarrow> string \<Rightarrow> gen_args \<Rightarrow> u8 list list option" where
  "gen_frames build src_mac dst_mac args =
     (let payload = gen_payload (GPayloadLen args)
      in if GCount args = 0 then Some []
         else if GDownlink args
         then Some (replicate (GCount args)
           (craft_downlink_packet build src_mac dst_mac (GInnerSrc args) (GInnerDst args) payload))
         else map_option (replicate (GCount args))
           (craft_gtpu_packet build src_mac dst_mac (GSrcIP args) (GDstIP args) (GInnerSrc args)
              (GInnerDst args) (GTeid args) payload))"

section \<open>The payload\<close>

lemma length_gen_payload: "length (gen_payload n) = min n ((n div 256 + 1) * (n mod 256))"
proof -
  have "length (concat (replicate k xs)) = k * length xs" for k and xs :: "u8 list"
    by (simp add: length_concat sum_list_replicate)
  then show ?thesis by (simp only: gen_payload_def length_take length_map length_upt diff_zero min.commute)
qed

text \<open>Up to 255 bytes are as asked; from 256 on they are not: \<open>--payload-len 256\<close> sends none.\<close>

lemma gen_payload_small: "n < 256 \<Longrightarrow> length (gen_payload n) = n"
  by (simp add: length_gen_payload)

lemma gen_payload_short: "gen_payload (256 * k) = []" "length (gen_payload 300) = 88"
  by (simp_all add: gen_payload_def length_concat sum_list_replicate)

section \<open>The frames\<close>

definition key_of :: "u8 list \<Rightarrow> u32" where
  "key_of ip = be32 (ip ! 0) (ip ! 1) (ip ! 2) (ip ! 3)"

lemma length_2_cases: "length c = 2 \<Longrightarrow> \<exists>a b. c = [a, b]"
  by (auto simp: numeral_2_eq_2 length_Suc_conv)

lemma length_6_cases: "length m = 6 \<Longrightarrow> \<exists>a b c d e f. m = [a, b, c, d, e, f]"
  by (auto simp: numeral_eq_Suc length_Suc_conv)

context scapy
begin

text \<open>The bytes of the two stacks.\<close>

lemma ip_bytes:
  assumes "layer_proto ls = Some proto" and "20 + length (build ls) < 65536"
  obtains i1 i2 i3 i4 c1 c2 s1 s2 s3 s4 d1 d2 d3 d4 where
    "ip_of src = [s1, s2, s3, s4]" and "ip_of dst = [d1, d2, d3, d4]"
    and "build (IPLayer src dst # ls) = [0x45, 0] @ put_be16 (of_nat (20 + length (build ls))) @
      [i1, i2, i3, i4, 64, proto, c1, c2, s1, s2, s3, s4, d1, d2, d3, d4] @ build ls"
  using ip [OF assms, of src dst] ips [of src] ips [of dst] by (auto simp: length_eq_4 dest!: length_2_cases)

lemma ether_bytes:
  obtains d1 d2 d3 d4 d5 d6 s1 s2 s3 s4 s5 s6 where
    "build (EtherLayer smac dmac # IPLayer src dst # ls) =
       [d1, d2, d3, d4, d5, d6, s1, s2, s3, s4, s5, s6, 8, 0] @ build (IPLayer src dst # ls)"
  using ether [of smac dmac src dst ls] macs [of smac] macs [of dmac] by (auto dest!: length_6_cases)

lemma udp_bytes:
  assumes "8 + length load < 65536"
  obtains c1 c2 where "build [UDPLayer sport dport, RawLayer load] =
    put_be16 sport @ put_be16 dport @ put_be16 (of_nat (8 + length load)) @ [c1, c2] @ load"
  using udp [of load sport dport] assms by (auto dest!: length_2_cases)

lemma length_udp: "8 + length load < 65536 \<Longrightarrow> length (build [UDPLayer sport dport, RawLayer load]) = 8 + length load"
  by (rule udp_bytes [of load sport dport]) (simp_all add: put_be16_def)

lemma downlink_class:
  assumes "length load \<le> 65507"
  shows "classify (craft_downlink_packet build smac dmac src ue load) = Downlink (key_of (ip_of ue))"
proof -
  have l: "8 + length load < 65536" using assms by simp
  obtain c1 c2 where u: "build [UDPLayer 4096 9999, RawLayer load] =
      put_be16 4096 @ put_be16 9999 @ put_be16 (of_nat (8 + length load)) @ [c1, c2] @ load"
    using l by (rule udp_bytes)
  have "20 + length (build [UDPLayer 4096 9999, RawLayer load]) < 65536"
    using assms by (simp add: length_udp)
  then show ?thesis
    unfolding craft_downlink_packet_def
    by - (rule ether_bytes [of smac dmac src ue "[UDPLayer 4096 9999, RawLayer load]"],
      erule ip_bytes [OF layer_proto.simps(1), of 4096 9999 load src ue], simp add: u classify_def put_be16_def key_of_def Let_def be16_def)
qed

text \<open>An uplink frame, byte by byte: Ethernet, IPv4, UDP and GTP-U headers before the inner packet.\<close>

lemma uplink_frame:
  assumes "build_gtpu_header teid (length inner) = Some h" and "length inner \<le> 65499"
    and "p = build [EtherLayer smac dmac, IPLayer osrc odst, UDPLayer 2152 2152, RawLayer (h @ inner)]"
  obtains m1 m2 m3 m4 m5 m6 n1 n2 n3 n4 n5 n6 l1 l2 j1 j2 j3 j4 y1 y2 a1 a2 a3 a4 b1 b2 b3 b4 l3 l4 c1 c2 where
    "p = [m1, m2, m3, m4, m5, m6, n1, n2, n3, n4, n5, n6, 8, 0, 0x45, 0, l1, l2, j1, j2, j3, j4, 64, 17,
      y1, y2, a1, a2, a3, a4, b1, b2, b3, b4] @ put_be16 2152 @ put_be16 2152 @ [l3, l4, c1, c2] @
      [0x30, 0xFF] @ put_be16 (of_nat (length inner)) @ put_be32 (word_of_int teid) @ inner"
proof -
  have hdr: "h = [0x30, 0xFF] @ put_be16 (of_nat (length inner)) @ put_be32 (word_of_int teid)"
    using assms(1) by (auto simp: build_gtpu_header_def split: if_splits)
  then have lh: "length h = 8" by (simp add: put_be16_def put_be32_def)
  have fits: "8 + length (h @ inner) < 65536" using assms(2) lh by simp
  let ?udp = "[UDPLayer 2152 2152, RawLayer (h @ inner)]"
  obtain c1 c2 where u: "build ?udp =
      put_be16 2152 @ put_be16 2152 @ put_be16 (of_nat (8 + length (h @ inner))) @ [c1, c2] @ h @ inner"
    using fits by (rule udp_bytes)
  have "20 + length (build ?udp) < 65536" using assms(2) lh length_udp [OF fits] by simp
  then obtain j1 j2 j3 j4 y1 y2 a1 a2 a3 a4 b1 b2 b3 b4 where outer: "build (IPLayer osrc odst # ?udp) =
      [0x45, 0] @ put_be16 (of_nat (20 + length (build ?udp))) @
      [j1, j2, j3, j4, 64, 17, y1, y2, a1, a2, a3, a4, b1, b2, b3, b4] @ build ?udp"
    by (rule ip_bytes [OF layer_proto.simps(1), where src = osrc and dst = odst]) (simp add: that)
  obtain m1 m2 m3 m4 m5 m6 n1 n2 n3 n4 n5 n6 where eth: "build (EtherLayer smac dmac # IPLayer osrc odst # ?udp) =
      [m1, m2, m3, m4, m5, m6, n1, n2, n3, n4, n5, n6, 8, 0] @ build (IPLayer osrc odst # ?udp)"
    by (rule ether_bytes)
  obtain l1 l2 where l: "put_be16 (of_nat (20 + length (build ?udp))) = [l1, l2]" by (simp add: put_be16_def)
  obtain l3 l4 where l': "put_be16 (of_nat (8 + length (h @ inner))) = [l3, l4]" by (simp add: put_be16_def)
  show ?thesis
    by (rule that, subst assms(3), subst eth, subst outer, subst l, subst u, subst l')
      (simp only: hdr append_assoc append_Cons append_Nil)
qed

lemma uplink_class:
  assumes "craft_gtpu_packet build smac dmac osrc odst isrc idst teid load = Some p" and "length load \<le> 65479"
  shows "classify p = Gpdu 36 (word_of_int teid) (key_of (ip_of isrc)) (key_of (ip_of idst))"
    and "drop 50 p = build [IPLayer isrc idst, RawLayer load]"
proof -
  define inner where "inner = build [IPLayer isrc idst, RawLayer load]"
  have "20 + length (build [RawLayer load]) < 65536" using assms(2) by (simp add: raw)
  then obtain i1 i2 i3 i4 x1 x2 s1 s2 s3 s4 d1 d2 d3 d4 where i: "ip_of isrc = [s1, s2, s3, s4]"
    "ip_of idst = [d1, d2, d3, d4]" "inner = [0x45, 0] @ put_be16 (of_nat (20 + length load)) @
      [i1, i2, i3, i4, 64, 0, x1, x2, s1, s2, s3, s4, d1, d2, d3, d4] @ load"
    unfolding inner_def by (rule ip_bytes [OF layer_proto.simps(2), where src = isrc and dst = idst]) (simp add: that raw)
  obtain h where h: "build_gtpu_header teid (length inner) = Some h"
    and p: "p = build [EtherLayer smac dmac, IPLayer osrc odst, UDPLayer 2152 2152, RawLayer (h @ inner)]"
    using assms(1) by (auto simp: craft_gtpu_packet_def Let_def inner_def)
  have small: "length inner \<le> 65499" using assms(2) by (simp add: i(3) put_be16_def)
  show "drop 50 p = build [IPLayer isrc idst, RawLayer load]"
    by (rule uplink_frame [OF h small p]) (simp add: put_be16_def put_be32_def inner_def)
  show "classify p = Gpdu 36 (word_of_int teid) (key_of (ip_of isrc)) (key_of (ip_of idst))"
    by (rule uplink_frame [OF h small p])
      (simp add: i classify_def gtpu_class_def inner_class_def put_be16_def put_be32_def key_of_def
        Let_def be16_def wire)
qed

end

text \<open>
  A serialiser with identification 1, no fragmentation and checksums 0, for addresses in the notation
  of the Go parser.
\<close>

definition ref_ip :: "string \<Rightarrow> u8 list" where
  "ref_ip s = (if length (To4 (ParseIP s)) = 4 then To4 (ParseIP s) else [0, 0, 0, 0])"

definition ref_mac :: "string \<Rightarrow> u8 list" where
  "ref_mac s = (case ParseMAC s of Inl e \<Rightarrow> replicate 6 0 | Inr m \<Rightarrow> mac_bytes m)"

fun ref_build :: "layer list \<Rightarrow> u8 list" where
  "ref_build [] = []"
| "ref_build (EtherLayer src dst # ls) = ref_mac dst @ ref_mac src @ [8, 0] @ ref_build ls"
| "ref_build (IPLayer src dst # ls) =
     [0x45, 0] @ put_be16 (of_nat (20 + length (ref_build ls))) @ [0, 1, 0, 0] @ [64, case layer_proto ls of None \<Rightarrow> 0 | Some n \<Rightarrow> n] @ [0, 0] @
     ref_ip src @ ref_ip dst @ ref_build ls"
| "ref_build (UDPLayer s d # ls) =
     put_be16 s @ put_be16 d @ put_be16 (of_nat (8 + length (ref_build ls))) @ [0, 0] @ ref_build ls"
| "ref_build (RawLayer load # ls) = load @ ref_build ls"

interpretation ref_scapy: scapy ref_build ref_mac ref_ip
proof (unfold_locales, goal_cases)
  case (4 load sport dport)
  then show ?case by (intro exI [of _ "[0, 0]"]) simp
next
  case (5 ls proto src dst)
  then show ?case by (intro exI [of _ "[0, 1, 0, 0]"] exI [of _ "[0, 0]"]) simp
qed (auto simp: ref_mac_def ref_ip_def split: sum.splits)

section \<open>Properties\<close>

text \<open>C35: the traffic generator exercises what it says: the router takes every uplink frame it sends for a
  G-PDU of the given TEID and inner addresses, with exactly the inner packet behind the 14 Ethernet
  bytes and the 36 that decapsulation strips, and every downlink frame for a plain packet to the UE,
  never for a tunnelled one. The bound on the payload is the one of the 16-bit length fields.\<close>
theorem generator_meets_router:
  assumes "scapy build mac_of ip_of" and "gen_frames build smac dmac args = Some fs" and "p \<in> set fs"
    and "GPayloadLen args \<le> 65479"
  shows "if GDownlink args then classify p = Downlink (key_of (ip_of (GInnerDst args)))
    else classify p = Gpdu 36 (word_of_int (GTeid args)) (key_of (ip_of (GInnerSrc args)))
        (key_of (ip_of (GInnerDst args)))
      \<and> drop 50 p = build [IPLayer (GInnerSrc args) (GInnerDst args), RawLayer (gen_payload (GPayloadLen args))]"
proof (cases "GDownlink args")
  case True
  have "length (gen_payload (GPayloadLen args)) \<le> 65507"
    using assms(4) by (simp add: length_gen_payload)
  from True scapy.downlink_class [OF assms(1) this] show ?thesis
    using assms(2,3) by (auto simp: gen_frames_def Let_def split: if_splits)
next
  case False
  with assms(2,3) have "craft_gtpu_packet build smac dmac (GSrcIP args) (GDstIP args) (GInnerSrc args)
      (GInnerDst args) (GTeid args) (gen_payload (GPayloadLen args)) = Some p"
    by (auto simp: gen_frames_def Let_def split: if_splits)
  moreover have "length (gen_payload (GPayloadLen args)) \<le> 65479"
    using assms(4) by (simp add: length_gen_payload)
  ultimately show ?thesis using False scapy.uplink_class [OF assms(1)] by simp
qed

definition default_args :: gen_args where
  "default_args = \<lparr>GTeid = 0xDEAD, GSrcIP = ''192.168.1.1'', GDstIP = ''192.168.1.2'', GInnerSrc = ''10.1.0.1'',
     GInnerDst = ''10.1.0.2'', GCount = 10, GPayloadLen = 64, GDownlink = False\<rparr>"

lemma generator_meets_router_witness:
  "\<exists>p. gen_frames ref_build ''02:00:00:00:00:01'' ''ff:ff:ff:ff:ff:ff'' default_args = Some (replicate 10 p)
     \<and> classify p = Gpdu 36 0xDEAD (be32 10 1 0 1) (be32 10 1 0 2)"
proof -
  have "\<exists>p. gen_frames ref_build ''02:00:00:00:00:01'' ''ff:ff:ff:ff:ff:ff'' default_args = Some (replicate 10 p)"
    by (simp add: gen_frames_def default_args_def craft_gtpu_packet_def build_gtpu_header_def Let_def ref_ip_def
        length_gen_payload)
  then obtain p where p: "gen_frames ref_build ''02:00:00:00:00:01'' ''ff:ff:ff:ff:ff:ff'' default_args =
      Some (replicate 10 p)" by blast
  have "key_of (ref_ip ''10.1.0.1'') = be32 10 1 0 1" "key_of (ref_ip ''10.1.0.2'') = be32 10 1 0 2"
    by code_simp+
  with generator_meets_router [OF ref_scapy.scapy_axioms p, of p] p show ?thesis
    by (simp add: default_args_def)
qed

end
