(* ===== verification/Spec2Isabelle.thy ===== *)
theory Spec2Isabelle
  imports Races NatPath TrafficGen
begin

text \<open>
  A verification library for the GTP-U router of \<open>src/gtp-router\<close>: an XDP program in C that forwards
  the user traffic of a mobile network, and \<open>gtp-ctrl\<close>, the Go program that loads it, writes its rules
  and shows its state. The two meet in the pinned BPF maps: \<open>gtp-ctrl\<close> puts a \<open>FwdRule\<close> under a
  tunnel id or an address, the XDP program looks the rule up for every packet, applies it, and keeps
  the counters and the rate and quarantine state in it, which \<open>gtp-ctrl\<close> reads back.

  \<^bold>\<open>Theories.\<close>
  \<^item> \<open>Prelude\<close>: word types, errors as values (\<open>check\<close>), big-endian codecs.
  \<^item> \<open>GoStd\<close>, \<open>GoNet\<close>, \<open>Float64\<close>: what the Go code uses of \<open>fmt\<close>, \<open>strconv\<close>, \<open>strings\<close>, \<open>net\<close>,
    \<open>time\<close> and of \<open>float64\<close> arithmetic.
  \<^item> \<open>RuleTypes\<close>: \<open>control/maps/types.go\<close>, \<open>validate.go\<close> and the layout of \<open>include/gtp_router.h\<close>: the
    rule, its conversions and texts, \<open>ValidateRule\<close>.
  \<^item> \<open>BpfMaps\<close>: \<open>control/maps/maps.go\<close> over the map library as a parameter (\<open>bpf_api\<close>).
  \<^item> \<open>Commands\<close>, \<open>CommandRuns\<close>: \<open>control/cmd/add_*.go\<close>, \<open>del_*.go\<close>, \<open>util.go\<close>, \<open>root.go\<close>: each \<open>RunE\<close> as a
    function of its flags and of the kernel state, and what a run does to the maps.
  \<^item> \<open>ListView\<close>, \<open>StatsWatch\<close>: \<open>control/cmd/list.go\<close>, \<open>control/stats/stats.go\<close>, \<open>control/cmd/stats.go\<close>.
  \<^item> \<open>Policy\<close>: \<open>enforce_policy\<close> of \<open>ebpf/gtp_xdp.c\<close>, the rate cap and the quarantine.
  \<^item> \<open>Checksum\<close>, \<open>DataPlane\<close>, \<open>Forwarding\<close>: the rest of \<open>ebpf/gtp_xdp.c\<close>: checksums, the program on byte
    frames, and its properties.
  \<^item> \<open>Races\<close>: \<open>enforce_policy\<close> and \<open>bump_rule\<close> again, as the loads and stores of several CPUs on one rule.
  \<^item> \<open>Router\<close>: both planes together: what a command installs is what the XDP program then does.
  \<^item> \<open>Loader\<close>: \<open>control/loader/loader.go\<close>, \<open>control/cmd/load.go\<close>, \<open>unload.go\<close>, and the generated bindings
    \<open>gtpxdp_bpfel.go\<close>.
  \<^item> \<open>Cli\<close>: the command line: \<open>root.go\<close>, \<open>main.go\<close>, the \<open>init\<close> functions of \<open>control/cmd\<close>, \<open>clock.go\<close>.
  \<^item> \<open>Sessions\<close>: what an invocation, and a sequence of them, writes to the maps.
  \<^item> \<open>Form\<close>, \<open>FormRuns\<close>: \<open>control/tui/form.go\<close>, the form that adds or edits a rule.
  \<^item> \<open>Dashboard\<close>, \<open>DashboardRuns\<close>: \<open>control/tui/dashboard.go\<close>, the live dashboard, and its runs.
  \<^item> \<open>TypedSystem\<close>: commands, loader, XDP program and dashboards interleaved over the pinned maps, and the
    invariant of the maps.
  \<^item> \<open>EndToEnd\<close>: from \<open>load\<close> and the commands after it to the frames.
  \<^item> \<open>NatPath\<close>: subscribers behind a public address, in both directions and after any traffic.
  \<^item> \<open>TrafficGen\<close>: \<open>tools/gen_gtp_traffic.py\<close>, the generator of test frames, against the XDP program.
  \<^item> \<open>Spec2Isabelle\<close>: what the operator sees of the quarantine against what the XDP program does.

  \<^bold>\<open>State and operations.\<close> A rule is the record \<open>fwd_rule\<close> with the fields of the Go struct at their
  widths. The kernel state is a type variable \<open>'k\<close>: the control plane only reaches it through
  \<open>bpf_api\<close> (maps), \<open>loader_api\<close> (objects, links, pins) and \<open>tui_env\<close> (processes, files), and a step of
  type \<open>('k, 'a) run\<close> returns a result or a \<open>go_error\<close> with the state after it, so that every early
  return of the code is a branch. The XDP program runs on a frame (a byte list), \<open>dp_state\<close> (its maps)
  and the clock, and returns \<open>None\<close> when it would touch a byte outside the frame; on several CPUs it is
  a schedule of accesses to the shared rule, each CPU at a point \<open>pc\<close> of the function. The state of the
  dashboard is \<open>ui_model\<close>, field for field the Go struct; \<open>Update\<close> and \<open>View\<close> return \<open>None\<close> where the code
  would panic.

  \<^bold>\<open>Interfaces.\<close> Code outside \<open>src\<close> is a parameter with named laws: \<open>bpf_maps\<close> (the map library and the
  kernel), its extensions \<open>bpf_system\<close> (links, pins, the bpf file system), \<open>bpf_program\<close> (the maps a loaded program
  uses), \<open>bpf_fresh\<close> (new maps are empty),
  \<open>dashboard_host\<close> (processes and files) and \<open>dashboard_system\<close>, \<open>text_inputs\<close> (the inputs of \<open>bubbles\<close>)
  \<open>xdp_head\<close> (\<open>bpf_xdp_adjust_head\<close>) and \<open>scapy\<close> (the serialiser of the traffic generator). The argument parser of \<open>cobra\<close> is a function without laws.
  Each is interpreted on an executable reference: the tables declared in \<open>ebpf/gtp_xdp.c\<close>, a system of
  pins and links, a text input, a buffer with headroom, a plain serialiser.

  \<^bold>\<open>What is shown.\<close>
  \<^item> Data plane: no input leads outside the frame; the program, with its cursors and its bounded walk
    over extension headers, is a dispatch on the class of the packet; each packet is counted once; an
    encapsulated packet is well formed and decapsulates to itself; the NAT rewrites keep valid
    checksums valid and touch nothing else; a blocked packet is dropped unchanged.
  \<^item> Policy: bounds on what a capped subscriber gets through, how abuse leads to quarantine and what
    never does, the invariant of the policy fields under any clock. On several CPUs: the cap and the
    configuration survive every interleaving, no CPU ever waits and no packet is dropped while a slot of
    the window is free, but two CPUs can admit
    quadratically more than the cap, one violated window can be scored once per CPU, and the counters
    can lose any number of packets.
  \<^item> Control plane: each command installs exactly the rule of its flags or reports an error with a
    known outcome; deletions undo additions; printed keys parse back; a load installs pins, links and
    devmap entries, a failed load leaves nothing attached; the listing and the counters are the maps; an
    invocation without root or without a required flag changes nothing; the documented examples are
    accepted.
  \<^item> System: the pinned maps stay well typed in every interleaving of commands, frames and dashboards; a
    load and a session of commands configure the XDP program as the abstract tables say; after an
    unload the commands that need the maps fail and change nothing.
  \<^item> Form: an edit form submits the rule it shows; no key sequence panics; it accepts only what the
    commands accept; every slot is reachable.
  \<^item> Dashboard: in every interleaving of keys, messages and outside changes no handler panics and the
    selection is valid; the maps are written only on request; a confirmed deletion removes what was
    confirmed; a refresh shows the maps; the rates shown are accurate.
  \<^item> Both planes: a rule added by a command forwards the subscriber's packets; a rate cap set by a
    command bounds what leaves the router; after a load, a UE added with \<open>add-ueip\<close> or behind
    \<open>add-nat\<close> is reachable; whatever traffic has passed, packets of a translated subscriber leave with
    the public address and answers to it reach the private one; the frames of the traffic generator
    are of the class it claims; \<open>HELD\<close> and \<open>YES\<close> are shown exactly while the XDP program drops;
    the two languages agree on the bytes of a rule.

  \<^bold>\<open>Bounds.\<close> The walk over extension headers has the fuel of the C loop (4); \<open>router_is_dispatch\<close> covers the
  packets with more. Go loops are structural recursions or have a termination proof; the refresh loop
  of \<open>stats --watch\<close> and the event loop of the dashboard run over a list or a relation of events, of any
  length. Words keep their width and wrap as in the code; \<open>float64\<close> values are rationals rounded to 53
  bits after every operation, far from overflow and underflow in the ranges used.

  \<^bold>\<open>Not modelled.\<close> Races between \<open>gtp-ctrl\<close> and the XDP program inside one map operation, and between
  two commands: outside \<open>Races\<close> these steps are atomic. How \<open>cobra\<close> reads its arguments and prints help,
  the event loop and the styles of the terminal libraries, the big-endian bindings (the same code over
  another object file), \<open>ebpf/xdp_pass.c\<close>, the shell scripts of the lab, the pauses and the output of
  the traffic generator, and the warnings \<open>load\<close> prints on the way.
\<close>

section \<open>The quarantine as the operator sees it\<close>

lemma enforce_policy_counters:
  "RateDropCount (self_release r) = RateDropCount r"
  "RateDropCount (roll_window now r) = RateDropCount r"
  by (simp_all add: self_release_def roll_window_def score_window_def Let_def)

lemma enforce_policy_held: "enforce_policy now r = (True, r) \<longleftrightarrow> held now r"
proof (cases "held now r")
  case False
  have "take_slot (roll_window now (self_release r)) \<noteq> (True, r)"
  proof
    assume "take_slot (roll_window now (self_release r)) = (True, r)"
    then have "RateDropCount r = RateDropCount r + 1"
      by (auto simp: take_slot_def enforce_policy_counters dest!: arg_cong [where f = RateDropCount]
          split: if_splits)
    then show False by simp
  qed
  with False show ?thesis by (simp add: enforce_policy_def Let_def)
qed (simp add: enforce_policy_def)

lemma status_held: "HasPrefix (quarantineStatus now r) ''YES('' \<longleftrightarrow> held now r"
  by (auto simp: quarantineStatus_def held_def HasPrefix_def Let_def not_le)

text \<open>C39: the panel and the listing tell the truth about the quarantine: at the same clock, the dashboard says
  \<open>HELD\<close>, and \<open>gtp-ctrl list\<close> says \<open>YES\<close>, exactly when the XDP program drops the packet on the
  quarantine alone; and while it says so, every packet before the deadline is dropped.\<close>
theorem panel_tells_posture:
  "(enforcementState now r = ''HELD'' \<longleftrightarrow> enforce_policy now r = (True, r))
    \<and> (HasPrefix (quarantineStatus now r) ''YES('' \<longleftrightarrow> enforce_policy now r = (True, r))
    \<and> (enforcementState now r = ''HELD'' \<longrightarrow>
        (\<forall>ts. (\<forall>t \<in> set ts. t < QuarantineUntilNs r) \<longrightarrow> police ts r = (replicate (length ts) True, r)))"
proof -
  have "enforcementState now r = ''HELD'' \<longleftrightarrow> held now r"
    by (simp add: enforcementState_def held_def)
  moreover have "police ts r = (replicate (length ts) True, r)"
    if "held now r" "\<forall>t \<in> set ts. t < QuarantineUntilNs r" for ts
    using that by (intro police_held) (simp add: held_def)
  ultimately show ?thesis by (simp add: enforce_policy_held status_held)
qed

lemma panel_tells_posture_witness:
  "police [3, 5, 9] (zero_rule\<lparr>QuarantineUntilNs := 10\<rparr>) =
     (replicate 3 True, zero_rule\<lparr>QuarantineUntilNs := 10\<rparr>)"
proof -
  let ?r = "zero_rule\<lparr>QuarantineUntilNs := 10\<rparr>"
  have h: "enforcementState 2 ?r = ''HELD''" by (simp add: enforcementState_def)
  have t: "\<forall>t \<in> set [3, 5, 9]. t < QuarantineUntilNs ?r" and l: "length [3 :: u64, 5, 9] = 3" by simp_all
  from panel_tells_posture [of 2 ?r] h
  have "\<forall>ts. (\<forall>t \<in> set ts. t < QuarantineUntilNs ?r) \<longrightarrow> police ts ?r = (replicate (length ts) True, ?r)"
    by blast
  from this [rule_format, of "[3, 5, 9]"] t show ?thesis by (simp only: l)
qed

end
